(* ===== verification/Ws_Prelude.thy ===== *)
theory Ws_Prelude
  imports Main "HOL-Library.Word"
begin

unbundle bit_operations_syntax

text \<open>
  The vocabulary every component theory shares.

  \<^item> Machine types: the code's \<open>u8\<close>, \<open>u16\<close> and \<open>u64\<close> as words; \<open>usize\<close> and the
    lengths of Rust vectors as \<open>nat\<close> with the 64-bit bound written out; a Rust \<open>String\<close>
    or \<open>&str\<close> as its UTF-8 bytes.
  \<^item> Outcomes: a Rust function that returns a \<open>Result\<close> and may panic yields
    \<open>Ok\<close>, \<open>Err\<close> or \<open>Panic\<close>; a method on \<open>&mut self\<close> is a state transformer
    with such an outcome, composed by \<open>bindM\<close> (the \<open>?\<close> operator: an error or a panic
    skips the rest, and the writes made so far stay).
  \<^item> Indexing, slicing and checked arithmetic with Rust's panics.
  \<^item> The weakest precondition \<open>wp\<close> of a state transformer and the predicate
    \<open>preserves\<close>, with the rules that carry the proofs of the component theories.
\<close>

section \<open>Machine types\<close>

type_synonym u8 = "8 word"
type_synonym u16 = "16 word"
type_synonym u64 = "64 word"
type_synonym str = "u8 list"

text \<open>The bytes of an ASCII literal of the source.\<close>

definition ascii :: "string \<Rightarrow> str" where
  "ascii s = map (\<lambda>c. of_nat (of_char c)) s"

lemma ascii_simps [simp]:
  "ascii [] = []"
  "ascii (c # cs) = of_nat (of_char c) # ascii cs"
  "ascii (s @ t) = ascii s @ ascii t"
  "length (ascii s) = length s"
  by (simp_all add: ascii_def)

section \<open>Outcomes\<close>

datatype ('e, 'a) outcome = Ok 'a | Err 'e | Panic

fun bindO :: "('e, 'a) outcome \<Rightarrow> ('a \<Rightarrow> ('e, 'b) outcome) \<Rightarrow> ('e, 'b) outcome" where
  "bindO (Ok a) f = f a"
| "bindO (Err e) f = Err e"
| "bindO Panic f = Panic"

fun is_ok :: "('e, 'a) outcome \<Rightarrow> bool" where
  "is_ok (Ok _) = True"
| "is_ok (Err _) = False"
| "is_ok Panic = False"

text \<open>\<open>Result::unwrap\<close>: an error becomes a panic.\<close>

fun unwrapO :: "('e, 'a) outcome \<Rightarrow> ('f, 'a) outcome" where
  "unwrapO (Ok a) = Ok a"
| "unwrapO (Err _) = Panic"
| "unwrapO Panic = Panic"

text \<open>\<open>Option::unwrap\<close>.\<close>

fun unwrap_option :: "'a option \<Rightarrow> ('e, 'a) outcome" where
  "unwrap_option (Some a) = Ok a"
| "unwrap_option None = Panic"

lemma bindO_eq_Ok [simp]: "bindO m f = Ok b \<longleftrightarrow> (\<exists>a. m = Ok a \<and> f a = Ok b)"
  by (cases m) auto

lemma bindO_eq_Err: "bindO m f = Err e \<longleftrightarrow> m = Err e \<or> (\<exists>a. m = Ok a \<and> f a = Err e)"
  by (cases m) auto

lemma bindO_eq_Panic: "bindO m f = Panic \<longleftrightarrow> m = Panic \<or> (\<exists>a. m = Ok a \<and> f a = Panic)"
  by (cases m) auto

lemma unwrap_option_eq [simp]:
  "unwrap_option x = Ok a \<longleftrightarrow> x = Some a"
  "unwrap_option x = Panic \<longleftrightarrow> x = None"
  "unwrap_option x \<noteq> Err e"
  by (cases x; simp)+

lemma unwrapO_eq [simp]:
  "unwrapO x = Ok a \<longleftrightarrow> x = Ok a"
  "unwrapO x \<noteq> Err e"
  by (cases x; simp)+

section \<open>Indexing and slicing\<close>

text \<open>\<open>xs[i]\<close> and \<open>&xs[a..b]\<close> panic when the index or the range is out of bounds.\<close>

definition index :: "'a list \<Rightarrow> nat \<Rightarrow> ('e, 'a) outcome" where
  "index xs i = (if i < length xs then Ok (xs ! i) else Panic)"

definition slice :: "'a list \<Rightarrow> nat \<Rightarrow> nat \<Rightarrow> ('e, 'a list) outcome" where
  "slice xs a b = (if a \<le> b \<and> b \<le> length xs then Ok (take (b - a) (drop a xs)) else Panic)"

lemma slice_eq_Ok [simp]:
  "slice xs a b = Ok ys \<longleftrightarrow> a \<le> b \<and> b \<le> length xs \<and> ys = take (b - a) (drop a xs)"
  by (auto simp: slice_def)

lemma slice_not_Err [simp]: "slice xs a b \<noteq> Err e"
  by (simp add: slice_def)

lemma slice_eq_Panic [simp]: "slice xs a b = Panic \<longleftrightarrow> \<not> (a \<le> b \<and> b \<le> length xs)"
  by (simp add: slice_def)

text \<open>
  \<open>str::is_char_boundary\<close>: both ends of the string are boundaries, and an index inside it
  is one when the byte there is not a UTF-8 continuation byte. Slicing a \<open>str\<close> off a
  boundary panics.
\<close>

definition is_continuation :: "u8 \<Rightarrow> bool" where
  "is_continuation b \<longleftrightarrow> b AND 0xC0 = 0x80"

definition is_char_boundary :: "str \<Rightarrow> nat \<Rightarrow> bool" where
  "is_char_boundary s i \<longleftrightarrow>
     i = 0 \<or> (if i \<ge> length s then i = length s else \<not> is_continuation (s ! i))"

definition str_slice :: "str \<Rightarrow> nat \<Rightarrow> nat \<Rightarrow> ('e, str) outcome" where
  "str_slice s a b =
     (if a \<le> b \<and> is_char_boundary s a \<and> is_char_boundary s b
      then Ok (take (b - a) (drop a s)) else Panic)"

lemma is_char_boundary_ends [simp]:
  "is_char_boundary s 0"
  "is_char_boundary s (length s)"
  by (simp_all add: is_char_boundary_def)

section \<open>The bits of a byte\<close>

text \<open>Equality of bytes bit by bit: with \<open>bit_simps\<close> it decides facts about masks.\<close>

lemma all_less_8:
  "(\<forall>n<8. P n) \<longleftrightarrow> P 0 \<and> P 1 \<and> P 2 \<and> P 3 \<and> P 4 \<and> P 5 \<and> P 6 \<and> P (7::nat)"
  by (simp only: numeral_eq_Suc pred_numeral_simps BitM.simps numeral_One One_nat_def arith_simps
      All_less_Suc less_nat_zero_code simp_thms conj_ac)

lemma u8_eq_bits:
  "(a :: u8) = b \<longleftrightarrow>
     bit a 0 = bit b 0 \<and> bit a 1 = bit b 1 \<and> bit a 2 = bit b 2 \<and> bit a 3 = bit b 3 \<and>
     bit a 4 = bit b 4 \<and> bit a 5 = bit b 5 \<and> bit a 6 = bit b 6 \<and> bit a 7 = bit b 7"
proof -
  have "a = b \<longleftrightarrow> (\<forall>n<8. bit a n = bit b n)"
    by (auto intro: bit_word_eqI)
  then show ?thesis unfolding all_less_8 .
qed

lemma unat_u8_less: "unat (b :: u8) < 256"
  using unsigned_less [where ?'a = nat, of b] by simp

lemma unat_u16_less: "unat (w :: u16) < 65536"
  using unsigned_less [where ?'a = nat, of w] by simp

lemma unat_u64_less: "unat (w :: u64) < 2 ^ 64"
  using unsigned_less [where ?'a = nat, of w] by simp

section \<open>Checked arithmetic\<close>

text \<open>
  Addition and subtraction on unsigned integers. With overflow checks (the \<open>dev\<close> profile
  of the workspace) an overflow panics; without them (the \<open>release\<close> profile) it wraps.
  The first argument is the profile's choice.
\<close>

definition u64_add :: "bool \<Rightarrow> u64 \<Rightarrow> u64 \<Rightarrow> ('e, u64) outcome" where
  "u64_add chk a b = (if unat a + unat b < 2 ^ 64 \<or> \<not> chk then Ok (a + b) else Panic)"

definition usize_add :: "bool \<Rightarrow> nat \<Rightarrow> nat \<Rightarrow> ('e, nat) outcome" where
  "usize_add chk a b =
     (if a + b < 2 ^ 64 then Ok (a + b)
      else if chk then Panic else Ok ((a + b) mod 2 ^ 64))"

definition usize_sub :: "bool \<Rightarrow> nat \<Rightarrow> nat \<Rightarrow> ('e, nat) outcome" where
  "usize_sub chk a b =
     (if b \<le> a then Ok (a - b) else if chk then Panic else Ok (2 ^ 64 + a - b))"

lemma usize_add_small [simp]: "a + b < 2 ^ 64 \<Longrightarrow> usize_add chk a b = Ok (a + b)"
  by (simp add: usize_add_def)

lemma usize_add_not_Err [simp]: "usize_add chk a b \<noteq> Err e"
  by (simp add: usize_add_def)

lemma u64_add_not_Err [simp]: "u64_add chk a b \<noteq> Err e"
  by (simp add: u64_add_def)

section \<open>State transformers with outcomes\<close>

type_synonym ('s, 'e, 'a) rm = "'s \<Rightarrow> ('e, 'a) outcome \<times> 's"

definition retM :: "'a \<Rightarrow> ('s, 'e, 'a) rm" where
  "retM a s = (Ok a, s)"

definition errM :: "'e \<Rightarrow> ('s, 'e, 'a) rm" where
  "errM e s = (Err e, s)"

definition panicM :: "('s, 'e, 'a) rm" where
  "panicM s = (Panic, s)"

definition liftO :: "('e, 'a) outcome \<Rightarrow> ('s, 'e, 'a) rm" where
  "liftO r s = (r, s)"

definition getsM :: "('s \<Rightarrow> 'a) \<Rightarrow> ('s, 'e, 'a) rm" where
  "getsM f s = (Ok (f s), s)"

definition modifyM :: "('s \<Rightarrow> 's) \<Rightarrow> ('s, 'e, unit) rm" where
  "modifyM f s = (Ok (), f s)"

definition bindM :: "('s, 'e, 'a) rm \<Rightarrow> ('a \<Rightarrow> ('s, 'e, 'b) rm) \<Rightarrow> ('s, 'e, 'b) rm" where
  "bindM m f s =
     (case m s of
        (Ok a, s') \<Rightarrow> f a s'
      | (Err e, s') \<Rightarrow> (Err e, s')
      | (Panic, s') \<Rightarrow> (Panic, s'))"

abbreviation thenM :: "('s, 'e, 'a) rm \<Rightarrow> ('s, 'e, 'b) rm \<Rightarrow> ('s, 'e, 'b) rm" where
  "thenM m n \<equiv> bindM m (\<lambda>_. n)"

abbreviation whenM :: "bool \<Rightarrow> ('s, 'e, unit) rm \<Rightarrow> ('s, 'e, unit) rm" where
  "whenM b m \<equiv> (if b then m else retM ())"

named_theorems rm_eval \<open>evaluation of state transformers at a state\<close>

lemma rm_base_eval [rm_eval]:
  "retM a s = (Ok a, s)"
  "errM e s = (Err e, s)"
  "panicM s = (Panic, s)"
  "liftO r s = (r, s)"
  "getsM f s = (Ok (f s), s)"
  "modifyM g s = (Ok (), g s)"
  by (simp_all add: retM_def errM_def panicM_def liftO_def getsM_def modifyM_def)

lemma bindM_eval [rm_eval]:
  "bindM m f s =
     (case m s of
        (Ok a, s') \<Rightarrow> f a s'
      | (Err e, s') \<Rightarrow> (Err e, s')
      | (Panic, s') \<Rightarrow> (Panic, s'))"
  by (rule bindM_def)

lemma bindM_ret [simp]: "bindM (retM a) f = f a"
  by (rule ext) (simp add: rm_eval)

lemma bindM_err [simp]: "bindM (errM e) f = errM e"
  by (rule ext) (simp add: rm_eval)

lemma bindM_panic [simp]: "bindM panicM f = panicM"
  by (rule ext) (simp add: rm_eval)

lemma bindM_assoc: "bindM (bindM m f) g = bindM m (\<lambda>a. bindM (f a) g)"
  by (rule ext) (simp add: rm_eval split: prod.split outcome.split)

section \<open>Weakest preconditions\<close>

text \<open>
  \<open>wp m Q s\<close>: running \<open>m\<close> from \<open>s\<close> ends with an outcome and a state that satisfy \<open>Q\<close>.
  A transformer is a total function, so this is total correctness. The equations of
  \<open>wp_simps\<close> compute the precondition of a composed handler from those of its parts.
\<close>

definition wp :: "('s, 'e, 'a) rm \<Rightarrow> (('e, 'a) outcome \<Rightarrow> 's \<Rightarrow> bool) \<Rightarrow> 's \<Rightarrow> bool" where
  "wp m Q s = (case m s of (r, s') \<Rightarrow> Q r s')"

definition bindQ ::
    "('a \<Rightarrow> ('s, 'e, 'b) rm) \<Rightarrow> (('e, 'b) outcome \<Rightarrow> 's \<Rightarrow> bool) \<Rightarrow> ('e, 'a) outcome \<Rightarrow> 's \<Rightarrow> bool"
  where
  "bindQ f Q r s =
     (case r of Ok a \<Rightarrow> wp (f a) Q s | Err e \<Rightarrow> Q (Err e) s | Panic \<Rightarrow> Q Panic s)"

named_theorems wp_simps \<open>weakest preconditions of the primitives and of the components\<close>

lemma wp_base [wp_simps]:
  "wp (retM a) Q1 s = Q1 (Ok a) s"
  "wp (errM e) Q2 s = Q2 (Err e) s"
  "wp panicM Q3 s = Q3 Panic s"
  "wp (liftO r) Q4 s = Q4 r s"
  "wp (getsM f) Q5 s = Q5 (Ok (f s)) s"
  "wp (modifyM g) Q6 s = Q6 (Ok ()) (g s)"
  by (simp_all add: wp_def rm_eval)

lemma wp_bind [wp_simps]: "wp (bindM m f) Q s = wp m (bindQ f Q) s"
  by (simp add: wp_def bindQ_def rm_eval split: prod.split outcome.split)

lemma bindQ_simps [wp_simps]:
  "bindQ f Q (Ok a) s = wp (f a) Q s"
  "bindQ f Q (Err e) s = Q (Err e) s"
  "bindQ f Q Panic s = Q Panic s"
  by (simp_all add: bindQ_def)

lemma wp_if [wp_simps]: "wp (if b then m else n) Q s = (if b then wp m Q s else wp n Q s)"
  by simp

lemma wp_mono: "wp m Q s \<Longrightarrow> (\<And>r s'. Q r s' \<Longrightarrow> R r s') \<Longrightarrow> wp m R s"
  by (auto simp: wp_def split: prod.splits)

lemma wp_conj: "wp m (\<lambda>r s'. Q r s' \<and> R r s') s \<longleftrightarrow> wp m Q s \<and> wp m R s"
  by (auto simp: wp_def split: prod.splits)

lemma wpI: "(\<And>r s'. m s = (r, s') \<Longrightarrow> Q r s') \<Longrightarrow> wp m Q s"
  by (auto simp: wp_def split: prod.splits)

lemma wpD: "wp m Q s \<Longrightarrow> m s = (r, s') \<Longrightarrow> Q r s'"
  by (simp add: wp_def)

section \<open>Invariants of state transformers\<close>

text \<open>
  \<open>preserves I m\<close>: whatever the outcome of \<open>m\<close>, it keeps \<open>I\<close>. The rules of
  \<open>preserves_intros\<close> follow the structure of a handler.
\<close>

definition preserves :: "('s \<Rightarrow> bool) \<Rightarrow> ('s, 'e, 'a) rm \<Rightarrow> bool" where
  "preserves I m \<longleftrightarrow> (\<forall>s. I s \<longrightarrow> I (snd (m s)))"

named_theorems preserves_intros \<open>rules for invariants of state transformers\<close>

lemma preservesI: "(\<And>s r s'. I s \<Longrightarrow> m s = (r, s') \<Longrightarrow> I s') \<Longrightarrow> preserves I m"
  unfolding preserves_def by (metis prod.collapse)

lemma preservesD: "preserves I m \<Longrightarrow> I s \<Longrightarrow> m s = (r, s') \<Longrightarrow> I s'"
  unfolding preserves_def by (metis snd_conv)

lemma preserves_base [preserves_intros]:
  "preserves I (retM a)"
  "preserves I (errM e)"
  "preserves I panicM"
  "preserves I (liftO r)"
  "preserves I (getsM f)"
  by (simp_all add: preserves_def rm_eval)

lemma preserves_modify [preserves_intros]: "(\<And>s. I s \<Longrightarrow> I (g s)) \<Longrightarrow> preserves I (modifyM g)"
  by (simp add: preserves_def rm_eval)

lemma preserves_bind [preserves_intros]:
  "preserves I m \<Longrightarrow> (\<And>a. preserves I (f a)) \<Longrightarrow> preserves I (bindM m f)"
  by (rule preservesI) (auto simp: rm_eval dest: preservesD split: prod.splits outcome.splits)

lemma preserves_if [preserves_intros]:
  "(b \<Longrightarrow> preserves I m) \<Longrightarrow> (\<not> b \<Longrightarrow> preserves I n) \<Longrightarrow> preserves I (if b then m else n)"
  by simp

lemma preserves_option [preserves_intros]:
  "(x = None \<Longrightarrow> preserves I m) \<Longrightarrow> (\<And>a. x = Some a \<Longrightarrow> preserves I (f a)) \<Longrightarrow>
   preserves I (case x of None \<Rightarrow> m | Some a \<Rightarrow> f a)"
  by (cases x) auto

lemma preserves_wp: "preserves I m \<longleftrightarrow> (\<forall>s. I s \<longrightarrow> wp m (\<lambda>_ s'. I s') s)"
  by (simp add: preserves_def wp_def case_prod_beta)

end
