(* ===== verification/Std_Io.thy ===== *)
theory Std_Io
  imports Ws_Prelude
begin

text \<open>
  What the source uses of \<open>std::io\<close> and \<open>std::net\<close>: the kind of an I/O error, \<open>Read::read\<close>
  and \<open>Write::write_all\<close> on a non-blocking socket. What the kernel answers is a finite
  script, one entry per call; a call past the end of the script finds nothing to do
  (\<open>WouldBlock\<close>). Every finite run of a program against a socket is a run against some script.
\<close>

datatype ErrorKind = WouldBlock | Interrupted | WriteZero | OtherKind

section \<open>Reading\<close>

text \<open>
  \<open>ReadBytes bs\<close>: the bytes the kernel holds, of which a call takes as many as its buffer
  has room for; \<open>ReadBytes []\<close> is the end of the stream.
\<close>

datatype read_answer = ReadBytes "u8 list" | ReadError ErrorKind

fun sock_read :: "nat \<Rightarrow> read_answer list \<Rightarrow> (ErrorKind, u8 list) outcome \<times> read_answer list" where
  "sock_read n [] = (Err WouldBlock, [])"
| "sock_read n (ReadError k # rs) = (Err k, rs)"
| "sock_read n (ReadBytes bs # rs) =
     (if length bs \<le> n then (Ok bs, rs) else (Ok (take n bs), ReadBytes (drop n bs) # rs))"

section \<open>Writing\<close>

text \<open>
  \<open>Wrote n\<close>: one \<open>write\<close> call takes up to \<open>n\<close> bytes of what it is given. \<open>write_all\<close> repeats
  \<open>write\<close> until the buffer is empty, retries on \<open>Interrupted\<close>, and gives up with the first
  other error; the bytes written before the error stay written. The result is the outcome,
  the bytes that reached the socket and the rest of the script.
\<close>

datatype write_answer = Wrote nat | WriteError ErrorKind

fun write_all ::
    "u8 list \<Rightarrow> write_answer list \<Rightarrow> (ErrorKind, unit) outcome \<times> u8 list \<times> write_answer list"
  where
  "write_all [] ws = (Ok (), [], ws)"
| "write_all (b # bs) [] = (Err WouldBlock, [], [])"
| "write_all (b # bs) (WriteError k # ws) =
     (if k = Interrupted then write_all (b # bs) ws else (Err k, [], ws))"
| "write_all (b # bs) (Wrote n # ws) =
     (let m = min n (length (b # bs)) in
      if m = 0 then (Err WriteZero, [], ws)
      else
        (case write_all (drop m (b # bs)) ws of
           (r, sent, ws') \<Rightarrow> (r, take m (b # bs) @ sent, ws')))"

text \<open>Answers of calls without data (\<open>connect\<close>, \<open>set_nonblocking\<close>, \<open>shutdown\<close>).\<close>

fun next_answer :: "'a \<Rightarrow> 'a list \<Rightarrow> 'a \<times> 'a list" where
  "next_answer d [] = (d, [])"
| "next_answer d (x # xs) = (x, xs)"

lemma write_all_not_Panic: "write_all buf ws = (r, sent, ws') \<Longrightarrow> r \<noteq> Panic"
  by (induction buf ws arbitrary: r sent ws' rule: write_all.induct)
     (auto simp: Let_def split: if_splits prod.splits)

text \<open>Success sends the whole buffer; an error sends a prefix, which may be partial.\<close>

lemma write_all_Ok: "write_all buf ws = (Ok u, sent, ws') \<Longrightarrow> sent = buf"
proof (induction buf ws arbitrary: sent ws' rule: write_all.induct)
  case (4 b bs n ws)
  then show ?case
    by (auto simp: Let_def split: if_splits prod.splits)
qed (auto split: if_splits)

lemma write_all_prefix: "write_all buf ws = (r, sent, ws') \<Longrightarrow> \<exists>rest. buf = sent @ rest"
proof (induction buf ws arbitrary: r sent ws' rule: write_all.induct)
  case (4 b bs n ws)
  let ?m = "min n (length (b # bs))"
  show ?case
  proof (cases "?m = 0")
    case True
    with "4.prems" show ?thesis by (simp add: Let_def)
  next
    case False
    obtain r1 s1 w1 where w: "write_all (drop ?m (b # bs)) ws = (r1, s1, w1)"
      by (metis prod_cases3)
    with "4.IH" [OF refl False] obtain rest where "drop ?m (b # bs) = s1 @ rest" by blast
    then have "b # bs = (take ?m (b # bs) @ s1) @ rest"
      by (metis append.assoc append_take_drop_id)
    moreover have "sent = take ?m (b # bs) @ s1"
      using "4.prems" w False by (auto simp: Let_def split: if_splits prod.splits)
    ultimately show ?thesis by blast
  qed
qed (auto split: if_splits)

end
