(* ===== verification/Ws_Result.thy ===== *)
theory Ws_Result
  imports Ws_Prelude
begin

text \<open>
  \<^verbatim>\<open>websocket/src/result.rs\<close>: the library's error type, its \<open>Display\<close> text and the
  conversion from an I/O error, which the \<open>?\<close> operator applies in the client.
\<close>

datatype WebSocketError =
    UnreachableHost
  | HandShake
  | InvalidFrame
  | ConnectionClose
  | DecodingFromUTF8
  | IOError

text \<open>What \<open>fmt\<close> writes.\<close>

definition WebSocketError_fmt :: "WebSocketError \<Rightarrow> str" where
  "WebSocketError_fmt e =
     ascii ''WebSocketError: '' @
     (case e of
        UnreachableHost \<Rightarrow> ascii ''Unreachable host''
      | HandShake \<Rightarrow> ascii ''Error performing initial handshake''
      | InvalidFrame \<Rightarrow> ascii ''Invalid frame received''
      | ConnectionClose \<Rightarrow> ascii ''The connection was closed''
      | DecodingFromUTF8 \<Rightarrow> ascii ''Error decoding from utf8''
      | IOError \<Rightarrow> ascii ''IOError'')"

text \<open>\<open>impl From<std::io::Error> for WebSocketError\<close>, applied to an outcome.\<close>

definition WebSocketError_from :: "'io \<Rightarrow> WebSocketError" where
  "WebSocketError_from _ = IOError"

fun from_io :: "('io, 'a) outcome \<Rightarrow> (WebSocketError, 'a) outcome" where
  "from_io (Ok a) = Ok a"
| "from_io (Err e) = Err (WebSocketError_from e)"
| "from_io Panic = Panic"

lemma WebSocketError_fmt_inject: "WebSocketError_fmt d = WebSocketError_fmt e \<longleftrightarrow> d = e"
  by (cases d; cases e) (simp_all add: WebSocketError_fmt_def)

end
