(* ===== verification/Core_Net.thy ===== *)
theory Core_Net
  imports Std_Io Ws_Result
begin

text \<open>
  \<^verbatim>\<open>websocket/src/core/net.rs\<close>: one read from a \<open>&mut dyn Read\<close> into a caller's buffer. The
  reader is a parameter of the function, as in the code; the contract of the \<open>Read\<close> trait
  is the locale \<open>reader\<close>, interpreted on the socket of \<open>Std_Io\<close>.
\<close>

section \<open>The operation\<close>

definition read_into_buffer ::
    "('r \<Rightarrow> nat \<Rightarrow> (ErrorKind, u8 list) outcome \<times> 'r) \<Rightarrow> 'r \<Rightarrow> u8 list \<Rightarrow>
     (WebSocketError, nat) outcome \<times> 'r \<times> u8 list"
  where
  "read_into_buffer read r buf =
     (case read r (length buf) of
        (Ok bs, r') \<Rightarrow>
          (let amount = length bs; buf' = bs @ drop amount buf in
           if amount \<le> 0 then (Err ConnectionClose, r', buf') else (Ok amount, r', buf'))
      | (Err k, r') \<Rightarrow> if k = WouldBlock then (Ok 0, r', buf) else (Err IOError, r', buf)
      | (Panic, r') \<Rightarrow> (Panic, r', buf))"

section \<open>The contract of a reader\<close>

locale reader =
  fixes read :: "'r \<Rightarrow> nat \<Rightarrow> (ErrorKind, u8 list) outcome \<times> 'r"
  assumes read_fits: "read r n = (Ok bs, r') \<Longrightarrow> length bs \<le> n"
    and read_returns: "fst (read r n) \<noteq> Panic"
begin

lemma buffer_length:
  "read_into_buffer read r buf = (res, r', buf') \<Longrightarrow> length buf' = length buf"
  by (auto simp: read_into_buffer_def Let_def dest: read_fits split: prod.splits outcome.splits if_splits)

lemma no_panic: "fst (read_into_buffer read r buf) \<noteq> Panic"
  using read_returns [of r "length buf"]
  by (auto simp: read_into_buffer_def Let_def split: prod.splits outcome.splits)

lemma amount_bound:
  "read_into_buffer read r buf = (Ok n, r', buf') \<Longrightarrow> n \<le> length buf"
  by (auto simp: read_into_buffer_def Let_def dest: read_fits split: prod.splits outcome.splits if_splits)

text \<open>The documented cases: nothing ready leaves the buffer alone, a positive amount is what was read.\<close>

lemma zero_means_would_block:
  "read_into_buffer read r buf = (Ok 0, r', buf') \<longleftrightarrow>
     read r (length buf) = (Err WouldBlock, r') \<and> buf' = buf"
  by (auto simp: read_into_buffer_def Let_def split: prod.splits outcome.splits if_splits)

lemma positive_means_data:
  "read_into_buffer read r buf = (Ok (Suc n), r', buf') \<longleftrightarrow>
     (\<exists>bs. read r (length buf) = (Ok bs, r') \<and> length bs = Suc n \<and> buf' = bs @ drop (Suc n) buf)"
  by (auto simp: read_into_buffer_def Let_def split: prod.splits outcome.splits if_splits)

lemma errors:
  "read_into_buffer read r buf = (Err e, r', buf') \<Longrightarrow> e = ConnectionClose \<or> e = IOError"
  by (auto simp: read_into_buffer_def Let_def split: prod.splits outcome.splits if_splits)

lemma close_means_eof:
  "read_into_buffer read r buf = (Err ConnectionClose, r', buf') \<longleftrightarrow>
     read r (length buf) = (Ok [], r') \<and> buf' = buf"
  by (auto simp: read_into_buffer_def Let_def split: prod.splits outcome.splits if_splits)

end

section \<open>The socket is a reader\<close>

text \<open>\<open>read_into_buffer\<close> passes the reader first; the socket's script is its state.\<close>

definition socket_read ::
    "read_answer list \<Rightarrow> nat \<Rightarrow> (ErrorKind, u8 list) outcome \<times> read_answer list" where
  "socket_read rs n = sock_read n rs"

interpretation socket: reader socket_read
proof unfold_locales
  fix r r' :: "read_answer list" and n :: nat and bs :: "u8 list"
  show "length bs \<le> n" if "socket_read r n = (Ok bs, r')"
    using that by (cases "(n, r)" rule: sock_read.cases) (auto simp: socket_read_def split: if_splits)
  show "fst (socket_read r n) \<noteq> Panic"
    by (cases "(n, r)" rule: sock_read.cases) (auto simp: socket_read_def)
qed



end
