(* ===== verification/Core_Binary.thy ===== *)
theory Core_Binary
  imports Ws_Prelude
begin

unbundle bit_operations_syntax

text \<open>
  \<^verbatim>\<open>websocket/src/core/binary.rs\<close>: big-endian byte strings to integers, with the failure of
  the conversion from a slice to a fixed-size array, and the standard library's
  \<open>to_be_bytes\<close> and \<open>from_be_bytes\<close> it and the frame code rely on. The interface between
  the two directions is the locale \<open>be_codec\<close>, interpreted at both widths the code uses.
\<close>

section \<open>Big-endian values\<close>

definition be_nat :: "u8 list \<Rightarrow> nat" where
  "be_nat bs = foldl (\<lambda>acc b. acc * 256 + unat b) 0 bs"

definition be_bytes :: "nat \<Rightarrow> 'w::len word \<Rightarrow> u8 list" where
  "be_bytes n w = map (\<lambda>k. ucast (drop_bit (8 * k) w)) (rev [0..<n])"

text \<open>\<open>u16::to_be_bytes\<close>, \<open>u64::to_be_bytes\<close>, \<open>u16::from_be_bytes\<close>, \<open>u64::from_be_bytes\<close>.\<close>

definition u16_to_be_bytes :: "u16 \<Rightarrow> u8 list" where
  "u16_to_be_bytes w = be_bytes 2 w"

definition u64_to_be_bytes :: "u64 \<Rightarrow> u8 list" where
  "u64_to_be_bytes w = be_bytes 8 w"

definition u16_from_be_bytes :: "u8 list \<Rightarrow> u16" where
  "u16_from_be_bytes bs = of_nat (be_nat bs)"

definition u64_from_be_bytes :: "u8 list \<Rightarrow> u64" where
  "u64_from_be_bytes bs = of_nat (be_nat bs)"

section \<open>The conversions of the source\<close>

datatype TryFromSliceError = TryFromSliceError

definition bytes_to_u64 :: "u8 list \<Rightarrow> (TryFromSliceError, u64) outcome" where
  "bytes_to_u64 bytes =
     (if length bytes = 8 then Ok (u64_from_be_bytes bytes) else Err TryFromSliceError)"

definition bytes_to_u16 :: "u8 list \<Rightarrow> (TryFromSliceError, u16) outcome" where
  "bytes_to_u16 bytes =
     (if length bytes = 2 then Ok (u16_from_be_bytes bytes) else Err TryFromSliceError)"

section \<open>Values and bytes\<close>

lemma be_nat_simps [simp]:
  "be_nat [] = 0"
  "be_nat (bs @ [b]) = be_nat bs * 256 + unat b"
  by (simp_all add: be_nat_def)

lemma be_nat_bound: "be_nat bs < 256 ^ length bs"
proof (induction bs rule: rev_induct)
  case Nil
  then show ?case by simp
next
  case (snoc b bs)
  have "unat b < 256" using unsigned_less [of b] by simp
  with snoc show ?case by simp
qed

lemma length_be_bytes [simp]: "length (be_bytes n w) = n"
  by (simp add: be_bytes_def)

lemma be_bytes_Suc:
  "be_bytes (Suc n) w = be_bytes n (drop_bit 8 w) @ [ucast w]"
proof -
  have "rev [0..<Suc n] = map Suc (rev [0..<n]) @ [0]"
    by (simp add: map_Suc_upt rev_map upt_conv_Cons flip: map_Suc_upt del: upt_Suc)
  then show ?thesis
    by (simp add: be_bytes_def add.commute)
qed

lemma unat_ucast_byte: "unat (ucast (w :: 'w::len word) :: u8) = unat w mod 256"
  by (simp add: unsigned_ucast_eq take_bit_eq_mod)

lemma be_nat_be_bytes: "be_nat (be_bytes n w) = unat w mod 256 ^ n"
proof (induction n arbitrary: w)
  case 0
  then show ?case by (simp add: be_bytes_def)
next
  case (Suc n)
  have "be_nat (be_bytes (Suc n) w) = (unat w div 256 mod 256 ^ n) * 256 + unat w mod 256"
    by (simp add: be_bytes_Suc Suc.IH unat_ucast_byte unat_drop_bit_eq drop_bit_eq_div [of _ "unat w"])
  also have "\<dots> = unat w mod (256 * 256 ^ n)"
    by (simp add: mod_mult2_eq)
  finally show ?case by simp
qed

lemma pow_256: "(256::nat) ^ n = 2 ^ (8 * n)"
  by (simp add: power_mult)

lemma be_bytes_be_nat:
  "length bs * 8 \<le> LENGTH('w::len) \<Longrightarrow> be_bytes (length bs) (of_nat (be_nat bs) :: 'w word) = bs"
proof (induction bs rule: rev_induct)
  case Nil
  then show ?case by (simp add: be_bytes_def)
next
  case (snoc b bs)
  have "be_nat (bs @ [b]) < 256 ^ length (bs @ [b])" by (rule be_nat_bound)
  also have "\<dots> = 2 ^ (8 * length (bs @ [b]))" by (rule pow_256)
  also have "\<dots> \<le> 2 ^ LENGTH('w)" using snoc.prems by (intro power_increasing) auto
  finally have fits: "be_nat (bs @ [b]) < 2 ^ LENGTH('w)" .
  let ?w = "of_nat (be_nat (bs @ [b])) :: 'w word"
  have w: "unat ?w = be_nat bs * 256 + unat b"
    unfolding unat_of_nat using fits by simp
  have b: "unat b < 256" using unsigned_less [of b] by simp
  have "unat (drop_bit 8 ?w) = be_nat bs"
    unfolding unat_drop_bit_eq w using b by (simp add: drop_bit_eq_div)
  then have high: "drop_bit 8 ?w = of_nat (be_nat bs)"
    by (metis word_unat_eq_iff unat_of_nat mod_less unsigned_less)
  have "unat (ucast ?w :: u8) = unat b"
    unfolding unat_ucast_byte w using b by simp
  then have low: "(ucast ?w :: u8) = b"
    by (simp only: word_unat_eq_iff)
  from snoc.prems have "be_bytes (length bs) (of_nat (be_nat bs) :: 'w word) = bs"
    by (intro snoc.IH) simp
  then show ?case
    by (simp only: length_append list.size add_0_right add_Suc_right be_bytes_Suc high low)
qed

lemma be_word_be_bytes: "n * 8 = LENGTH('w::len) \<Longrightarrow> of_nat (be_nat (be_bytes n w)) = (w :: 'w word)"
proof -
  assume "n * 8 = LENGTH('w)"
  then have "256 ^ n = (2::nat) ^ LENGTH('w)" by (simp add: pow_256 mult.commute)
  then show ?thesis by (simp add: be_nat_be_bytes)
qed

section \<open>The interface: an encoder and its partial decoder\<close>

text \<open>
  What the header and frame code rely on: an encoding of fixed width, a decoder that accepts
  exactly the byte strings of that width, and that the two are inverse to each other.
\<close>

locale be_codec =
  fixes enc :: "'w \<Rightarrow> u8 list"
    and dec :: "u8 list \<Rightarrow> (TryFromSliceError, 'w) outcome"
    and width :: nat
  assumes length_enc: "length (enc w) = width"
    and dec_enc: "dec (enc w) = Ok w"
    and enc_dec: "dec bs = Ok w \<Longrightarrow> enc w = bs"
    and dec_total: "length bs = width \<Longrightarrow> \<exists>w. dec bs = Ok w"
    and dec_error: "length bs \<noteq> width \<Longrightarrow> dec bs = Err TryFromSliceError"
begin

lemma dec_ok_iff: "dec bs = Ok w \<longleftrightarrow> bs = enc w"
  using dec_enc enc_dec by blast

lemma dec_is_ok_iff: "is_ok (dec bs) \<longleftrightarrow> length bs = width"
  using dec_total [of bs] dec_error [of bs] by (cases "length bs = width") force+

lemma enc_inject: "enc v = enc w \<longleftrightarrow> v = w"
  by (metis dec_enc outcome.inject(1))

text \<open>Reading the encoding off the front of a longer buffer, as the frame parser does.\<close>

lemma dec_prefix: "dec (take width (enc w @ rest)) = Ok w"
  by (simp add: length_enc dec_enc)

lemma dec_take_total: "width \<le> length bs \<Longrightarrow> \<exists>w. dec (take width bs) = Ok w \<and> bs = enc w @ drop width bs"
proof -
  assume "width \<le> length bs"
  then obtain w where w: "dec (take width bs) = Ok w"
    using dec_total [of "take width bs"] by (auto simp: min_absorb2)
  then have "enc w = take width bs" by (rule enc_dec)
  with w have "dec (take width bs) = Ok w \<and> bs = enc w @ drop width bs" by simp
  then show ?thesis ..
qed

end

interpretation u16: be_codec u16_to_be_bytes bytes_to_u16 2
proof unfold_locales
  fix w :: u16 and bs :: "u8 list"
  show "length (u16_to_be_bytes w) = 2" by (simp add: u16_to_be_bytes_def)
  show "bytes_to_u16 (u16_to_be_bytes w) = Ok w"
    by (simp add: bytes_to_u16_def u16_to_be_bytes_def u16_from_be_bytes_def be_word_be_bytes)
  show "u16_to_be_bytes w = bs" if "bytes_to_u16 bs = Ok w"
    using that be_bytes_be_nat [where ?'w = 16, of bs]
    by (auto simp: bytes_to_u16_def u16_to_be_bytes_def u16_from_be_bytes_def split: if_splits)
qed (auto simp: bytes_to_u16_def)

interpretation u64: be_codec u64_to_be_bytes bytes_to_u64 8
proof unfold_locales
  fix w :: u64 and bs :: "u8 list"
  show "length (u64_to_be_bytes w) = 8" by (simp add: u64_to_be_bytes_def)
  show "bytes_to_u64 (u64_to_be_bytes w) = Ok w"
    by (simp add: bytes_to_u64_def u64_to_be_bytes_def u64_from_be_bytes_def be_word_be_bytes)
  show "u64_to_be_bytes w = bs" if "bytes_to_u64 bs = Ok w"
    using that be_bytes_be_nat [where ?'w = 64, of bs]
    by (auto simp: bytes_to_u64_def u64_to_be_bytes_def u64_from_be_bytes_def split: if_splits)
qed (auto simp: bytes_to_u64_def)

text \<open>
  C38: The conversions of the code read back what \<open>to_be_bytes\<close> writes, at both widths, and they
  accept exactly the byte strings of their width, of which each is the encoding of its value.
\<close>

theorem be_bytes_roundtrip:
  "bytes_to_u16 (u16_to_be_bytes w16) = Ok w16 \<and> bytes_to_u64 (u64_to_be_bytes w64) = Ok w64 \<and>
   (bytes_to_u16 bs = Ok w16 \<longleftrightarrow> bs = u16_to_be_bytes w16) \<and>
   (bytes_to_u64 bs = Ok w64 \<longleftrightarrow> bs = u64_to_be_bytes w64) \<and>
   (is_ok (bytes_to_u16 bs) \<longleftrightarrow> length bs = 2) \<and> (is_ok (bytes_to_u64 bs) \<longleftrightarrow> length bs = 8)"
  by (simp add: u16.dec_enc u64.dec_enc u16.dec_ok_iff u64.dec_ok_iff u16.dec_is_ok_iff u64.dec_is_ok_iff)

end
