(* ===== verification/Ws_Env.thy ===== *)
theory Ws_Env
  imports Ws_Prelude "HOL-Library.Multiset"
begin

unbundle bit_operations_syntax

text \<open>
  What the program is run with and is not under \<^verbatim>\<open>src/\<close>: the build profile, the third-party
  crates it calls, and the parts of the standard library whose result the language leaves
  open. The record \<open>env\<close> is an argument of every definition that uses one of them.

  \<^item> \<open>overflow_checks\<close>: whether arithmetic overflow panics (\<open>dev\<close>) or wraps (\<open>release\<close>).
  \<^item> \<open>getrandom\<close>: the byte that the \<open>k\<close>-th call of the crate \<open>getrandom\<close> leaves at index \<open>i\<close>
    of its buffer (a failing call leaves the buffer as it was; the code ignores the failure).
  \<^item> \<open>base64_encode\<close>, \<open>sha1_digest\<close>: the crates \<open>base64\<close> and \<open>sha1_smol\<close>.
  \<^item> \<open>from_bits8\<close>, \<open>from_bits16\<close>: the \<open>from_bits\<close> that the macro \<open>bitflags!\<close> generates, given
    the union of the declared flags and the bits.
  \<^item> \<open>hashmap_iter\<close>: the order in which a \<open>HashMap\<close>, given by its entries, is iterated.
  \<^item> \<open>unicode_lower\<close>: \<open>str::to_lowercase\<close> on strings that are not ASCII (the Unicode tables).
\<close>

record env =
  overflow_checks :: bool
  getrandom :: "nat \<Rightarrow> nat \<Rightarrow> u8"
  base64_encode :: "u8 list \<Rightarrow> str"
  sha1_digest :: "u8 list \<Rightarrow> u8 list"
  from_bits8 :: "u8 \<Rightarrow> u8 \<Rightarrow> u8 option"
  from_bits16 :: "u16 \<Rightarrow> u16 \<Rightarrow> u16 option"
  hashmap_iter :: "(str \<times> str) list \<Rightarrow> (str \<times> str) list"
  unicode_lower :: "str \<Rightarrow> str"

text \<open>The documented behaviour of \<open>bitflags\<close>: \<open>None\<close> exactly when an undeclared bit is set.\<close>

definition bitflags_ok :: "env \<Rightarrow> bool" where
  "bitflags_ok E \<longleftrightarrow>
     (\<forall>all b. from_bits8 E all b = (if b AND NOT all = 0 then Some b else None)) \<and>
     (\<forall>all b. from_bits16 E all b = (if b AND NOT all = 0 then Some b else None))"

text \<open>Iterating a \<open>HashMap\<close> visits every entry once, in some order.\<close>

definition hashmap_ok :: "env \<Rightarrow> bool" where
  "hashmap_ok E \<longleftrightarrow> (\<forall>m. mset (hashmap_iter E m) = mset m)"

lemma bitflags8: "bitflags_ok E \<Longrightarrow> from_bits8 E all b = (if b AND NOT all = 0 then Some b else None)"
  by (simp add: bitflags_ok_def)

lemma bitflags16: "bitflags_ok E \<Longrightarrow> from_bits16 E all b = (if b AND NOT all = 0 then Some b else None)"
  by (simp add: bitflags_ok_def)

text \<open>A concrete environment, at which the witnesses evaluate the model.\<close>

definition sample_env :: env where
  "sample_env = \<lparr>
     overflow_checks = True,
     getrandom = (\<lambda>k i. of_nat (17 * k + i + 1)),
     base64_encode = (\<lambda>bs. map (\<lambda>b. (b AND 0x3F) + 0x30) bs),
     sha1_digest = (\<lambda>bs. take 20 (rev bs)),
     from_bits8 = (\<lambda>all b. if b AND NOT all = 0 then Some b else None),
     from_bits16 = (\<lambda>all b. if b AND NOT all = 0 then Some b else None),
     hashmap_iter = rev,
     unicode_lower = (\<lambda>s. s)\<rparr>"

lemma sample_env_bitflags: "bitflags_ok sample_env"
  by (simp add: bitflags_ok_def sample_env_def)

lemma sample_env_hashmap: "hashmap_ok sample_env"
  by (simp add: hashmap_ok_def sample_env_def)

end
