(* ===== verification/Ws_Header.thy ===== *)
theory Ws_Header
  imports Core_Binary Ws_Env
begin

unbundle bit_operations_syntax

text \<open>
  \<^verbatim>\<open>websocket/src/ws_basic/mask.rs\<close> and \<^verbatim>\<open>websocket/src/ws_basic/header.rs\<close>: the masking key,
  the opcode and flag bit sets, the frame header and its serialisation.
\<close>

section \<open>The masking key\<close>

text \<open>\<open>[u8; 4]\<close>. The key of the \<open>k\<close>-th call of the random source.\<close>

type_synonym Mask = "u8 \<times> u8 \<times> u8 \<times> u8"

definition gen_mask :: "env \<Rightarrow> nat \<Rightarrow> Mask" where
  "gen_mask E k = (getrandom E k 0, getrandom E k 1, getrandom E k 2, getrandom E k 3)"

fun mask_bytes :: "Mask \<Rightarrow> u8 list" where
  "mask_bytes (a, b, c, d) = [a, b, c, d]"

lemma length_mask_bytes [simp]: "length (mask_bytes m) = 4"
  by (cases m) simp

section \<open>Bit sets\<close>

text \<open>The structs that \<open>bitflags!\<close> declares over \<open>u8\<close>: a set is its bits, equality is theirs.\<close>

datatype OPCODE = OPCODE (opcode_bits: u8)

definition OPCODE_CONTINUATION :: OPCODE where "OPCODE_CONTINUATION = OPCODE 0x0"
definition OPCODE_TEXT :: OPCODE where "OPCODE_TEXT = OPCODE 0x1"
definition OPCODE_BINARY :: OPCODE where "OPCODE_BINARY = OPCODE 0x2"
definition OPCODE_CLOSE :: OPCODE where "OPCODE_CLOSE = OPCODE 0x8"
definition OPCODE_PING :: OPCODE where "OPCODE_PING = OPCODE 0x9"
definition OPCODE_PONG :: OPCODE where "OPCODE_PONG = OPCODE 0xA"

lemmas opcode_defs =
  OPCODE_CONTINUATION_def OPCODE_TEXT_def OPCODE_BINARY_def
  OPCODE_CLOSE_def OPCODE_PING_def OPCODE_PONG_def

definition OPCODE_all :: u8 where
  "OPCODE_all =
     opcode_bits OPCODE_CONTINUATION OR opcode_bits OPCODE_TEXT OR opcode_bits OPCODE_BINARY OR
     opcode_bits OPCODE_CLOSE OR opcode_bits OPCODE_PING OR opcode_bits OPCODE_PONG"

definition OPCODE_from_bits :: "env \<Rightarrow> u8 \<Rightarrow> OPCODE option" where
  "OPCODE_from_bits E b = map_option OPCODE (from_bits8 E OPCODE_all b)"

datatype FLAG = FLAG (flag_bits: u8)

definition FLAG_FIN :: FLAG where "FLAG_FIN = FLAG 0x80"
definition FLAG_NOFLAG :: FLAG where "FLAG_NOFLAG = FLAG 0x00"
definition FLAG_RSV1 :: FLAG where "FLAG_RSV1 = FLAG 0x40"
definition FLAG_RSV2 :: FLAG where "FLAG_RSV2 = FLAG 0x20"
definition FLAG_RSV3 :: FLAG where "FLAG_RSV3 = FLAG 0x10"

lemmas flag_defs = FLAG_FIN_def FLAG_NOFLAG_def FLAG_RSV1_def FLAG_RSV2_def FLAG_RSV3_def

definition FLAG_all :: u8 where
  "FLAG_all =
     flag_bits FLAG_FIN OR flag_bits FLAG_NOFLAG OR flag_bits FLAG_RSV1 OR
     flag_bits FLAG_RSV2 OR flag_bits FLAG_RSV3"

definition FLAG_from_bits :: "env \<Rightarrow> u8 \<Rightarrow> FLAG option" where
  "FLAG_from_bits E b = map_option FLAG (from_bits8 E FLAG_all b)"

lemma OPCODE_all_eq: "OPCODE_all = 0x0B"
  by (simp add: OPCODE_all_def opcode_defs)

lemma FLAG_all_eq: "FLAG_all = 0xF0"
  by (simp add: FLAG_all_def flag_defs)

section \<open>The header\<close>

record Header =
  flag :: FLAG
  code :: OPCODE
  mask_key :: "Mask option"
  payload_len :: u64

definition Header_new :: "FLAG \<Rightarrow> OPCODE \<Rightarrow> Mask option \<Rightarrow> u64 \<Rightarrow> Header" where
  "Header_new f c m n = \<lparr>flag = f, code = c, mask_key = m, payload_len = n\<rparr>"

definition Header_get_mask :: "Header \<Rightarrow> Mask option" where
  "Header_get_mask h = mask_key h"

definition get_opcode :: "Header \<Rightarrow> OPCODE" where
  "get_opcode h = code h"

definition get_flag :: "Header \<Rightarrow> FLAG" where
  "get_flag h = flag h"

lemma Header_new_simps [simp]:
  "flag (Header_new f c m n) = f"
  "code (Header_new f c m n) = c"
  "mask_key (Header_new f c m n) = m"
  "payload_len (Header_new f c m n) = n"
  "get_flag h = flag h"
  "get_opcode h = code h"
  "Header_get_mask h = mask_key h"
  by (simp_all add: Header_new_def get_flag_def get_opcode_def Header_get_mask_def)

definition Header_serialize :: "Header \<Rightarrow> u8 list" where
  "Header_serialize h =
     (let header1 = flag_bits (flag h) OR opcode_bits (code h);
          header2 = (if mask_key h \<noteq> None then 0x80 else 0x00) in
      [header1] @
      (if payload_len h < 125 then [header2 OR ucast (payload_len h)]
       else if payload_len h \<le> 65535
       then [header2 OR 126] @ u16_to_be_bytes (ucast (payload_len h))
       else [header2 OR 127] @ u64_to_be_bytes (payload_len h)) @
      (case mask_key h of Some m \<Rightarrow> mask_bytes m | None \<Rightarrow> []))"

text \<open>The bytes between the first one and the masking key: 1, 3 or 9 of them.\<close>

definition length_field :: "u8 \<Rightarrow> u64 \<Rightarrow> u8 list" where
  "length_field m n =
     (if n < 125 then [m OR ucast n]
      else if n \<le> 65535 then (m OR 126) # u16_to_be_bytes (ucast n)
      else (m OR 127) # u64_to_be_bytes n)"

lemma Header_serialize_eq:
  "Header_serialize h =
     (flag_bits (flag h) OR opcode_bits (code h)) #
     length_field (if mask_key h = None then 0 else 0x80) (payload_len h) @
     (case mask_key h of Some m \<Rightarrow> mask_bytes m | None \<Rightarrow> [])"
  by (auto simp: Header_serialize_def length_field_def Let_def)

lemma length_Header_serialize:
  "length (Header_serialize h) =
     (if payload_len h < 125 then 2 else if payload_len h \<le> 65535 then 4 else 10) +
     (if mask_key h = None then 0 else 4)"
  by (auto simp: Header_serialize_def Let_def u16.length_enc u64.length_enc split: option.split)

end
