(* ===== verification/Ws_Frame.thy ===== *)
theory Ws_Frame
  imports Ws_Header Ws_Result
begin

unbundle bit_operations_syntax

text \<open>
  \<^verbatim>\<open>websocket/src/ws_basic/frame.rs\<close>: the two kinds of frame behind the trait \<open>Frame\<close>, their
  constructors, their serialisation and the parser \<open>bytes_to_frame\<close>. A \<open>Box<dyn Frame>\<close> is
  a value of the datatype \<open>Frame\<close>, whose constructors are the two structs that implement the
  trait; \<open>as_control_frame\<close> is the downcast of \<open>as_any\<close>.
\<close>

section \<open>Frames\<close>

datatype FrameKind = Data | Control | NotDefine

datatype Frame =
    DataFrame (get_header: Header) (get_data: "u8 list")
  | ControlFrame (get_header: Header) (get_data: "u8 list") (get_status_code: "u16 option")

fun as_control_frame :: "Frame \<Rightarrow> Frame option" where
  "as_control_frame (ControlFrame h d s) = Some (ControlFrame h d s)"
| "as_control_frame (DataFrame h d) = None"

definition kind :: "Frame \<Rightarrow> FrameKind" where
  "kind f =
     (let opcode = get_opcode (get_header f) in
      if opcode = OPCODE_CLOSE \<or> opcode = OPCODE_PING \<or> opcode = OPCODE_PONG then Control
      else if opcode = OPCODE_BINARY \<or> opcode = OPCODE_TEXT \<or> opcode = OPCODE_CONTINUATION
      then Data
      else NotDefine)"

text \<open>The masking loop of \<open>serialize\<close>: \<open>i\<close> runs through the key's bytes and starts over.\<close>

fun mask_loop :: "u8 list \<Rightarrow> nat \<Rightarrow> u8 list \<Rightarrow> u8 list" where
  "mask_loop m i [] = []"
| "mask_loop m i (byte # bytes) =
     (byte XOR (m ! i)) # mask_loop m (if i + 1 \<ge> length m then 0 else i + 1) bytes"

definition serialize :: "Frame \<Rightarrow> u8 list" where
  "serialize f =
     Header_serialize (get_header f) @
     (case Header_get_mask (get_header f) of
        Some m \<Rightarrow> mask_loop (mask_bytes m) 0 (get_data f)
      | None \<Rightarrow> get_data f)"

text \<open>
  \<open>get_mask\<close> draws a key only when none is given and the frame is to be masked; the last
  component of its result is the number of draws made so far.
\<close>

definition get_mask :: "env \<Rightarrow> bool \<Rightarrow> Mask option \<Rightarrow> nat \<Rightarrow> Mask option \<times> nat" where
  "get_mask E mask_frame m k =
     (case m of
        Some m' \<Rightarrow> (Some m', k)
      | None \<Rightarrow> if mask_frame then (Some (gen_mask E k), k + 1) else (None, k))"

definition DataFrame_new ::
    "env \<Rightarrow> FLAG \<Rightarrow> OPCODE \<Rightarrow> u8 list \<Rightarrow> bool \<Rightarrow> Mask option \<Rightarrow> nat \<Rightarrow> Frame \<times> nat" where
  "DataFrame_new E f opcode dat mask_frame m k =
     (case get_mask E mask_frame m k of
        (m', k') \<Rightarrow> (DataFrame (Header_new f opcode m' (of_nat (length dat))) dat, k'))"

text \<open>
  The range \<open>0..124-status_len\<close> of the truncation lies inside \<open>data\<close>, which is longer than
  \<open>125 - status_len\<close> there (lemma \<open>truncation_in_range\<close> of the theory \<open>Frame_Props\<close>), so \<open>take\<close> is the slice.
\<close>

definition ControlFrame_new ::
    "env \<Rightarrow> FLAG \<Rightarrow> OPCODE \<Rightarrow> u16 option \<Rightarrow> u8 list \<Rightarrow> bool \<Rightarrow> Mask option \<Rightarrow> nat \<Rightarrow> Frame \<times> nat"
  where
  "ControlFrame_new E f opcode status_code dat mask_frame m k =
     (let status_len = (if status_code \<noteq> None then 2 else 0);
          payload = (if length dat + status_len > 125 then 125 else length dat + status_len);
          dat' = (if length dat + status_len > 125 then take (124 - status_len) dat else dat) in
      case get_mask E mask_frame m k of
        (m', k') \<Rightarrow>
          (ControlFrame (Header_new f opcode m' (of_nat payload))
             ((case status_code of Some s \<Rightarrow> u16_to_be_bytes s | None \<Rightarrow> []) @ dat')
             status_code, k'))"

section \<open>Parsing\<close>

text \<open>The payload length and the index just behind it.\<close>

definition frame_length :: "u8 list \<Rightarrow> u8 \<Rightarrow> (WebSocketError, u64 \<times> nat) outcome" where
  "frame_length bytes b1 =
     (let n = ucast (0x7F AND b1) :: u64 in
      if n = 126 then
        bindO (slice bytes 2 4) (\<lambda>bs. bindO (unwrapO (bytes_to_u16 bs)) (\<lambda>w. Ok (ucast w, 4)))
      else if n = 127 then
        bindO (slice bytes 2 10) (\<lambda>bs. bindO (unwrapO (bytes_to_u64 bs)) (\<lambda>w. Ok (w, 10)))
      else Ok (n, 2))"

definition frame_mask :: "u8 list \<Rightarrow> bool \<Rightarrow> nat \<Rightarrow> (WebSocketError, Mask option \<times> nat) outcome" where
  "frame_mask bytes is_masked i =
     (if is_masked then
        bindO (index bytes i) (\<lambda>m0. bindO (index bytes (i + 1)) (\<lambda>m1.
        bindO (index bytes (i + 2)) (\<lambda>m2. bindO (index bytes (i + 3)) (\<lambda>m3.
        Ok (Some (m0, m1, m2, m3), i + 4)))))
      else Ok (None, i))"

text \<open>The last part of \<open>bytes_to_frame\<close>: the offset, the payload and the frame.\<close>

definition frame_payload ::
    "env \<Rightarrow> u8 list \<Rightarrow> FLAG \<Rightarrow> OPCODE \<Rightarrow> u64 \<Rightarrow> Mask option \<Rightarrow> nat \<Rightarrow>
     (WebSocketError, Frame \<times> nat) outcome"
  where
  "frame_payload E bytes fl opc n m i =
     (let chk = overflow_checks E in
      bindO (usize_add chk i (unat n)) (\<lambda>offset.
      if opc = OPCODE_TEXT \<or> opc = OPCODE_BINARY \<or> opc = OPCODE_CONTINUATION then
        bindO (usize_add chk (unat n) i) (\<lambda>e.
        bindO (slice bytes i e) (\<lambda>dat.
        Ok (fst (DataFrame_new E fl opc dat False m 0), offset)))
      else
        bindO (slice bytes i (i + 2)) (\<lambda>sb.
        bindO (unwrapO (bytes_to_u16 sb)) (\<lambda>status_code.
        bindO (usize_add chk (unat n) 2) (\<lambda>e.
        bindO (slice bytes (i + 2) e) (\<lambda>dat.
        Ok (fst (ControlFrame_new E fl opc (Some status_code) dat False m 0), offset)))))))"

definition bytes_to_frame ::
    "env \<Rightarrow> u8 list \<Rightarrow> (WebSocketError, (Frame \<times> nat) option) outcome" where
  "bytes_to_frame E bytes =
     (if length bytes < 2 then Ok None else
      bindO (index bytes 0) (\<lambda>b0.
      case FLAG_from_bits E (b0 AND 0xF0) of None \<Rightarrow> Err InvalidFrame | Some fl \<Rightarrow>
      (case OPCODE_from_bits E (b0 AND 0x1F) of None \<Rightarrow> Err InvalidFrame | Some opc \<Rightarrow>
      bindO (index bytes 1) (\<lambda>b1.
      let is_masked = (0x80 AND b1 = 1) in
      bindO (frame_length bytes b1) (\<lambda>(n, i).
      bindO (u64_add (overflow_checks E) n (of_nat i)) (\<lambda>total.
      if total > of_nat (length bytes) then Ok None else
      bindO (frame_mask bytes is_masked i) (\<lambda>(m, i).
      bindO (frame_payload E bytes fl opc n m i) (\<lambda>r. Ok (Some r)))))))))"

end
