(* ===== verification/Rfc6455.thy ===== *)
theory Rfc6455
  imports Ws_Frame
begin

unbundle bit_operations_syntax

text \<open>
  The reference the frame code is compared with.

  \<^item> \<open>rfc_decode\<close> reads one frame off a byte stream the way section 5.2 of RFC 6455 lays it
    out, unmasking the payload: what a conforming peer makes of the bytes the client sends.
  \<^item> \<open>parse_spec\<close> is a closed form of \<open>bytes_to_frame\<close> over natural numbers, with no build
    profile and no bit sets; the lemma \<open>bytes_to_frame_parse\<close> states that the parser of the
    code computes it.
\<close>

section \<open>Reading a frame off the wire\<close>

text \<open>The payload length: its value and the number of bytes of the extended length field.\<close>

definition rfc_length :: "nat \<Rightarrow> u8 list \<Rightarrow> (nat \<times> nat) option" where
  "rfc_length l7 bs =
     (if l7 = 126 then (if length bs < 2 then None else Some (be_nat (take 2 bs), 2))
      else if l7 = 127 then (if length bs < 8 then None else Some (be_nat (take 8 bs), 8))
      else Some (l7, 0))"

definition rfc_unmask :: "u8 list \<Rightarrow> u8 list \<Rightarrow> u8 list" where
  "rfc_unmask key xs = map2 (\<lambda>j b. b XOR key ! (j mod 4)) [0..<length xs] xs"

record rfc_frame =
  rfc_fin :: bool
  rfc_rsv :: u8
  rfc_opcode :: u8
  rfc_masked :: bool
  rfc_payload :: "u8 list"

fun rfc_decode :: "u8 list \<Rightarrow> (rfc_frame \<times> u8 list) option" where
  "rfc_decode (b0 # b1 # bs) =
     (case rfc_length (unat (b1 AND 0x7F)) bs of
        None \<Rightarrow> None
      | Some (n, k) \<Rightarrow>
          (let masked = bit b1 7;
               klen = (if masked then 4 else 0);
               key = take klen (drop k bs);
               body = drop (k + klen) bs in
           if length bs < k + klen + n then None
           else Some (\<lparr>rfc_fin = bit b0 7, rfc_rsv = b0 AND 0x70, rfc_opcode = b0 AND 0x0F,
                       rfc_masked = masked,
                       rfc_payload = (if masked then rfc_unmask key (take n body) else take n body)\<rparr>,
                      drop n body)))"
| "rfc_decode _ = None"

section \<open>The masking loop\<close>

lemma length_mask_loop [simp]: "length (mask_loop m i xs) = length xs"
  by (induction m i xs rule: mask_loop.induct) auto

lemma nth_mask_loop:
  "i < length m \<Longrightarrow> j < length xs \<Longrightarrow>
   mask_loop m i xs ! j = xs ! j XOR m ! ((i + j) mod length m)"
proof (induction m i xs arbitrary: j rule: mask_loop.induct)
  case (1 m i)
  then show ?case by simp
next
  case (2 m i b bs)
  let ?i = "if i + 1 \<ge> length m then 0 else i + 1"
  have i: "?i < length m" using "2.prems" by auto
  show ?case
  proof (cases j)
    case 0
    with "2.prems" show ?thesis by simp
  next
    case (Suc j')
    have "(?i + j') mod length m = (i + j) mod length m"
      using "2.prems" Suc by (cases "i + 1 = length m") (auto simp flip: add_Suc)
    with "2.IH" [OF i, of j'] "2.prems" Suc show ?thesis by simp
  qed
qed

lemma mask_loop_rfc: "mask_loop (mask_bytes m) 0 xs = rfc_unmask (mask_bytes m) xs"
  by (rule nth_equalityI) (simp_all add: nth_mask_loop rfc_unmask_def)

lemma mask_loop_involution:
  "i < length m \<Longrightarrow> mask_loop m i (mask_loop m i xs) = xs"
  by (rule nth_equalityI) (simp_all add: nth_mask_loop xor.assoc)

lemma rfc_unmask_mask: "rfc_unmask (mask_bytes m) (mask_loop (mask_bytes m) 0 xs) = xs"
  by (simp add: mask_loop_rfc [symmetric] mask_loop_involution)

section \<open>What a peer reads\<close>

text \<open>A frame whose header tells the truth about its payload and whose bits fit their nibbles.\<close>

definition frame_ok :: "Frame \<Rightarrow> bool" where
  "frame_ok f \<longleftrightarrow>
     unat (payload_len (get_header f)) = length (get_data f) \<and>
     flag_bits (flag (get_header f)) AND 0x0F = 0 \<and>
     opcode_bits (code (get_header f)) AND 0xF0 = 0"

definition rfc_view :: "Frame \<Rightarrow> rfc_frame" where
  "rfc_view f =
     \<lparr>rfc_fin = bit (flag_bits (flag (get_header f))) 7,
      rfc_rsv = flag_bits (flag (get_header f)) AND 0x70,
      rfc_opcode = opcode_bits (code (get_header f)),
      rfc_masked = (mask_key (get_header f) \<noteq> None),
      rfc_payload = get_data f\<rparr>"

lemma nibbles:
  fixes fl op :: u8
  assumes "fl AND 0x0F = 0" and "op AND 0xF0 = 0"
  shows "bit (fl OR op) 7 = bit fl 7"
    and "(fl OR op) AND 0x70 = fl AND 0x70"
    and "(fl OR op) AND 0x0F = op"
  using assms unfolding u8_eq_bits by (simp_all add: bit_simps)

lemma bit7_less: "(x :: u8) < 128 \<Longrightarrow> \<not> bit x 7"
  by (simp add: bit_iff_odd div_word_less)

lemma low7_mark:
  fixes x :: u8
  assumes "x < 128" and "m = 0 \<or> m = 0x80"
  shows "(m OR x) AND 0x7F = x" and "bit (m OR x) 7 \<longleftrightarrow> m \<noteq> 0"
  using assms(2) bit7_less [OF assms(1)] unfolding u8_eq_bits by (auto simp: bit_simps)

lemma ucast_small:
  fixes n :: u64
  assumes "unat n < 256"
  shows "unat (ucast n :: u8) = unat n"
  using assms by (simp add: unat_ucast_byte)

lemma length_field_rfc:
  assumes m: "m = 0 \<or> m = 0x80"
  obtains b1 ext where "length_field m n = b1 # ext"
    and "bit b1 7 \<longleftrightarrow> m \<noteq> 0"
    and "\<And>rest. rfc_length (unat (b1 AND 0x7F)) (ext @ rest) = Some (unat n, length ext)"
proof -
  consider "n < 125" | "\<not> n < 125" "n \<le> 65535" | "\<not> n < 125" "\<not> n \<le> 65535" by blast
  then show thesis
  proof cases
    case 1
    let ?x = "ucast n :: u8"
    have n: "unat n < 125" using 1 by (simp add: word_less_nat_alt)
    then have x: "unat ?x = unat n" by (simp add: ucast_small)
    then have "?x < 128" using n by (simp add: word_less_nat_alt)
    from low7_mark [OF this m] show thesis
      using 1 n x by (intro that [of "m OR ?x" "[]"]) (simp_all add: length_field_def rfc_length_def)
  next
    case 2
    have n: "unat n \<le> 65535" using 2 by (simp add: word_le_nat_alt)
    then have "unat (ucast n :: u16) = unat n" by (simp add: unsigned_ucast_eq take_bit_eq_mod)
    then have "be_nat (u16_to_be_bytes (ucast n)) = unat n"
      using n by (simp add: u16_to_be_bytes_def be_nat_be_bytes)
    with low7_mark [of 126 m] m 2 show thesis
      by (intro that [of "m OR 126" "u16_to_be_bytes (ucast n)"])
         (simp_all add: length_field_def rfc_length_def u16.length_enc)
  next
    case 3
    have "be_nat (u64_to_be_bytes n) = unat n"
      using unat_u64_less [of n] by (simp add: u64_to_be_bytes_def be_nat_be_bytes)
    with low7_mark [of 127 m] m 3 show thesis
      by (intro that [of "m OR 127" "u64_to_be_bytes n"])
         (simp_all add: length_field_def rfc_length_def u64.length_enc)
  qed
qed

lemma serialize_eq:
  "serialize f =
     (flag_bits (flag (get_header f)) OR opcode_bits (code (get_header f))) #
     length_field (if mask_key (get_header f) = None then 0 else 0x80) (payload_len (get_header f)) @
     (case mask_key (get_header f) of
        Some m \<Rightarrow> mask_bytes m @ mask_loop (mask_bytes m) 0 (get_data f)
      | None \<Rightarrow> get_data f)"
  by (simp add: serialize_def Header_serialize_eq split: option.split)

lemma serialize_decodes:
  assumes "frame_ok f"
  shows "rfc_decode (serialize f @ rest) = Some (rfc_view f, rest)"
proof -
  let ?h = "get_header f" and ?d = "get_data f"
  let ?m = "if mask_key ?h = None then 0 else 0x80 :: u8"
  obtain b1 ext where lf: "length_field ?m (payload_len ?h) = b1 # ext"
    and b7: "bit b1 7 \<longleftrightarrow> ?m \<noteq> 0"
    and len: "\<And>rest. rfc_length (unat (b1 AND 0x7F)) (ext @ rest) = Some (unat (payload_len ?h), length ext)"
    using length_field_rfc [of ?m "payload_len ?h"] by metis
  have n: "unat (payload_len ?h) = length ?d" using assms by (simp add: frame_ok_def)
  note nib = nibbles [of "flag_bits (flag ?h)" "opcode_bits (code ?h)"]
  show ?thesis
  proof (cases "mask_key ?h")
    case None
    then have "\<not> bit b1 7" and "length_field 0 (payload_len ?h) = b1 # ext"
      using b7 lf by simp_all
    with None show ?thesis
      using assms by (simp add: serialize_eq len n nib frame_ok_def rfc_view_def Let_def)
  next
    case (Some m)
    then have "bit b1 7" and "length_field 0x80 (payload_len ?h) = b1 # ext"
      using b7 lf by simp_all
    with Some show ?thesis
      using assms
      by (simp add: serialize_eq len n nib frame_ok_def rfc_view_def Let_def rfc_unmask_mask)
  qed
qed

section \<open>A closed form of the parser\<close>

text \<open>
  \<open>n\<close> is the announced payload length, \<open>k\<close> the size of the extended length field and
  \<open>i = 2 + k\<close> the index of the payload. The control branch reads the status code and then
  the slice \<open>i + 2 .. n + 2\<close>.
\<close>

definition control_of :: "FLAG \<Rightarrow> OPCODE \<Rightarrow> u8 list \<Rightarrow> u8 list \<Rightarrow> Frame" where
  "control_of fl opc st dat =
     ControlFrame (Header_new fl opc None (of_nat (min 125 (length dat + 2))))
       (st @ (if length dat + 2 > 125 then take 122 dat else dat)) (Some (u16_from_be_bytes st))"

fun parse_spec :: "u8 list \<Rightarrow> (WebSocketError, (Frame \<times> nat) option) outcome" where
  "parse_spec (b0 # b1 # bs) =
     (if b0 AND 0x14 \<noteq> 0 then Err InvalidFrame else
      (case rfc_length (unat (b1 AND 0x7F)) bs of
         None \<Rightarrow> Panic
       | Some (n, k) \<Rightarrow>
           (let i = 2 + k; body = drop k bs;
                fl = FLAG (b0 AND 0xF0); opc = OPCODE (b0 AND 0x0B) in
            if 2 ^ 64 \<le> n + i then Panic
            else if length body < n then Ok None
            else if b0 AND 0x0B \<in> {0, 1, 2} then
              Ok (Some (DataFrame (Header_new fl opc None (of_nat n)) (take n body), i + n))
            else if n < i then Panic
            else Ok (Some (control_of fl opc (take 2 body) (take (n - i) (drop 2 body)), i + n)))))"
| "parse_spec _ = Ok None"

lemma never_masked: "0x80 AND (b :: u8) \<noteq> 1"
  unfolding u8_eq_bits by (simp add: bit_simps)

lemma flag_bits_known: "((b :: u8) AND 0xF0) AND NOT 0xF0 = 0"
  unfolding u8_eq_bits by (simp add: bit_simps)

lemma opcode_bits_known: "((b :: u8) AND 0x1F) AND NOT 0x0B = 0 \<longleftrightarrow> b AND 0x14 = 0"
  unfolding u8_eq_bits by (simp add: bit_simps)

lemma opcode_bits_eq: "(b :: u8) AND 0x14 = 0 \<Longrightarrow> b AND 0x1F = b AND 0x0B"
  unfolding u8_eq_bits by (simp add: bit_simps)

lemma FLAG_from_bits_eq:
  "bitflags_ok E \<Longrightarrow> FLAG_from_bits E (b AND 0xF0) = Some (FLAG (b AND 0xF0))"
  by (simp only: FLAG_from_bits_def FLAG_all_eq bitflags8 flag_bits_known simp_thms if_True option.map)

lemma OPCODE_from_bits_eq:
  "bitflags_ok E \<Longrightarrow>
   OPCODE_from_bits E (b AND 0x1F) = (if b AND 0x14 = 0 then Some (OPCODE (b AND 0x0B)) else None)"
  by (simp only: OPCODE_from_bits_def OPCODE_all_eq bitflags8 opcode_bits_known)
     (simp add: opcode_bits_eq)

lemma frame_length_eq:
  "frame_length (b0 # b1 # bs) b1 =
     (case rfc_length (unat (b1 AND 0x7F)) bs of
        None \<Rightarrow> Panic
      | Some (n, k) \<Rightarrow> Ok (of_nat n, 2 + k))"
proof -
  let ?x = "b1 AND 0x7F"
  have e: "(ucast (0x7F AND b1) :: u64) = of_nat m \<longleftrightarrow> unat ?x = m" if "m < 256" for m
    using that unat_u8_less [of ?x]
    by (simp add: word_unat_eq_iff unsigned_ucast_eq take_bit_nat_eq_self unat_of_nat and.commute)
  have w16: "(ucast (of_nat m :: u16) :: u64) = of_nat m" if "m < 65536" for m :: nat
    using that by (simp add: word_unat_eq_iff unsigned_ucast_eq take_bit_nat_eq_self unat_of_nat)
  have v: "(ucast (0x7F AND b1) :: u64) = of_nat (unat ?x)" by (simp add: and.commute)
  show ?thesis
    using be_nat_bound [of "take 2 bs"] e [of 126] e [of 127]
    unfolding frame_length_def Let_def
    by (auto simp: rfc_length_def slice_def bytes_to_u16_def bytes_to_u64_def min_def w16 v
        u16_from_be_bytes_def u64_from_be_bytes_def simp del: of_nat_unat)
qed

lemma frame_payload_data:
  assumes "i + n \<le> length bytes" and "length bytes < 2 ^ 63"
    and "opc = OPCODE_TEXT \<or> opc = OPCODE_BINARY \<or> opc = OPCODE_CONTINUATION"
  shows "frame_payload E bytes fl opc (of_nat n) None i =
    Ok (DataFrame (Header_new fl opc None (of_nat n)) (take n (drop i bytes)), i + n)"
proof -
  have "unat (of_nat n :: u64) = n" and "i + n < 2 ^ 64"
    using assms(1,2) by (simp_all add: unat_of_nat)
  with assms show ?thesis
    by (simp add: frame_payload_def slice_def DataFrame_new_def get_mask_def add.commute [of n])
qed

lemma frame_payload_control:
  assumes "i + n \<le> length bytes" and "length bytes < 2 ^ 63" and "2 \<le> i"
    and "\<not> (opc = OPCODE_TEXT \<or> opc = OPCODE_BINARY \<or> opc = OPCODE_CONTINUATION)"
  shows "frame_payload E bytes fl opc (of_nat n) None i =
    (if n < i then Panic
     else Ok (control_of fl opc (take 2 (drop i bytes)) (take (n - i) (drop 2 (drop i bytes))), i + n))"
proof -
  have n: "unat (of_nat n :: u64) = n" and "i + n < 2 ^ 64" "n + 2 < 2 ^ 64"
    using assms(1,2) by (simp_all add: unat_of_nat)
  note payload = frame_payload_def n usize_add_small [OF this(2)] usize_add_small [OF this(3)]
  have code: "(opc = OPCODE_TEXT \<or> opc = OPCODE_BINARY \<or> opc = OPCODE_CONTINUATION) = False"
    using assms(4) by (rule Eq_FalseI [THEN meta_eq_to_obj_eq])
  have len: "length (take 2 (drop i bytes)) = 2" if "i + 2 \<le> length bytes" using that by simp
  show ?thesis
  proof (cases "n < i")
    case True
    then show ?thesis
      by (cases "i + 2 \<le> length bytes")
         (simp_all add: payload code slice_def bytes_to_u16_def len del: length_take)
  next
    case False
    then have fits: "i + 2 \<le> length bytes" "n + 2 \<le> length bytes" "i + 2 \<le> n + 2" "n + 2 - (i + 2) = n - i"
      using assms(1,3) by simp_all
    have s1: "slice bytes i (i + 2) = Ok (take 2 (drop i bytes))"
      using fits(1) by (simp only: slice_eq_Ok) simp
    have s2: "slice bytes (i + 2) (n + 2) = Ok (take (n - i) (drop 2 (drop i bytes)))"
      using fits by (simp add: slice_eq_Ok add.commute [of 2])
    have b: "bytes_to_u16 (take 2 (drop i bytes)) = Ok (u16_from_be_bytes (take 2 (drop i bytes)))"
      by (simp only: bytes_to_u16_def len [OF fits(1)] if_True simp_thms)
    have e: "u16_to_be_bytes (u16_from_be_bytes (take 2 (drop i bytes))) = take 2 (drop i bytes)"
      by (rule u16.enc_dec [OF b])
    show ?thesis
      unfolding payload code if_False Let_def bindO.simps s1 s2 b unwrapO.simps if_False
      using False by (simp add: ControlFrame_new_def get_mask_def control_of_def Let_def min_def e del: take_drop drop_drop)
  qed
qed

lemma frame_payload_overflow:
  assumes "2 ^ 64 \<le> n + i" and "n < 2 ^ 64" and "i \<le> 10" and "2 \<le> i" and "length bytes < 2 ^ 63"
  shows "frame_payload E bytes fl opc (of_nat n) m i = Panic"
proof -
  have n: "unat (of_nat n :: u64) = n" using assms(2) by (simp add: unat_of_nat)
  have wrap: "(n + i) mod 2 ^ 64 = n + i - 2 ^ 64" using assms(1-3) by (subst le_mod_geq) simp_all
  show ?thesis
    using assms wrap
    by (auto simp: frame_payload_def n usize_add_def slice_def bytes_to_u16_def le_mod_geq add.commute
        Let_def split: if_splits)
qed

lemma rfc_length_bounds:
  assumes "rfc_length l7 bs = Some (n, k)" and "l7 < 128"
  shows "n < 2 ^ 64" and "k \<le> length bs" and "k = 0 \<or> k = 2 \<or> k = 8"
proof -
  have "be_nat (take m bs) < 256 ^ m" for m
    by (rule less_le_trans [OF be_nat_bound]) (simp add: power_increasing)
  from this [of 2] this [of 8] show "n < 2 ^ 64" and "k \<le> length bs" and "k = 0 \<or> k = 2 \<or> k = 8"
    using assms by (auto simp: rfc_length_def split: if_splits)
qed

lemma low7_less: "unat ((b :: u8) AND 0x7F) < 128"
proof -
  have "b AND 0x7F \<le> 0x7F" by (rule word_and_le1)
  then show ?thesis by (simp add: word_le_nat_alt)
qed

lemma bytes_to_frame_parse:
  assumes E: "bitflags_ok E" and len: "length bytes < 2 ^ 63"
  shows "bytes_to_frame E bytes = parse_spec bytes"
proof (cases bytes rule: parse_spec.cases)
  case (1 b0 b1 bs)
  note b = bytes_to_frame_def 1 FLAG_from_bits_eq [OF E] OPCODE_from_bits_eq [OF E] index_def
    never_masked frame_length_eq frame_mask_def
  show ?thesis
  proof (cases "rfc_length (unat (b1 AND 0x7F)) bs")
    case None
    then show ?thesis by (simp add: b)
  next
    case (Some nk)
    obtain n k where nk: "nk = (n, k)" by (cases nk)
    note rl = Some [unfolded nk]
    define i where "i = 2 + k"
    let ?fl = "FLAG (b0 AND 0xF0)" and ?opc = "OPCODE (b0 AND 0x0B)"
    let ?st = "take 2 (drop i bytes)" and ?dat = "take (n - i) (drop 2 (drop i bytes))"
    note bnd = rfc_length_bounds [OF rl low7_less]
    have i: "i \<le> 10" "i \<le> length bytes" "2 \<le> i" using bnd 1 by (auto simp: i_def)
    have spec: "parse_spec bytes =
      (if b0 AND 0x14 \<noteq> 0 then Err InvalidFrame
       else if 2 ^ 64 \<le> n + i then Panic
       else if length bytes < n + i then Ok None
       else if b0 AND 0x0B \<in> {0, 1, 2} then
         Ok (Some (DataFrame (Header_new ?fl ?opc None (of_nat n)) (take n (drop i bytes)), i + n))
       else if n < i then Panic
       else Ok (Some (control_of ?fl ?opc ?st ?dat, i + n)))"
      using bnd(2) by (auto simp: 1 rl i_def Let_def)
    have impl: "bytes_to_frame E bytes =
      (if b0 AND 0x14 \<noteq> 0 then Err InvalidFrame
       else bindO (u64_add (overflow_checks E) (of_nat n) (of_nat i)) (\<lambda>total.
         if total > of_nat (length bytes) then Ok None
         else bindO (frame_payload E bytes ?fl ?opc (of_nat n) None i) (\<lambda>r. Ok (Some r))))"
      by (simp add: b rl i_def cong: if_cong)
    have un: "unat (of_nat n :: u64) = n" using bnd(1) by (simp add: unat_of_nat)
    have ui: "unat (of_nat i :: u64) = i" using i(1) by (simp add: unat_of_nat)
    have us: "unat (of_nat n + of_nat i :: u64) = (n + i) mod 2 ^ 64"
      by (simp only: of_nat_add [symmetric] unat_of_nat) simp
    have ul: "unat (of_nat (length bytes) :: u64) = length bytes" using len by (simp add: unat_of_nat)
    have data: "?opc = OPCODE_TEXT \<or> ?opc = OPCODE_BINARY \<or> ?opc = OPCODE_CONTINUATION \<longleftrightarrow>
        b0 AND 0x0B \<in> {0, 1, 2}"
      by (auto simp: opcode_defs)
    show ?thesis
    proof (cases "2 ^ 64 \<le> n + i")
      case True
      have "(n + i) mod 2 ^ 64 = n + i - 2 ^ 64" using True bnd(1) i(1) by (subst le_mod_geq) simp_all
      then have "\<not> (of_nat n + of_nat i :: u64) > of_nat (length bytes)"
        using i bnd(1) unfolding word_less_nat_alt ul us by simp
      moreover have "frame_payload E bytes ?fl ?opc (of_nat n) None i = Panic"
        using True bnd(1) i len by (intro frame_payload_overflow)
      ultimately show ?thesis using True
        by (simp add: impl spec u64_add_def un ui)
    next
      case False
      then have total: "(of_nat n + of_nat i :: u64) > of_nat (length bytes) \<longleftrightarrow> length bytes < n + i"
        unfolding word_less_nat_alt ul us by simp
      have ok: "u64_add (overflow_checks E) (of_nat n) (of_nat i) = Ok (of_nat n + of_nat i)"
        using False by (simp add: u64_add_def un ui)
      show ?thesis
        using False frame_payload_data [of i n bytes ?opc E ?fl]
          frame_payload_control [of i n bytes ?opc E ?fl] len i(3)
        by (simp add: impl spec ok total data add.commute [of n])
    qed
  qed
qed (simp_all add: bytes_to_frame_def)

end
