(* ===== verification/Ws_Status.thy ===== *)
theory Ws_Status
  imports Ws_Env
begin

unbundle bit_operations_syntax

text \<open>
  \<^verbatim>\<open>websocket/src/ws_basic/status_code.rs\<close>: the close status codes as a \<open>bitflags!\<close> struct
  over \<open>u16\<close>, and their evaluation. The set of declared bits is the union of the codes,
  which is every code below 1024.
\<close>

datatype WSStatus = WSStatus (status_bits: u16)

definition NORMAL_CLOSURE :: WSStatus where "NORMAL_CLOSURE = WSStatus 1000"
definition GOING_AWAY :: WSStatus where "GOING_AWAY = WSStatus 1001"
definition PROTOCOL_ERROR :: WSStatus where "PROTOCOL_ERROR = WSStatus 1002"
definition TYPE_DATA_NOT_ACCEPTABLE :: WSStatus where "TYPE_DATA_NOT_ACCEPTABLE = WSStatus 1003"
definition RESERVED_1004 :: WSStatus where "RESERVED_1004 = WSStatus 1004"
definition EXPECTED_STATUS_CODE :: WSStatus where "EXPECTED_STATUS_CODE = WSStatus 1005"
definition CONNECTION_CLOSE_ABNORMALLY :: WSStatus where "CONNECTION_CLOSE_ABNORMALLY = WSStatus 1006"
definition INCONSISTENT_DATA_TYPE_INSIDE_MESSAGE :: WSStatus where
  "INCONSISTENT_DATA_TYPE_INSIDE_MESSAGE = WSStatus 1007"
definition POLICY_VIOLATION :: WSStatus where "POLICY_VIOLATION = WSStatus 1008"
definition MESSAGE_TO_BIG :: WSStatus where "MESSAGE_TO_BIG = WSStatus 1009"
definition EXPECTED_EXTENSION_NEGOTIATION_WITH_SERVER :: WSStatus where
  "EXPECTED_EXTENSION_NEGOTIATION_WITH_SERVER = WSStatus 1010"
definition UNEXPECTED_CONDITION_ENCOUNTERED :: WSStatus where
  "UNEXPECTED_CONDITION_ENCOUNTERED = WSStatus 1011"
definition TLS_HANDSHAKE_ERROR :: WSStatus where "TLS_HANDSHAKE_ERROR = WSStatus 1015"

lemmas status_defs =
  NORMAL_CLOSURE_def GOING_AWAY_def PROTOCOL_ERROR_def TYPE_DATA_NOT_ACCEPTABLE_def
  RESERVED_1004_def EXPECTED_STATUS_CODE_def CONNECTION_CLOSE_ABNORMALLY_def
  INCONSISTENT_DATA_TYPE_INSIDE_MESSAGE_def POLICY_VIOLATION_def MESSAGE_TO_BIG_def
  EXPECTED_EXTENSION_NEGOTIATION_WITH_SERVER_def UNEXPECTED_CONDITION_ENCOUNTERED_def
  TLS_HANDSHAKE_ERROR_def

definition WSStatus_all :: u16 where
  "WSStatus_all =
     foldl (\<lambda>acc s. acc OR status_bits s) 0
       [NORMAL_CLOSURE, GOING_AWAY, PROTOCOL_ERROR, TYPE_DATA_NOT_ACCEPTABLE, RESERVED_1004,
        EXPECTED_STATUS_CODE, CONNECTION_CLOSE_ABNORMALLY, INCONSISTENT_DATA_TYPE_INSIDE_MESSAGE,
        POLICY_VIOLATION, MESSAGE_TO_BIG, EXPECTED_EXTENSION_NEGOTIATION_WITH_SERVER,
        UNEXPECTED_CONDITION_ENCOUNTERED, TLS_HANDSHAKE_ERROR]"

definition WSStatus_from_bits :: "env \<Rightarrow> u16 \<Rightarrow> WSStatus option" where
  "WSStatus_from_bits E b = map_option WSStatus (from_bits16 E WSStatus_all b)"

text \<open>Whether there was an error, and whether the connection should be closed.\<close>

definition evaulate_status_code :: "WSStatus \<Rightarrow> bool \<times> bool" where
  "evaulate_status_code status =
     (if status = NORMAL_CLOSURE then (False, True)
      else if status = GOING_AWAY then (False, True)
      else if status = RESERVED_1004 then (False, False)
      else (True, True))"

lemma WSStatus_all_eq: "WSStatus_all = 0x3FF"
  by (simp add: WSStatus_all_def status_defs)

lemma and_not_zero_iff: "(b :: 'w::len word) AND NOT c = 0 \<longleftrightarrow> b AND c = b"
  by (auto simp: bit_eq_iff bit_simps)

lemma u16_high_bits: "(b :: u16) AND NOT 0x3FF = 0 \<longleftrightarrow> b \<le> 0x3FF"
proof -
  have "b AND NOT 0x3FF = 0 \<longleftrightarrow> b AND 0x3FF = b"
    by (rule and_not_zero_iff)
  also have "b AND 0x3FF = take_bit 10 b"
    by (simp add: take_bit_eq_mask mask_eq_exp_minus_1)
  also have "take_bit 10 b = b \<longleftrightarrow> b \<le> 0x3FF"
  proof -
    have "unat (take_bit 10 b) = unat b mod 1024"
      by (simp add: take_bit_eq_mod unat_mod_distrib)
    moreover have "unat b mod 1024 = unat b \<longleftrightarrow> unat b \<le> 1023"
      using mod_less_divisor [of 1024 "unat b"] by (auto intro: mod_less)
    ultimately show ?thesis by (simp only: word_unat_eq_iff word_le_nat_alt) simp
  qed
  finally show ?thesis .
qed

lemma WSStatus_from_bits_eq:
  "bitflags_ok E \<Longrightarrow> WSStatus_from_bits E b = (if b \<le> 0x3FF then Some (WSStatus b) else None)"
  by (simp only: WSStatus_from_bits_def WSStatus_all_eq bitflags16 u16_high_bits) simp

end
