(* ===== verification/Ws_Key.thy ===== *)
theory Ws_Key
  imports Ws_Env
begin

text \<open>
  \<^verbatim>\<open>websocket/src/ws_basic/key.rs\<close>: the key of the opening handshake and its verification.
  The random source, base64 and SHA-1 are those of the environment.
\<close>

definition GUID :: str where
  "GUID = ascii ''258EAFA5-E914-47DA-95CA-C5AB0DC85B11''"

text \<open>The key made from the \<open>k\<close>-th draw of 16 random bytes.\<close>

definition gen_key :: "env \<Rightarrow> nat \<Rightarrow> str" where
  "gen_key E k = base64_encode E (map (getrandom E k) [0..<16])"

definition verify_key :: "env \<Rightarrow> str \<Rightarrow> str \<Rightarrow> bool" where
  "verify_key E sec_websocket_key sec_websocket_accept =
     (let accept_key = sec_websocket_key @ GUID;
          digest = sha1_digest E accept_key;
          accept_key = base64_encode E digest in
      accept_key = sec_websocket_accept)"

text \<open>What section 4.2.2 of RFC 6455 makes a server answer to a key.\<close>

definition rfc_accept :: "env \<Rightarrow> str \<Rightarrow> str" where
  "rfc_accept E key = base64_encode E (sha1_digest E (key @ GUID))"

lemma verify_key_iff: "verify_key E key accept \<longleftrightarrow> accept = rfc_accept E key"
  by (auto simp: verify_key_def rfc_accept_def Let_def)

end
