(* ===== verification/Std_Str.thy ===== *)
theory Std_Str
  imports Ws_Env "HOL-Library.Sublist"
begin

unbundle bit_operations_syntax

text \<open>
  What the source uses of \<open>String\<close> and \<open>str\<close>: UTF-8 validation and lossy decoding,
  \<open>replace\<close>, \<open>find\<close>, \<open>split\<close>, \<open>trim\<close>, \<open>to_lowercase\<close> and \<open>parse::<u16>\<close>. A string is its
  UTF-8 bytes; the patterns of the source are searched as byte strings, which on UTF-8 is the
  search for the characters.
\<close>

section \<open>UTF-8\<close>

text \<open>The length a first byte announces (0: none), and the second bytes it admits.\<close>

definition utf8_width :: "u8 \<Rightarrow> nat" where
  "utf8_width b =
     (if b < 0x80 then 1
      else if 0xC2 \<le> b \<and> b \<le> 0xDF then 2
      else if 0xE0 \<le> b \<and> b \<le> 0xEF then 3
      else if 0xF0 \<le> b \<and> b \<le> 0xF4 then 4
      else 0)"

definition utf8_second :: "u8 \<Rightarrow> u8 \<Rightarrow> bool" where
  "utf8_second b0 b1 =
     (if b0 = 0xE0 then 0xA0 \<le> b1 \<and> b1 \<le> 0xBF
      else if b0 = 0xED then 0x80 \<le> b1 \<and> b1 \<le> 0x9F
      else if b0 = 0xF0 then 0x90 \<le> b1 \<and> b1 \<le> 0xBF
      else if b0 = 0xF4 then 0x80 \<le> b1 \<and> b1 \<le> 0x8F
      else is_continuation b1)"

text \<open>
  One step at the front of a byte string: whether a character starts there, and how many
  bytes it takes; for an invalid sequence, the bytes that a lossy decoder replaces.
\<close>

fun utf8_step :: "u8 list \<Rightarrow> bool \<times> nat" where
  "utf8_step [] = (False, 0)"
| "utf8_step [b0] = (if b0 < 0x80 then (True, 1) else (False, 1))"
| "utf8_step [b0, b1] =
     (if b0 < 0x80 then (True, 1)
      else if utf8_width b0 = 0 \<or> \<not> utf8_second b0 b1 then (False, 1)
      else if utf8_width b0 = 2 then (True, 2) else (False, 2))"
| "utf8_step [b0, b1, b2] =
     (if b0 < 0x80 then (True, 1)
      else if utf8_width b0 = 0 \<or> \<not> utf8_second b0 b1 then (False, 1)
      else if utf8_width b0 = 2 then (True, 2)
      else if \<not> is_continuation b2 then (False, 2)
      else if utf8_width b0 = 3 then (True, 3) else (False, 3))"
| "utf8_step (b0 # b1 # b2 # b3 # bs) =
     (if b0 < 0x80 then (True, 1)
      else if utf8_width b0 = 0 \<or> \<not> utf8_second b0 b1 then (False, 1)
      else if utf8_width b0 = 2 then (True, 2)
      else if \<not> is_continuation b2 then (False, 2)
      else if utf8_width b0 = 3 then (True, 3)
      else if is_continuation b3 then (True, 4) else (False, 3))"

fun utf8_valid :: "u8 list \<Rightarrow> bool" where
  "utf8_valid [] = True"
| "utf8_valid (b # bs) =
     (case utf8_step (b # bs) of (ok, n) \<Rightarrow> ok \<and> utf8_valid (drop (n - 1) bs))"

text \<open>A character that starts a byte string starts every extension of it.\<close>

lemma utf8_step_append:
  "utf8_step xs = (True, n) \<Longrightarrow> utf8_step (xs @ ys) = (True, n) \<and> n \<le> length xs"
proof (cases xs rule: utf8_step.cases)
  case (2 b0)
  then show "utf8_step xs = (True, n) \<Longrightarrow> ?thesis"
    by (cases "b0 # ys" rule: utf8_step.cases) (auto split: if_splits)
next
  case (3 b0 b1)
  then show "utf8_step xs = (True, n) \<Longrightarrow> ?thesis"
    by (cases "b0 # b1 # ys" rule: utf8_step.cases) (auto split: if_splits)
next
  case (4 b0 b1 b2)
  then show "utf8_step xs = (True, n) \<Longrightarrow> ?thesis"
    by (cases "b0 # b1 # b2 # ys" rule: utf8_step.cases) (auto split: if_splits)
qed (auto split: if_splits)

lemma utf8_valid_append: "utf8_valid xs \<Longrightarrow> utf8_valid ys \<Longrightarrow> utf8_valid (xs @ ys)"
proof (induction xs rule: utf8_valid.induct)
  case (2 b bs)
  obtain n where step: "utf8_step (b # bs) = (True, n)" and rest: "utf8_valid (drop (n - 1) bs)"
    using "2.prems"(1) by (auto split: prod.splits)
  from utf8_step_append [OF step, of ys] have app: "utf8_step (b # bs @ ys) = (True, n)" "n - 1 \<le> length bs"
    by auto
  with "2.IH" step rest "2.prems"(2) show ?case by simp
qed simp

datatype Utf8Error = Utf8Error

text \<open>\<open>String::from_utf8\<close> and \<open>String::from_utf8_lossy\<close>.\<close>

definition from_utf8 :: "u8 list \<Rightarrow> (Utf8Error, str) outcome" where
  "from_utf8 bs = (if utf8_valid bs then Ok bs else Err Utf8Error)"

definition replacement_char :: str where
  "replacement_char = [0xEF, 0xBF, 0xBD]"

fun from_utf8_lossy :: "u8 list \<Rightarrow> str" where
  "from_utf8_lossy [] = []"
| "from_utf8_lossy (b # bs) =
     (case utf8_step (b # bs) of
        (ok, n) \<Rightarrow> (if ok then take n (b # bs) else replacement_char) @ from_utf8_lossy (drop (n - 1) bs))"

definition is_ascii :: "str \<Rightarrow> bool" where
  "is_ascii s \<longleftrightarrow> list_all (\<lambda>b. b < 0x80) s"

section \<open>Searching\<close>

fun str_replace :: "str \<Rightarrow> str \<Rightarrow> str \<Rightarrow> str" where
  "str_replace pat by' [] = []"
| "str_replace pat by' (b # bs) =
     (if prefix pat (b # bs) \<and> pat \<noteq> []
      then by' @ str_replace pat by' (drop (length pat - 1) bs)
      else b # str_replace pat by' bs)"

fun str_find :: "str \<Rightarrow> str \<Rightarrow> nat option" where
  "str_find pat [] = (if pat = [] then Some 0 else None)"
| "str_find pat (b # bs) =
     (if prefix pat (b # bs) then Some 0 else map_option Suc (str_find pat bs))"

text \<open>\<open>split\<close> at a non-empty pattern; the first argument collects the current piece.\<close>

fun split_loop :: "str \<Rightarrow> str \<Rightarrow> str \<Rightarrow> str list" where
  "split_loop acc pat [] = [acc]"
| "split_loop acc pat (b # bs) =
     (if prefix pat (b # bs) \<and> pat \<noteq> []
      then acc # split_loop [] pat (drop (length pat - 1) bs)
      else split_loop (acc @ [b]) pat bs)"

definition str_split :: "str \<Rightarrow> str \<Rightarrow> str list" where
  "str_split pat s = split_loop [] pat s"

section \<open>Trimming, lower case, numbers\<close>

text \<open>The encodings of the characters with the Unicode property \<open>White_Space\<close>.\<close>

definition white_space :: "str list" where
  "white_space =
     map (\<lambda>b. [b]) [0x09, 0x0A, 0x0B, 0x0C, 0x0D, 0x20] @
     [[0xC2, 0x85], [0xC2, 0xA0], [0xE1, 0x9A, 0x80]] @
     map (\<lambda>b. [0xE2, 0x80, b])
       [0x80, 0x81, 0x82, 0x83, 0x84, 0x85, 0x86, 0x87, 0x88, 0x89, 0x8A, 0xA8, 0xA9, 0xAF] @
     [[0xE2, 0x81, 0x9F], [0xE3, 0x80, 0x80]]"

definition strip_front :: "str list \<Rightarrow> str \<Rightarrow> nat" where
  "strip_front ws s = (case find (\<lambda>w. prefix w s) ws of None \<Rightarrow> 0 | Some w \<Rightarrow> length w)"

function trim_with :: "str list \<Rightarrow> str \<Rightarrow> str" where
  "trim_with ws s = (if strip_front ws s = 0 \<or> s = [] then s else trim_with ws (drop (strip_front ws s) s))"
  by pat_completeness auto
termination
  by (relation "measure (\<lambda>(ws, s). length s)") auto

declare trim_with.simps [simp del]

definition trim_start :: "str \<Rightarrow> str" where
  "trim_start s = trim_with white_space s"

definition trim_end :: "str \<Rightarrow> str" where
  "trim_end s = rev (trim_with (map rev white_space) (rev s))"

definition trim :: "str \<Rightarrow> str" where
  "trim s = trim_end (trim_start s)"

definition ascii_lower :: "u8 \<Rightarrow> u8" where
  "ascii_lower b = (if 0x41 \<le> b \<and> b \<le> 0x5A then b + 0x20 else b)"

definition to_lowercase :: "env \<Rightarrow> str \<Rightarrow> str" where
  "to_lowercase E s = (if is_ascii s then map ascii_lower s else unicode_lower E s)"

text \<open>\<open>u16::from_str\<close>: an optional plus sign, then decimal digits that do not overflow.\<close>

fun digits_u16 :: "nat \<Rightarrow> str \<Rightarrow> nat option" where
  "digits_u16 acc [] = Some acc"
| "digits_u16 acc (b # bs) =
     (if 0x30 \<le> b \<and> b \<le> 0x39 then
        (let acc' = acc * 10 + unat (b - 0x30) in
         if acc' < 65536 then digits_u16 acc' bs else None)
      else None)"

definition parse_u16 :: "str \<Rightarrow> u16 option" where
  "parse_u16 s =
     (let digits = (case s of b # bs \<Rightarrow> if b = 0x2B then bs else s | [] \<Rightarrow> s) in
      if digits = [] then None else map_option of_nat (digits_u16 0 digits))"

end
