(* ===== verification/Http_Request.thy ===== *)
theory Http_Request
  imports Std_Str "HOL-Library.AList"
begin

text \<open>
  \<^verbatim>\<open>websocket/src/http/commons.rs\<close> and \<^verbatim>\<open>websocket/src/http/request.rs\<close>: the opening
  handshake's request and its serialisation. A \<open>HashMap<String, String>\<close> is its entries, with
  distinct keys; \<open>insert\<close> is \<open>AList.update\<close>, and the environment says in which order the
  entries are iterated.
\<close>

definition END_LINE :: str where
  "END_LINE = [0x0D, 0x0A]"

type_synonym Headers = "(str \<times> str) list"

definition hashmap_from :: "(str \<times> str) list \<Rightarrow> Headers" where
  "hashmap_from kvs = foldl (\<lambda>m (k, v). AList.update k v m) [] kvs"

datatype Method = GET

fun method_to_string :: "Method \<Rightarrow> str" where
  "method_to_string GET = ascii ''GET''"

record Request =
  req_method :: Method
  req_path :: str
  req_version :: str
  req_headers :: Headers

definition Request_new :: "Method \<Rightarrow> str \<Rightarrow> str \<Rightarrow> Headers option \<Rightarrow> Request" where
  "Request_new m path version hs =
     (let h = (case hs of Some kvs \<Rightarrow> kvs | None \<Rightarrow> []) in
      \<lparr>req_method = m, req_path = path, req_version = version, req_headers = h\<rparr>)"

text \<open>The loop over the headers, and the whole request.\<close>

fun serialize_headers :: "(str \<times> str) list \<Rightarrow> u8 list" where
  "serialize_headers [] = []"
| "serialize_headers ((key, value) # kvs) =
     key @ ascii '': '' @ value @ END_LINE @ serialize_headers kvs"

definition Request_serialize :: "env \<Rightarrow> Request \<Rightarrow> u8 list" where
  "Request_serialize E r =
     method_to_string (req_method r) @ ascii '' '' @ req_path r @ ascii '' '' @ req_version r @
     END_LINE @ serialize_headers (hashmap_iter E (req_headers r)) @ END_LINE"

end
