(* ===== verification/Http_Response.thy ===== *)
theory Http_Response
  imports Http_Request
begin

text \<open>
  \<^verbatim>\<open>websocket/src/http/response.rs\<close>: the handshake's response and its parser. The bytes are
  decoded lossily and the replacement characters removed; then the text is cut at the first
  empty line. The positions at which the text is cut are those where a search for ASCII text
  succeeded, so they are character boundaries and the slices do not panic; the indexing of
  the pieces of the status line can.
\<close>

datatype ParseError = ParseError

definition ParseError_fmt :: "ParseError \<Rightarrow> str" where
  "ParseError_fmt e = ascii ''Error parsing''"

record Response =
  rsp_version :: str
  rsp_status_code :: u16
  rsp_status_text :: str
  rsp_headers :: "Headers option"
  rsp_body :: "str option"

definition Response_new ::
    "str \<Rightarrow> u16 \<Rightarrow> str \<Rightarrow> Headers option \<Rightarrow> str option \<Rightarrow> Response" where
  "Response_new version status_code status_text hs b =
     \<lparr>rsp_version = version, rsp_status_code = status_code, rsp_status_text = status_text,
      rsp_headers = hs, rsp_body = b\<rparr>"

definition get_status :: "Response \<Rightarrow> u16" where
  "get_status r = rsp_status_code r"

definition header :: "env \<Rightarrow> Response \<Rightarrow> str \<Rightarrow> str option" where
  "header E r key =
     (case rsp_headers r of
        None \<Rightarrow> None
      | Some hs \<Rightarrow> map_of hs (to_lowercase E key))"

definition body :: "Response \<Rightarrow> str option" where
  "body r = rsp_body r"

text \<open>The loop over the header lines, with the map built so far.\<close>

fun parse_headers :: "env \<Rightarrow> str list \<Rightarrow> Headers \<Rightarrow> (ParseError, Headers) outcome" where
  "parse_headers E [] hs = Ok hs"
| "parse_headers E (line # lines) hs =
     (case str_find (ascii '':'') line of
        None \<Rightarrow> Err ParseError
      | Some i \<Rightarrow>
          (let key = trim (take i line); value = trim (drop 1 (drop i line)) in
           parse_headers E lines (AList.update (to_lowercase E key) value hs)))"

definition Response_parse :: "env \<Rightarrow> u8 list \<Rightarrow> (ParseError, Response) outcome" where
  "Response_parse E bytes =
     (let s = str_replace replacement_char [] (from_utf8_lossy bytes) in
      case str_find (END_LINE @ END_LINE) s of None \<Rightarrow> Err ParseError | Some end_header \<Rightarrow>
      (let head = take end_header s;
           rest = drop (end_header + length END_LINE * 2) s;
           header_lines = str_split END_LINE head in
       bindO (index header_lines 0) (\<lambda>line.
       let response_info = str_split (ascii '' '') line in
       bindO (index response_info 0) (\<lambda>version.
       bindO (index response_info 1) (\<lambda>code.
       case parse_u16 (trim code) of None \<Rightarrow> Err ParseError | Some status_code \<Rightarrow>
       bindO (index response_info 2) (\<lambda>status_text.
       bindO (parse_headers E (drop 1 header_lines) []) (\<lambda>hs.
       Ok \<lparr>rsp_version = trim version, rsp_status_code = status_code,
           rsp_status_text = trim status_text,
           rsp_headers = (if hs = [] then None else Some hs),
           rsp_body = (if rest = [] then None else Some rest)\<rparr>)))))))"

end
