(* ===== verification/Extension.thy ===== *)
theory Extension
  imports Std_Str "HOL-Library.AList"
begin

text \<open>
  \<^verbatim>\<open>websocket/src/extension.rs\<close>: the description of a protocol extension, which the client
  stores and does not use yet, and the macro \<open>parameter!\<close>, which builds a parameter from its
  name and arguments of the form \<open>key\<close> or \<open>key=value\<close>. A \<open>HashMap\<close> is its entries, with
  distinct keys.
\<close>

record Parameter =
  param_name :: str
  param_args :: "(str \<times> str option) list option"

definition Parameter_new :: "str \<Rightarrow> (str \<times> str option) list option \<Rightarrow> Parameter" where
  "Parameter_new name args = \<lparr>param_name = name, param_args = args\<rparr>"

record Extension =
  ext_name :: str
  ext_params :: "Parameter list"

definition Extension_new :: "str \<Rightarrow> Parameter list \<Rightarrow> Extension" where
  "Extension_new name params = \<lparr>ext_name = name, ext_params = params\<rparr>"

text \<open>One argument of the macro; \<open>index\<close> is the position of the equals sign.\<close>

definition parameter_arg ::
    "str \<Rightarrow> (str \<times> str option) list \<Rightarrow> (str \<times> str option) list" where
  "parameter_arg arg_val args =
     (case str_find (ascii ''='') arg_val of
        Some i \<Rightarrow> AList.update (trim (take i arg_val)) (Some (trim (drop (i + 1) arg_val))) args
      | None \<Rightarrow> AList.update arg_val None args)"

definition parameter :: "str \<Rightarrow> str list option \<Rightarrow> Parameter" where
  "parameter n arg_list =
     (case arg_list of
        None \<Rightarrow> Parameter_new n None
      | Some as \<Rightarrow> Parameter_new n (Some (foldl (\<lambda>args a. parameter_arg a args) [] as)))"

end
