(* ===== verification/Client_State.thy ===== *)
theory Client_State
  imports Core_Net Rfc6455 Ws_Status Ws_Key Http_Response Extension
begin

text \<open>
  \<^verbatim>\<open>websocket/src/sync/client.rs\<close>, lines 20 to 140 and 177 to 189: the client's types, its
  state, its constructor and its setters; and the world the client runs in.

  A callback is a function pointer supplied by the user. The client stores its address; what
  it does is a parameter of the handlers, of type \<open>'t cbk\<close>: given the event, the user's data
  and the client it is called on, it returns or panics, and leaves the client and the world
  in some state. The record \<open>World\<close> holds the kernel's answers to the socket calls, the
  number of draws from the random source, and \<open>trace\<close>, the history of the effects.
\<close>

section \<open>Types\<close>

definition DEFAULT_MESSAGE_SIZE :: u64 where
  "DEFAULT_MESSAGE_SIZE = 1024"

text \<open>A \<open>Duration\<close> in nanoseconds.\<close>

type_synonym Duration = nat

definition from_secs :: "nat \<Rightarrow> Duration" where
  "from_secs n = n * 1000000000"

definition as_secs :: "Duration \<Rightarrow> nat" where
  "as_secs d = d div 1000000000"

definition DEFAULT_TIMEOUT :: Duration where
  "DEFAULT_TIMEOUT = from_secs 30"

definition SWITCHING_PROTOCOLS :: u16 where
  "SWITCHING_PROTOCOLS = 101"

datatype ConnectionStatus =
    NOT_INIT
  | START_INIT
  | HANDSHAKE
  | OPEN
  | CLIENT_WANTS_TO_CLOSE
  | SERVER_WANTS_TO_CLOSE
  | CLOSE

datatype Event =
    WEBSOCKET_DATA Frame
  | HTTP_RESPONSE Response
  | HTTP_REQUEST Request
  | NO_DATA

fun is_websocket_data :: "Event \<Rightarrow> bool" where
  "is_websocket_data (WEBSOCKET_DATA _) = True"
| "is_websocket_data _ = False"

datatype EventIO = INPUT | OUTPUT

datatype Reason = SERVER_CLOSE u16 | CLIENT_CLOSE u16

datatype WSEvent =
    ON_CONNECT "str option"
  | ON_TEXT str
  | ON_CLOSE Reason

type_synonym fn_ptr = nat

record 't Config =
  cfg_callback :: "fn_ptr option"
  cfg_data :: "'t option"
  cfg_protocols :: "str list option"

text \<open>A connected stream, named after its peer.\<close>

datatype TcpStream = TcpStream str u16

record 't WSClient =
  host :: str
  port :: u16
  path :: str
  connection_status :: ConnectionStatus
  message_size :: u64
  timeout :: Duration
  stream :: "TcpStream option"
  recv_storage :: "u8 list"
  recv_data :: "u8 list"
  cb_data :: "'t option"
  callback :: "fn_ptr option"
  protocol :: "str option"
  acceptable_protocols :: "str list option"
  extensions :: "Extension list"
  input_events :: "Event list"
  output_events :: "Event list"
  websocket_key :: str
  close_iters :: nat

section \<open>The world\<close>

datatype io_event =
    Connected str u16
  | Sent "u8 list"
  | ShutdownBoth
  | Called WSEvent

record World =
  reads :: "read_answer list"
  writes :: "write_answer list"
  connects :: "bool list"
  nonblocks :: "bool list"
  shutdowns :: "bool list"
  rng_calls :: nat
  trace :: "io_event list"

type_synonym 't st = "'t WSClient \<times> World"
type_synonym ('t, 'a) cm = "('t st, WebSocketError, 'a) rm"
type_synonym 't cbk = "fn_ptr \<Rightarrow> WSEvent \<Rightarrow> 't option \<Rightarrow> 't st \<Rightarrow> bool \<times> 't st"

definition getC :: "('t WSClient \<Rightarrow> 'a) \<Rightarrow> ('t, 'a) cm" where
  "getC f = getsM (\<lambda>s. f (fst s))"

definition modC :: "('t WSClient \<Rightarrow> 't WSClient) \<Rightarrow> ('t, unit) cm" where
  "modC f = modifyM (\<lambda>s. (f (fst s), snd s))"

lemma client_prim_eval [rm_eval]:
  "getC f (c, w) = (Ok (f c), (c, w))"
  "modC g (c, w) = (Ok (), (g c, w))"
  by (simp_all add: getC_def modC_def rm_eval)

lemma client_prim_wp [wp_simps]:
  "wp (getC f) Q1 s = Q1 (Ok (f (fst s))) s"
  "wp (modC g) Q2 s = Q2 (Ok ()) (g (fst s), snd s)"
  by (simp_all add: getC_def modC_def wp_simps)

lemma preserves_getC [preserves_intros]: "preserves I (getC f)"
  by (simp add: getC_def preserves_intros)

lemma preserves_modC [preserves_intros]:
  "(\<And>c w. I (c, w) \<Longrightarrow> I (g c, w)) \<Longrightarrow> preserves I (modC g)"
  unfolding modC_def by (rule preserves_modify) (metis prod.collapse)

section \<open>Constructor and setters\<close>

definition WSClient_new :: "'t WSClient" where
  "WSClient_new = \<lparr>
     host = ascii '''', port = 0, path = ascii '''',
     connection_status = NOT_INIT,
     message_size = DEFAULT_MESSAGE_SIZE,
     timeout = DEFAULT_TIMEOUT,
     stream = None,
     recv_storage = [],
     recv_data = [],
     cb_data = None,
     callback = None,
     protocol = None,
     acceptable_protocols = None,
     extensions = [],
     input_events = [],
     output_events = [],
     websocket_key = [],
     close_iters = 0\<rparr>"

definition init :: "str \<Rightarrow> u16 \<Rightarrow> str \<Rightarrow> 't Config option \<Rightarrow> 't WSClient \<Rightarrow> 't WSClient" where
  "init h p pth config c =
     (let c1 = c\<lparr>host := h, port := p, path := pth\<rparr>;
          c2 = (case config of
                  Some conf \<Rightarrow> c1\<lparr>cb_data := cfg_data conf, callback := cfg_callback conf,
                                  acceptable_protocols := cfg_protocols conf\<rparr>
                | None \<Rightarrow> c1) in
      c2\<lparr>connection_status := START_INIT\<rparr>)"

definition get_protocol :: "'t WSClient \<Rightarrow> str option" where
  "get_protocol c = protocol c"

definition set_message_size :: "u64 \<Rightarrow> 't WSClient \<Rightarrow> 't WSClient" where
  "set_message_size n c = c\<lparr>message_size := n\<rparr>"

definition set_timeout :: "Duration \<Rightarrow> 't WSClient \<Rightarrow> 't WSClient" where
  "set_timeout d c = c\<lparr>timeout := d\<rparr>"

section \<open>The order of the connection's life\<close>

text \<open>
  \<open>#[repr(C)]\<close> numbers the statuses in the order of their declaration, which is the order in
  which a connection goes through them.
\<close>

fun status_rank :: "ConnectionStatus \<Rightarrow> nat" where
  "status_rank NOT_INIT = 0"
| "status_rank START_INIT = 1"
| "status_rank HANDSHAKE = 2"
| "status_rank OPEN = 3"
| "status_rank CLIENT_WANTS_TO_CLOSE = 4"
| "status_rank SERVER_WANTS_TO_CLOSE = 5"
| "status_rank CLOSE = 6"

lemma status_rank_inject: "status_rank a = status_rank b \<longleftrightarrow> a = b"
  by (cases a; cases b) simp_all

instantiation ConnectionStatus :: linorder
begin

definition less_eq_ConnectionStatus :: "ConnectionStatus \<Rightarrow> ConnectionStatus \<Rightarrow> bool" where
  "a \<le> b \<longleftrightarrow> status_rank a \<le> status_rank b"

definition less_ConnectionStatus :: "ConnectionStatus \<Rightarrow> ConnectionStatus \<Rightarrow> bool" where
  "a < b \<longleftrightarrow> status_rank a < status_rank b"

instance
  by standard (auto simp: less_eq_ConnectionStatus_def less_ConnectionStatus_def status_rank_inject)

end

lemmas status_order = less_eq_ConnectionStatus_def less_ConnectionStatus_def

section \<open>Concrete states\<close>

text \<open>A world that has nothing to offer, and a connected client, at which the witnesses evaluate.\<close>

definition idle_world :: World where
  "idle_world = \<lparr>reads = [], writes = [], connects = [], nonblocks = [], shutdowns = [],
     rng_calls = 0, trace = []\<rparr>"

definition open_client :: "unit WSClient" where
  "open_client = WSClient_new\<lparr>connection_status := OPEN, stream := Some (TcpStream (ascii ''h'') 80)\<rparr>"

end
