(* ===== verification/Client_Send.thy ===== *)
theory Client_Send
  imports Client_State
begin

text \<open>
  \<^verbatim>\<open>websocket/src/sync/client.rs\<close>, lines 191 to 207: \<open>send\<close> cuts a message into frames and
  queues them. The loop need not end, so it is a partial function: \<open>None\<close> is not returning.
\<close>

section \<open>The operation\<close>

text \<open>One round of the loop: queue the next chunk and return the next value of \<open>data_sent\<close>.\<close>

definition send_step :: "env \<Rightarrow> str \<Rightarrow> nat \<Rightarrow> ('t, nat) cm" where
  "send_step E payload data_sent =
     bindM (getC message_size) (\<lambda>ms.
     let chk = overflow_checks E; size_ms = unat ms in
     bindM (liftO (usize_add chk data_sent size_ms)) (\<lambda>i.
     let i = (if i \<ge> length payload then length payload else i) in
     bindM (liftO (str_slice payload data_sent i)) (\<lambda>payload_chunk.
     bindM (liftO (usize_add chk data_sent size_ms)) (\<lambda>e.
     let fl = (if e \<ge> length payload then FLAG_FIN else FLAG_NOFLAG);
         opc = (if data_sent = 0 then OPCODE_TEXT else OPCODE_CONTINUATION) in
     bindM (\<lambda>(c, w). case DataFrame_new E fl opc payload_chunk True None (rng_calls w) of
              (frame, k) \<Rightarrow>
                (Ok (), (c\<lparr>output_events := output_events c @ [WEBSOCKET_DATA frame]\<rparr>,
                         w\<lparr>rng_calls := k\<rparr>))) (\<lambda>_.
     liftO (usize_add chk data_sent size_ms))))))"

partial_function (option) send_loop ::
    "env \<Rightarrow> str \<Rightarrow> nat \<Rightarrow> 't st \<Rightarrow> ((WebSocketError, unit) outcome \<times> 't st) option" where
  "send_loop E payload data_sent s =
     (if data_sent < length payload then
        (case send_step E payload data_sent s of
           (r, s') \<Rightarrow>
             (case r of
                Ok next \<Rightarrow> send_loop E payload next s'
              | Err e \<Rightarrow> Some (Err e, s')
              | Panic \<Rightarrow> Some (Panic, s')))
      else Some (Ok (), s))"

definition send :: "env \<Rightarrow> str \<Rightarrow> 't st \<Rightarrow> ((WebSocketError, unit) outcome \<times> 't st) option" where
  "send E payload s =
     (if connection_status (fst s) = CLOSE then Some (Ok (), s)
      else send_loop E payload 0 s)"

end
