(* ===== verification/Client_Ops.thy ===== *)
theory Client_Ops
  imports Client_Send
begin

text \<open>
  \<^verbatim>\<open>websocket/src/sync/client.rs\<close>, lines 142 to 175 and 209 to 566: connecting, the event
  loop with its handlers, and the destructor. A method on \<open>&mut self\<close> that returns a
  \<open>WebSocketResult\<close> is a state transformer over the client and the world; the writes made
  before an error or a panic stay.
\<close>

section \<open>System calls and callbacks\<close>

definition tcp_connect :: "('t, unit) cm" where
  "tcp_connect s = (case s of (c, w) \<Rightarrow>
     (case next_answer False (connects w) of
        (ok, rest) \<Rightarrow>
          (if ok then (Ok (), (c, w\<lparr>connects := rest, trace := trace w @ [Connected (host c) (port c)]\<rparr>))
           else (Err UnreachableHost, (c, w\<lparr>connects := rest\<rparr>)))))"

definition set_nonblocking :: "('t, unit) cm" where
  "set_nonblocking s = (case s of (c, w) \<Rightarrow>
     (case next_answer True (nonblocks w) of
        (ok, rest) \<Rightarrow>
          (from_io (if ok then Ok () else Err OtherKind), (c, w\<lparr>nonblocks := rest\<rparr>))))"

definition draw_key :: "env \<Rightarrow> ('t, str) cm" where
  "draw_key E s = (case s of (c, w) \<Rightarrow>
     (Ok (gen_key E (rng_calls w)), (c, w\<lparr>rng_calls := rng_calls w + 1\<rparr>)))"

text \<open>\<open>self.stream.as_mut().unwrap().shutdown(Shutdown::Both)?\<close>\<close>

definition stream_shutdown :: "('t, unit) cm" where
  "stream_shutdown s = (case s of (c, w) \<Rightarrow>
     (case stream c of
        None \<Rightarrow> (Panic, s)
      | Some _ \<Rightarrow>
          (case next_answer True (shutdowns w) of
             (ok, rest) \<Rightarrow>
               (from_io (if ok then Ok () else Err OtherKind),
                (c, w\<lparr>shutdowns := rest, trace := trace w @ [ShutdownBoth]\<rparr>)))))"

text \<open>\<open>callback(self, &event, self.cb_data.clone())\<close>\<close>

definition call_back :: "'t cbk \<Rightarrow> fn_ptr \<Rightarrow> WSEvent \<Rightarrow> ('t, unit) cm" where
  "call_back K f ev s = (case s of (c, w) \<Rightarrow>
     (case K f ev (cb_data c) (c, w\<lparr>trace := trace w @ [Called ev]\<rparr>) of
        (returned, s') \<Rightarrow> (if returned then Ok () else Panic, s')))"

definition try_write :: "u8 list \<Rightarrow> ('t, bool) cm" where
  "try_write bytes s = (case s of (c, w) \<Rightarrow>
     (case stream c of
        None \<Rightarrow> (Panic, s)
      | Some _ \<Rightarrow>
          (case write_all bytes (writes w) of
             (res, sent, rest) \<Rightarrow>
               (case res of
                  Ok _ \<Rightarrow> Ok True
                | Err k \<Rightarrow> if k = WouldBlock then Ok False else Err IOError
                | Panic \<Rightarrow> Panic,
                (c, w\<lparr>writes := rest, trace := trace w @ [Sent sent]\<rparr>)))))"

text \<open>A new masked control frame, with the random draw it makes.\<close>

definition new_control :: "env \<Rightarrow> OPCODE \<Rightarrow> u16 option \<Rightarrow> u8 list \<Rightarrow> ('t, Frame) cm" where
  "new_control E opc status dat s = (case s of (c, w) \<Rightarrow>
     (case ControlFrame_new E FLAG_FIN opc status dat True None (rng_calls w) of
        (frame, k) \<Rightarrow> (Ok frame, (c, w\<lparr>rng_calls := k\<rparr>))))"

definition push_front_output :: "Event \<Rightarrow> ('t, unit) cm" where
  "push_front_output ev = modC (\<lambda>c. c\<lparr>output_events := ev # output_events c\<rparr>)"

section \<open>Connecting\<close>

text \<open>The value of the protocol header: each protocol and a comma, the last comma cut off.\<close>

fun protocols_loop :: "str list \<Rightarrow> str" where
  "protocols_loop [] = []"
| "protocols_loop (p # ps) = p @ ascii '', '' @ protocols_loop ps"

definition protocols_header :: "env \<Rightarrow> str list \<Rightarrow> (WebSocketError, str) outcome" where
  "protocols_header E ps =
     (let protocols_value = protocols_loop ps in
      bindO (usize_sub (overflow_checks E) (length protocols_value) 2) (\<lambda>e.
      str_slice protocols_value 0 e))"

definition handshake_headers :: "str \<Rightarrow> Headers" where
  "handshake_headers key = hashmap_from
     [(ascii ''Upgrade'', ascii ''websocket''),
      (ascii ''Connection'', ascii ''Upgrade''),
      (ascii ''Sec-WebSocket-Key'', key),
      (ascii ''Sec-WebSocket-Version'', ascii ''13''),
      (ascii ''User-agent'', ascii ''rust-websocket-std'')]"

definition start_init :: "env \<Rightarrow> ('t, unit) cm" where
  "start_init E =
     bindM tcp_connect (\<lambda>_.
     bindM (draw_key E) (\<lambda>key.
     bindM (getC acceptable_protocols) (\<lambda>protocols.
     bindM (case protocols of
              None \<Rightarrow> retM (handshake_headers key)
            | Some ps \<Rightarrow>
                bindM (liftO (protocols_header E ps)) (\<lambda>v.
                retM (AList.update (ascii ''Sec-WebSocket-Protocol'') v (handshake_headers key)))) (\<lambda>hs.
     bindM (getC path) (\<lambda>p.
     let request = Request_new GET p (ascii ''HTTP/1.1'') (Some hs) in
     thenM (push_front_output (HTTP_REQUEST request))
     (thenM (modC (\<lambda>c. c\<lparr>websocket_key := key\<rparr>))
     (thenM set_nonblocking
     (thenM (modC (\<lambda>c. c\<lparr>stream := Some (TcpStream (host c) (port c))\<rparr>))
     (modC (\<lambda>c. c\<lparr>connection_status := HANDSHAKE\<rparr>))))))))))"

section \<open>Receiving\<close>

definition handle_recv_bytes_frame :: "env \<Rightarrow> ('t, Event) cm" where
  "handle_recv_bytes_frame E =
     bindM (getC recv_storage) (\<lambda>storage.
     bindM (liftO (bytes_to_frame E storage)) (\<lambda>frame.
     case frame of
       None \<Rightarrow> retM NO_DATA
     | Some (fr, offset) \<Rightarrow>
         thenM (bindM (liftO (slice storage 0 offset)) (\<lambda>_.
                modC (\<lambda>c. c\<lparr>recv_storage := drop offset (recv_storage c)\<rparr>)))
         (retM (WEBSOCKET_DATA fr))))"

definition handle_recv_bytes_http_response :: "env \<Rightarrow> ('t, Event) cm" where
  "handle_recv_bytes_http_response E =
     bindM (getC recv_storage) (\<lambda>storage.
     case Response_parse E storage of
       Panic \<Rightarrow> panicM
     | Err _ \<Rightarrow> retM NO_DATA
     | Ok response \<Rightarrow>
         thenM (modC (\<lambda>c. c\<lparr>recv_storage := []\<rparr>)) (retM (HTTP_RESPONSE response)))"

definition read_bytes_from_socket :: "env \<Rightarrow> ('t, Event) cm" where
  "read_bytes_from_socket E =
     bindM (getC stream) (\<lambda>st.
     bindM (liftO (unwrap_option st)) (\<lambda>_.
     bindM (\<lambda>(c, w).
              case read_into_buffer socket_read (reads w) (replicate 1024 0) of
                (res, rest, buffer) \<Rightarrow>
                  (bindO res (\<lambda>n. Ok (n, buffer)), (c, w\<lparr>reads := rest\<rparr>))) (\<lambda>(bytes_readed, buffer).
     thenM (whenM (bytes_readed > 0)
              (bindM (liftO (slice buffer 0 bytes_readed)) (\<lambda>bs.
               modC (\<lambda>c. c\<lparr>recv_storage := recv_storage c @ bs\<rparr>))))
     (bindM (getC recv_storage) (\<lambda>storage.
      bindM (getC connection_status) (\<lambda>status.
      if length storage > 0 then
        (case status of
           HANDSHAKE \<Rightarrow> handle_recv_bytes_http_response E
         | OPEN \<Rightarrow> handle_recv_bytes_frame E
         | CLIENT_WANTS_TO_CLOSE \<Rightarrow> handle_recv_bytes_frame E
         | SERVER_WANTS_TO_CLOSE \<Rightarrow> handle_recv_bytes_frame E
         | CLOSE \<Rightarrow> retM NO_DATA
         | NOT_INIT \<Rightarrow> retM NO_DATA
         | START_INIT \<Rightarrow> retM NO_DATA)
      else retM NO_DATA))))))"

definition insert_input_event :: "Event \<Rightarrow> ('t, unit) cm" where
  "insert_input_event event =
     (case event of
        WEBSOCKET_DATA frame \<Rightarrow>
          if kind frame = Control
          then modC (\<lambda>c. c\<lparr>input_events := event # input_events c\<rparr>)
          else modC (\<lambda>c. c\<lparr>input_events := input_events c @ [event]\<rparr>)
      | HTTP_RESPONSE _ \<Rightarrow> modC (\<lambda>c. c\<lparr>input_events := input_events c @ [event]\<rparr>)
      | HTTP_REQUEST _ \<Rightarrow> retM ()
      | NO_DATA \<Rightarrow> retM ())"

definition pop_front_input :: "('t, Event option) cm" where
  "pop_front_input s = (case s of (c, w) \<Rightarrow>
     (case input_events c of
        [] \<Rightarrow> (Ok None, (c, w))
      | ev # evs \<Rightarrow> (Ok (Some ev), (c\<lparr>input_events := evs\<rparr>, w))))"

definition pop_output_event :: "('t, Event option) cm" where
  "pop_output_event s = (case s of (c, w) \<Rightarrow>
     (case output_events c of
        [] \<Rightarrow> (Ok None, (c, w))
      | ev # evs \<Rightarrow>
          (if connection_status c = HANDSHAKE \<and> is_websocket_data ev
           then (Ok None, (c\<lparr>output_events := ev # evs\<rparr>, w))
           else (Ok (Some ev), (c\<lparr>output_events := evs\<rparr>, w)))))"

section \<open>Handling what was received\<close>

definition handle_control_frame :: "env \<Rightarrow> 't cbk \<Rightarrow> Frame \<Rightarrow> ('t, unit) cm" where
  "handle_control_frame E K frame =
     (let opcode = get_opcode (get_header frame) in
      if opcode = OPCODE_PING then
        bindM (new_control E OPCODE_PONG None (get_data frame)) (\<lambda>pong_frame.
        push_front_output (WEBSOCKET_DATA pong_frame))
      else if opcode = OPCODE_PONG then panicM
      else if opcode = OPCODE_CLOSE then
        (let dat = get_data frame in
         bindM (liftO (slice dat 0 2)) (\<lambda>status_bytes.
         let status_code =
           (case bytes_to_u16 status_bytes of
              Ok s \<Rightarrow> s
            | _ \<Rightarrow> status_bits EXPECTED_STATUS_CODE) in
         bindM (getC connection_status) (\<lambda>status.
         case status of
           OPEN \<Rightarrow>
             bindM (liftO (slice dat 2 (length dat))) (\<lambda>reason.
             let status_code = (case WSStatus_from_bits E status_code of Some s \<Rightarrow> s | None \<Rightarrow> PROTOCOL_ERROR);
                 status_code = (if fst (evaulate_status_code status_code) then PROTOCOL_ERROR else status_code) in
             thenM (modC (\<lambda>c. c\<lparr>output_events := [], input_events := []\<rparr>))
             (bindM (new_control E OPCODE_CLOSE (Some (status_bits status_code)) reason) (\<lambda>close_frame.
             thenM (push_front_output (WEBSOCKET_DATA close_frame))
             (modC (\<lambda>c. c\<lparr>connection_status := SERVER_WANTS_TO_CLOSE\<rparr>)))))
         | CLIENT_WANTS_TO_CLOSE \<Rightarrow>
             thenM (modC (\<lambda>c. c\<lparr>connection_status := CLOSE\<rparr>))
             (thenM stream_shutdown
             (bindM (getC callback) (\<lambda>cb.
              case cb of
                None \<Rightarrow> retM ()
              | Some f \<Rightarrow>
                  bindM (liftO (unwrap_option (get_status_code frame))) (\<lambda>st.
                  call_back K f (ON_CLOSE (CLIENT_CLOSE st))))))
         | SERVER_WANTS_TO_CLOSE \<Rightarrow> retM ()
         | CLOSE \<Rightarrow> retM ()
         | HANDSHAKE \<Rightarrow> retM ()
         | NOT_INIT \<Rightarrow> retM ()
         | START_INIT \<Rightarrow> retM ())))
      else errM InvalidFrame)"

text \<open>\<open>get_status_code\<close> is read off a value that the downcast has shown to be a control frame.\<close>

definition utf8_msg :: "u8 list \<Rightarrow> ('t, str) cm" where
  "utf8_msg bytes =
     (case from_utf8 bytes of Ok msg \<Rightarrow> retM msg | _ \<Rightarrow> errM DecodingFromUTF8)"

definition handle_recv_frame :: "env \<Rightarrow> 't cbk \<Rightarrow> Frame \<Rightarrow> ('t, unit) cm" where
  "handle_recv_frame E K frame =
     (case kind frame of
        Data \<Rightarrow>
          thenM (whenM (get_flag (get_header frame) \<noteq> FLAG_FIN)
                   (modC (\<lambda>c. c\<lparr>recv_data := recv_data c @ get_data frame\<rparr>)))
          (bindM (getC callback) (\<lambda>cb.
           case cb of
             None \<Rightarrow> retM ()
           | Some f \<Rightarrow>
               bindM (utf8_msg (get_data frame)) (\<lambda>msg.
               bindM (getC recv_data) (\<lambda>previous_data.
               if previous_data = [] then call_back K f (ON_TEXT msg)
               else
                 bindM (utf8_msg previous_data) (\<lambda>completed_msg.
                 thenM (call_back K f (ON_TEXT (completed_msg @ msg)))
                 (modC (\<lambda>c. c\<lparr>recv_data := []\<rparr>)))))))
      | Control \<Rightarrow>
          bindM (liftO (unwrap_option (as_control_frame frame))) (\<lambda>cf.
          handle_control_frame E K cf)
      | NotDefine \<Rightarrow> errM InvalidFrame)"

definition handle_recv_http_response :: "env \<Rightarrow> 't cbk \<Rightarrow> Response \<Rightarrow> ('t, unit) cm" where
  "handle_recv_http_response E K response =
     bindM (getC connection_status) (\<lambda>status.
     if status = HANDSHAKE then
       (case header E response (ascii ''Sec-WebSocket-Accept'') of
          None \<Rightarrow> errM HandShake
        | Some sec_websocket_accept \<Rightarrow>
            bindM (getC websocket_key) (\<lambda>key.
            if \<not> verify_key E key sec_websocket_accept then errM HandShake
            else if get_status response = 0 \<or> get_status response \<noteq> SWITCHING_PROTOCOLS
            then errM HandShake
            else
              thenM (modC (\<lambda>c. c\<lparr>protocol := header E response (ascii ''Sec-WebSocket-Protocol'')\<rparr>))
              (thenM (modC (\<lambda>c. c\<lparr>connection_status := OPEN\<rparr>))
              (bindM (getC callback) (\<lambda>cb.
               case cb of
                 None \<Rightarrow> retM ()
               | Some f \<Rightarrow> call_back K f (ON_CONNECT (body response)))))))
     else retM ())"

section \<open>Sending\<close>

definition handle_send_frame :: "env \<Rightarrow> 't cbk \<Rightarrow> Frame \<Rightarrow> ('t, unit) cm" where
  "handle_send_frame E K frame =
     bindM (try_write (serialize frame)) (\<lambda>sent.
     let knd = kind frame in
     bindM (if knd = Control
            then bindM (liftO (unwrap_option (as_control_frame frame))) (\<lambda>cf. retM (get_status_code cf))
            else retM None) (\<lambda>status.
     thenM (whenM (\<not> sent) (push_front_output (WEBSOCKET_DATA frame)))
     (bindM (getC connection_status) (\<lambda>conn.
      if sent \<and> knd = Control \<and> conn = SERVER_WANTS_TO_CLOSE then
        thenM (modC (\<lambda>c. c\<lparr>connection_status := CLOSE\<rparr>))
        (thenM stream_shutdown
        (thenM (modC (\<lambda>c. c\<lparr>stream := None\<rparr>))
        (bindM (getC callback) (\<lambda>cb.
         case cb of
           None \<Rightarrow> retM ()
         | Some f \<Rightarrow>
             call_back K f (ON_CLOSE (SERVER_CLOSE (case status of Some s \<Rightarrow> s | None \<Rightarrow> 0)))))))
      else retM ()))))"

definition handle_send_http_request :: "env \<Rightarrow> Request \<Rightarrow> ('t, unit) cm" where
  "handle_send_http_request E request =
     bindM (try_write (Request_serialize E request)) (\<lambda>sent.
     whenM (\<not> sent) (push_front_output (HTTP_REQUEST request)))"

definition handle_event :: "env \<Rightarrow> 't cbk \<Rightarrow> Event \<Rightarrow> EventIO \<Rightarrow> ('t, unit) cm" where
  "handle_event E K event io =
     (case io of
        INPUT \<Rightarrow>
          (case event of
             WEBSOCKET_DATA frame \<Rightarrow> handle_recv_frame E K frame
           | HTTP_RESPONSE response \<Rightarrow> handle_recv_http_response E K response
           | HTTP_REQUEST _ \<Rightarrow> retM ()
           | NO_DATA \<Rightarrow> retM ())
      | OUTPUT \<Rightarrow>
          (case event of
             WEBSOCKET_DATA frame \<Rightarrow> handle_send_frame E K frame
           | HTTP_REQUEST request \<Rightarrow> handle_send_http_request E request
           | HTTP_RESPONSE _ \<Rightarrow> retM ()
           | NO_DATA \<Rightarrow> retM ()))"

section \<open>The event loop\<close>

definition handle_some :: "env \<Rightarrow> 't cbk \<Rightarrow> EventIO \<Rightarrow> Event option \<Rightarrow> ('t, unit) cm" where
  "handle_some E K io ev =
     (case ev of None \<Rightarrow> retM () | Some e \<Rightarrow> handle_event E K e io)"

definition event_loop :: "env \<Rightarrow> 't cbk \<Rightarrow> ('t, unit) cm" where
  "event_loop E K =
     bindM (getC connection_status) (\<lambda>status.
     if status = NOT_INIT then retM ()
     else if status = START_INIT then start_init E
     else if status = CLOSE then errM ConnectionClose
     else
       bindM (read_bytes_from_socket E) (\<lambda>event.
       thenM (insert_input_event event)
       (bindM pop_front_input (\<lambda>in_event.
        bindM pop_output_event (\<lambda>out_event.
        thenM (handle_some E K INPUT in_event)
        (handle_some E K OUTPUT out_event))))))"

section \<open>The destructor\<close>

text \<open>
  \<open>elapsed k\<close> is the number of whole seconds since the destructor started, at the \<open>k\<close>-th time
  the loop looks at the clock. The loop is a partial function: \<open>None\<close> is not returning.
\<close>

partial_function (option) drop_loop ::
    "env \<Rightarrow> 't cbk \<Rightarrow> (nat \<Rightarrow> nat) \<Rightarrow> nat \<Rightarrow> 't st \<Rightarrow>
     ((WebSocketError, unit) outcome \<times> 't st) option"
  where
  "drop_loop E K elapsed k s =
     (if connection_status (fst s) \<noteq> CLOSE then
        (if elapsed k \<ge> as_secs (timeout (fst s)) then Some (Ok (), s)
         else
           (case event_loop E K s of
              (r, s') \<Rightarrow>
                (case r of
                   Ok _ \<Rightarrow> drop_loop E K elapsed (Suc k) s'
                 | Err _ \<Rightarrow> Some (Ok (), s')
                 | Panic \<Rightarrow> Some (Panic, s'))))
      else Some (Ok (), s))"

text \<open>The result of the last \<open>shutdown\<close> is ignored.\<close>

definition drop_client ::
    "env \<Rightarrow> 't cbk \<Rightarrow> (nat \<Rightarrow> nat) \<Rightarrow> 't st \<Rightarrow> ((WebSocketError, unit) outcome \<times> 't st) option"
  where
  "drop_client E K elapsed s =
     (let c = fst s in
      if connection_status c \<noteq> NOT_INIT \<and> connection_status c \<noteq> HANDSHAKE \<and>
         connection_status c \<noteq> CLOSE \<and> stream c \<noteq> None
      then
        (case bindM (new_control E OPCODE_CLOSE (Some 1000) (ascii ''Done'')) (\<lambda>close_frame.
                modC (\<lambda>c. c\<lparr>output_events := [WEBSOCKET_DATA close_frame], input_events := [],
                            connection_status := CLIENT_WANTS_TO_CLOSE\<rparr>)) s of
           (_, s1) \<Rightarrow>
             (case drop_loop E K elapsed 0 s1 of
                None \<Rightarrow> None
              | Some (Ok _, s2) \<Rightarrow>
                  Some (case stream_shutdown s2 of
                          (Panic, s3) \<Rightarrow> (Panic, s3)
                        | (_, s3) \<Rightarrow> (Ok (), s3))
              | Some (r, s2) \<Rightarrow> Some (r, s2)))
      else Some (Ok (), s))"

end
