(* ===== verification/Frame_Props.thy ===== *)
theory Frame_Props
  imports Rfc6455
begin

unbundle bit_operations_syntax

text \<open>
  The properties of the frame layer: what a conforming peer reads off the bytes that the
  constructors of \<^verbatim>\<open>websocket/src/ws_basic/frame.rs\<close> and \<open>serialize\<close> produce, and what
  \<open>bytes_to_frame\<close> makes of the bytes that a peer sends.
\<close>

section \<open>Helper lemmas\<close>

text \<open>The slice \<open>0..124-status_len\<close> of the truncation is a prefix of the data.\<close>

lemma truncation_in_range:
  fixes dat :: "u8 list" and status_len :: nat
  assumes "length dat + status_len > 125" and "status_len \<le> 2"
  shows "slice dat 0 (124 - status_len) = (Ok (take (124 - status_len) dat) :: ('e, u8 list) outcome)"
  using assms by simp

text \<open>The bits of a frame's first byte, when flag and opcode keep to their nibbles.\<close>

definition plain_bits :: "FLAG \<Rightarrow> OPCODE \<Rightarrow> bool" where
  "plain_bits fl opc \<longleftrightarrow> flag_bits fl AND 0x0F = 0 \<and> opcode_bits opc AND 0xF0 = 0"

lemma plain_bits_declared [simp]:
  "fl \<in> {FLAG_FIN, FLAG_NOFLAG} \<Longrightarrow>
   opc \<in> {OPCODE_CONTINUATION, OPCODE_TEXT, OPCODE_BINARY, OPCODE_CLOSE, OPCODE_PING, OPCODE_PONG} \<Longrightarrow>
   plain_bits fl opc"
  by (auto simp: plain_bits_def flag_defs opcode_defs)

definition wire_frame :: "FLAG \<Rightarrow> OPCODE \<Rightarrow> bool \<Rightarrow> u8 list \<Rightarrow> rfc_frame" where
  "wire_frame fl opc masked dat =
     \<lparr>rfc_fin = bit (flag_bits fl) 7, rfc_rsv = flag_bits fl AND 0x70,
      rfc_opcode = opcode_bits opc, rfc_masked = masked, rfc_payload = dat\<rparr>"

lemma DataFrame_new_fields:
  "kind (fst (DataFrame_new E fl opc dat masked m k)) = kind (DataFrame (Header_new fl opc None 0) [])"
  "get_data (fst (DataFrame_new E fl opc dat masked m k)) = dat"
  "flag (get_header (fst (DataFrame_new E fl opc dat masked m k))) = fl"
  "code (get_header (fst (DataFrame_new E fl opc dat masked m k))) = opc"
  "payload_len (get_header (fst (DataFrame_new E fl opc dat masked m k))) = of_nat (length dat)"
  "mask_key (get_header (fst (DataFrame_new E fl opc dat masked m k))) = fst (get_mask E masked m k)"
  by (simp_all add: DataFrame_new_def kind_def split: prod.split)

lemma fst_get_mask_None: "fst (get_mask E masked m k) = None \<longleftrightarrow> \<not> masked \<and> m = None"
  by (cases m) (simp_all add: get_mask_def)

text \<open>The bytes a control frame carries: the status code and the data.\<close>

definition control_payload :: "u16 option \<Rightarrow> u8 list \<Rightarrow> u8 list" where
  "control_payload st dat = (case st of Some s \<Rightarrow> u16_to_be_bytes s | None \<Rightarrow> []) @ dat"

lemma length_control_payload:
  "length (control_payload st dat) = length dat + (if st \<noteq> None then 2 else 0)"
  by (simp add: control_payload_def u16.length_enc split: option.split)

lemma ControlFrame_new_short:
  "length (control_payload st dat) \<le> 125 \<Longrightarrow>
   ControlFrame_new E fl opc st dat masked m k =
     (ControlFrame (Header_new fl opc (fst (get_mask E masked m k)) (of_nat (length (control_payload st dat))))
        (control_payload st dat) st, snd (get_mask E masked m k))"
  by (cases st) (simp_all add: ControlFrame_new_def control_payload_def u16.length_enc split: prod.split)

lemma ControlFrame_new_long:
  "length (control_payload st dat) > 125 \<Longrightarrow>
   ControlFrame_new E fl opc st dat masked m k =
     (ControlFrame (Header_new fl opc (fst (get_mask E masked m k)) 125)
        (take 124 (control_payload st dat)) st, snd (get_mask E masked m k))"
  by (cases st) (simp_all add: ControlFrame_new_def control_payload_def u16.length_enc split: prod.split)

section \<open>What a peer reads\<close>

text \<open>
  C14: A conforming peer that reads the serialisation of a data frame built by
  \<open>DataFrame::new\<close> off its stream, whatever follows on the stream, decodes exactly one frame:
  the flag bits, the opcode and the unmasked payload are those the frame was built with, the
  mask bit is set when a mask was asked for or given, and the bytes that follow are left.
\<close>

theorem data_frame_on_the_wire:
  assumes "plain_bits fl opc" and "length dat < 2 ^ 64"
  shows "rfc_decode (serialize (fst (DataFrame_new E fl opc dat masked m k)) @ rest) =
    Some (wire_frame fl opc (masked \<or> m \<noteq> None) dat, rest)"
proof -
  let ?f = "fst (DataFrame_new E fl opc dat masked m k)"
  have "frame_ok ?f"
    using assms by (simp add: frame_ok_def DataFrame_new_fields plain_bits_def unat_of_nat)
  moreover have "rfc_view ?f = wire_frame fl opc (masked \<or> m \<noteq> None) dat"
    by (auto simp: rfc_view_def wire_frame_def DataFrame_new_fields fst_get_mask_None)
  ultimately show ?thesis by (simp add: serialize_decodes)
qed

theorem data_frame_on_the_wire_witness:
  "rfc_decode (serialize (fst (DataFrame_new sample_env FLAG_FIN OPCODE_TEXT (ascii ''Hi'') True None 3)) @ [7]) =
    Some (wire_frame FLAG_FIN OPCODE_TEXT True (ascii ''Hi''), [7])"
  using data_frame_on_the_wire [of FLAG_FIN OPCODE_TEXT "ascii ''Hi''" sample_env True None 3 "[7]"]
  by simp

lemma control_frame_wire:
  assumes "plain_bits fl opc" and "length (control_payload st dat) \<le> 125"
  shows "rfc_decode (serialize (fst (ControlFrame_new E fl opc st dat masked m k)) @ rest) =
    Some (wire_frame fl opc (masked \<or> m \<noteq> None) (control_payload st dat), rest)"
proof -
  let ?f = "fst (ControlFrame_new E fl opc st dat masked m k)"
  note new = ControlFrame_new_short [OF assms(2)]
  have "frame_ok ?f"
    using assms by (simp add: frame_ok_def new plain_bits_def unat_of_nat)
  moreover have "rfc_view ?f = wire_frame fl opc (masked \<or> m \<noteq> None) (control_payload st dat)"
    by (auto simp: rfc_view_def wire_frame_def new fst_get_mask_None)
  ultimately show ?thesis by (simp add: serialize_decodes)
qed

text \<open>
  C15: A conforming peer decodes the serialisation of a control frame built by
  \<open>ControlFrame::new\<close> whose status code and data take at most 125 bytes together to the
  frame with exactly that payload, and leaves the bytes that follow.
\<close>

theorem control_frame_on_the_wire:
  assumes "plain_bits fl opc" and "length (control_payload st dat) \<le> 125"
  shows "rfc_decode (serialize (fst (ControlFrame_new E fl opc st dat masked m k)) @ rest) =
    Some (wire_frame fl opc (masked \<or> m \<noteq> None) (control_payload st dat), rest)"
  using assms by (rule control_frame_wire)

theorem control_frame_on_the_wire_witness:
  "rfc_decode (serialize (fst (ControlFrame_new sample_env FLAG_FIN OPCODE_CLOSE (Some 1000)
      (ascii ''Done'') True None 0))) =
    Some (wire_frame FLAG_FIN OPCODE_CLOSE True (control_payload (Some 1000) (ascii ''Done'')), [])"
  using control_frame_on_the_wire [of FLAG_FIN OPCODE_CLOSE "Some 1000" "ascii ''Done''" sample_env True None 0 "[]"]
  by (simp add: length_control_payload)


text \<open>Decoding looks only at the frame's own bytes.\<close>

lemma rfc_length_append:
  "rfc_length l bs = Some nk \<Longrightarrow> rfc_length l (bs @ ys) = Some nk"
  by (auto simp: rfc_length_def split: if_splits)

lemma rfc_length_consumes: "rfc_length l bs = Some (n, k) \<Longrightarrow> k \<le> length bs"
  by (auto simp: rfc_length_def split: if_splits)

lemma rfc_decode_append:
  "rfc_decode bs = Some (f, r) \<Longrightarrow> rfc_decode (bs @ ys) = Some (f, r @ ys)"
proof (induction bs rule: rfc_decode.induct)
  case (1 b0 b1 bs)
  obtain n k where nk: "rfc_length (unat (b1 AND 0x7F)) bs = Some (n, k)"
    using "1.prems" by (auto split: option.splits)
  with "1.prems" show ?case
    by (auto simp: rfc_length_append [OF nk] Let_def split: if_splits)
qed simp_all

lemma rfc_decode_shorter:
  assumes "rfc_decode (bs @ [b]) = Some (f, [])"
  shows "rfc_decode bs = None"
proof (cases "rfc_decode bs")
  case (Some fr)
  then obtain g r where "rfc_decode bs = Some (g, r)" by (cases fr) auto
  from rfc_decode_append [OF this, of "[b]"] assms show ?thesis by simp
qed

lemma mask_loop_append:
  assumes "i < length m"
  shows "mask_loop m i (xs @ [x]) = mask_loop m i xs @ [x XOR m ! ((i + length xs) mod length m)]"
  using assms by (intro nth_equalityI) (auto simp: nth_mask_loop nth_append less_Suc_eq)

lemma serialize_fields:
  "get_header f = get_header g \<Longrightarrow> get_data f = get_data g \<Longrightarrow> serialize f = serialize g"
  by (simp add: serialize_def split: option.split)

text \<open>The bytes of a frame are those of the frame without its last byte, and one more.\<close>

lemma serialize_snoc:
  "\<exists>x. serialize (DataFrame h (dat @ [x])) = serialize (DataFrame h dat) @ [b]"
proof (cases "mask_key h")
  case None
  then show ?thesis by (simp add: serialize_def)
next
  case (Some m)
  let ?x = "b XOR mask_bytes m ! (length dat mod 4)"
  have "serialize (DataFrame h (dat @ [?x])) = serialize (DataFrame h dat) @ [b]"
    using Some by (simp add: serialize_def mask_loop_append xor.assoc)
  then show ?thesis ..
qed

text \<open>
  C32: A control frame whose status code and data take more than 125 bytes is truncated to
  124 payload bytes under a header that announces 125. A peer cannot decode it on its own:
  it waits for one more byte, takes the first byte of whatever is sent next as the last
  payload byte, and is out of step with the stream from then on.
\<close>

theorem oversized_control_frame:
  assumes "plain_bits fl opc" and "length (control_payload st dat) > 125"
  shows "rfc_decode (serialize (fst (ControlFrame_new E fl opc st dat masked m k))) = None \<and>
    (\<exists>x. rfc_decode (serialize (fst (ControlFrame_new E fl opc st dat masked m k)) @ b # rest) =
           Some (wire_frame fl opc (masked \<or> m \<noteq> None) (take 124 (control_payload st dat) @ [x]), rest))"
proof -
  let ?f = "fst (ControlFrame_new E fl opc st dat masked m k)"
  let ?h = "get_header ?f"
  let ?d = "take 124 (control_payload st dat)"
  note new = ControlFrame_new_long [OF assms(2)]
  have f: "serialize ?f = serialize (DataFrame ?h ?d)"
    by (rule serialize_fields) (simp_all add: new)
  have step: "\<exists>x. \<forall>rest. rfc_decode (serialize ?f @ [b] @ rest) =
      Some (wire_frame fl opc (masked \<or> m \<noteq> None) (?d @ [x]), rest)" for b
  proof -
    obtain x where x: "serialize (DataFrame ?h (?d @ [x])) = serialize ?f @ [b]"
      using serialize_snoc [of ?h ?d b] f by auto
    have "frame_ok (DataFrame ?h (?d @ [x]))"
      using assms by (simp add: frame_ok_def new plain_bits_def)
    moreover have "rfc_view (DataFrame ?h (?d @ [x])) = wire_frame fl opc (masked \<or> m \<noteq> None) (?d @ [x])"
      by (auto simp: rfc_view_def wire_frame_def new fst_get_mask_None)
    ultimately show ?thesis
      using serialize_decodes [of "DataFrame ?h (?d @ [x])"] x by (metis append.assoc)
  qed
  from step [of 0] obtain x where "rfc_decode (serialize ?f @ [0] @ []) =
      Some (wire_frame fl opc (masked \<or> m \<noteq> None) (?d @ [x]), [])" by blast
  then have "rfc_decode (serialize ?f) = None"
    using rfc_decode_shorter [of "serialize ?f" 0] by (metis append_Nil2)
  with step [of b] show ?thesis by auto
qed

theorem oversized_control_frame_witness:
  "rfc_decode (serialize (fst (ControlFrame_new sample_env FLAG_FIN OPCODE_CLOSE (Some 1000)
      (replicate 124 65) True None 0))) = None"
  using oversized_control_frame [of FLAG_FIN OPCODE_CLOSE "Some 1000" "replicate 124 65" sample_env True None 0]
  by (simp add: length_control_payload)

section \<open>What the parser reads\<close>

text \<open>
  C7: On a buffer shorter than \<open>2^63\<close> bytes, \<open>bytes_to_frame\<close> computes the closed form
  \<open>parse_spec\<close>, in every build profile: with overflow checks and without them it accepts,
  rejects, waits and panics on the same inputs.
\<close>

theorem bytes_to_frame_spec:
  assumes "bitflags_ok E" and "length bytes < 2 ^ 63"
  shows "bytes_to_frame E bytes = parse_spec bytes"
  using assms by (rule bytes_to_frame_parse)

theorem bytes_to_frame_spec_witness:
  "bytes_to_frame sample_env [0x81, 3, 65, 66, 67, 0x89] = parse_spec [0x81, 3, 65, 66, 67, 0x89]"
  by (rule bytes_to_frame_spec [OF sample_env_bitflags]) simp


text \<open>
  C23: The parser panics exactly in these cases, on a first byte it accepts: the buffer ends
  inside the extended length field; the frame would end past the address space; or a control
  frame is complete and its payload is shorter than its own header, which for the common
  two-byte header means a payload of less than two bytes, such as an empty ping.
\<close>

theorem parser_panics:
  assumes "bitflags_ok E" and "length bytes < 2 ^ 63"
  shows "bytes_to_frame E bytes = Panic \<longleftrightarrow>
    (\<exists>b0 b1 bs. bytes = b0 # b1 # bs \<and> b0 AND 0x14 = 0 \<and>
       (case rfc_length (unat (b1 AND 0x7F)) bs of
          None \<Rightarrow> True
        | Some (n, k) \<Rightarrow>
            2 ^ 64 \<le> n + (2 + k) \<or>
            b0 AND 0x0B \<notin> {0, 1, 2} \<and> n \<le> length bs - k \<and> n < 2 + k))"
  unfolding bytes_to_frame_parse [OF assms]
  by (cases bytes rule: parse_spec.cases) (auto simp: Let_def split: option.splits)

theorem parser_panics_witness: "bytes_to_frame sample_env [0x89, 0] = Panic"
  using parser_panics [OF sample_env_bitflags, of "[0x89, 0]"]
  by (simp add: rfc_length_def)

text \<open>Taking a frame apart: the facts that the conforming reader and the parser share.\<close>

lemma rfc_decode_cases:
  assumes "rfc_decode bytes = Some (f, rest)"
  obtains b0 b1 bs n k where "bytes = b0 # b1 # bs"
    and "rfc_length (unat (b1 AND 0x7F)) bs = Some (n, k)"
    and "rfc_fin f = bit b0 7" and "rfc_rsv f = b0 AND 0x70" and "rfc_opcode f = b0 AND 0x0F"
    and "rfc_masked f = bit b1 7"
    and "k + (if rfc_masked f then 4 else 0) + n \<le> length bs"
    and "\<not> rfc_masked f \<longrightarrow> rfc_payload f = take n (drop k bs)"
    and "rest = drop (k + (if rfc_masked f then 4 else 0) + n) bs"
    and "length (rfc_payload f) = n"
proof (cases bytes rule: rfc_decode.cases)
  case (1 b0 b1 bs)
  obtain n k where nk: "rfc_length (unat (b1 AND 0x7F)) bs = Some (n, k)"
    using assms 1 by (auto split: option.splits)
  show thesis
    by (rule that [OF 1 nk]) (use assms 1 nk in \<open>auto simp: Let_def rfc_unmask_def add.commute split: if_splits\<close>)
qed (use assms in simp_all)

lemma first_byte_split:
  fixes b :: u8
  assumes "(b AND 0x70) AND 0x10 = 0" and "b AND 0x0F \<in> {0, 1, 2, 8, 9, 10}"
  shows "b AND 0x14 = 0" and "b AND 0x0B = b AND 0x0F"
    and "b AND 0xF0 = (if bit b 7 then 0x80 else 0) OR (b AND 0x70)"
proof -
  have op: "\<not> bit b 2" "bit b 3 \<longrightarrow> \<not> bit b 2"
    using assms(2) unfolding u8_eq_bits insert_iff empty_iff by (auto simp: bit_simps)
  show "b AND 0x14 = 0" and "b AND 0x0B = b AND 0x0F"
    and "b AND 0xF0 = (if bit b 7 then 0x80 else 0) OR (b AND 0x70)"
    using assms(1) op unfolding u8_eq_bits by (auto simp: bit_simps)
qed


text \<open>Whether a frame of the wire is one the client knows: no third reserved bit, a declared opcode.\<close>

definition known_frame :: "u8 set \<Rightarrow> rfc_frame \<Rightarrow> bool" where
  "known_frame opcodes f \<longleftrightarrow> rfc_rsv f AND 0x10 = 0 \<and> rfc_opcode f \<in> opcodes"

definition wire_flags :: "rfc_frame \<Rightarrow> FLAG" where
  "wire_flags f = FLAG ((if rfc_fin f then 0x80 else 0) OR rfc_rsv f)"

lemma parse_data_frame:
  assumes "rfc_decode bytes = Some (f, rest)" and "length bytes < 2 ^ 63"
    and "known_frame {0, 1, 2} f"
  shows "\<exists>k. bytes = take k bytes @ drop k bytes \<and> 2 \<le> k \<and>
    k + (if rfc_masked f then 4 else 0) + length (rfc_payload f) + length rest = length bytes \<and>
    rest = drop (k + (if rfc_masked f then 4 else 0) + length (rfc_payload f)) bytes \<and>
    (\<not> rfc_masked f \<longrightarrow> rfc_payload f = take (length (rfc_payload f)) (drop k bytes)) \<and>
    parse_spec bytes = Ok (Some (DataFrame
      (Header_new (wire_flags f) (OPCODE (rfc_opcode f)) None (of_nat (length (rfc_payload f))))
      (take (length (rfc_payload f)) (drop k bytes)), k + length (rfc_payload f)))"
proof -
  from assms(1) obtain b0 b1 bs n k where b: "bytes = b0 # b1 # bs"
    and nk: "rfc_length (unat (b1 AND 0x7F)) bs = Some (n, k)"
    and f: "rfc_fin f = bit b0 7" "rfc_rsv f = b0 AND 0x70" "rfc_opcode f = b0 AND 0x0F"
      "rfc_masked f = bit b1 7"
    and len: "k + (if rfc_masked f then 4 else 0) + n \<le> length bs"
    and pay: "\<not> rfc_masked f \<longrightarrow> rfc_payload f = take n (drop k bs)"
    and rest: "rest = drop (k + (if rfc_masked f then 4 else 0) + n) bs"
    and n: "length (rfc_payload f) = n"
    by (rule rfc_decode_cases)
  have opc: "(b0 AND 0x70) AND 0x10 = 0" "b0 AND 0x0F \<in> {0, 1, 2}"
    using assms(3) unfolding known_frame_def f by blast+
  then have b0: "b0 AND 0x14 = 0" "b0 AND 0x0B = b0 AND 0x0F"
      "b0 AND 0xF0 = (if bit b0 7 then 0x80 else 0) OR (b0 AND 0x70)"
    by (intro first_byte_split; blast)+
  have fits: "\<not> 2 ^ 64 \<le> n + (2 + k)" "\<not> length (drop k bs) < n"
    using len assms(2) b by (auto split: if_splits)
  have "parse_spec bytes = Ok (Some (DataFrame
      (Header_new (wire_flags f) (OPCODE (rfc_opcode f)) None (of_nat n))
      (take n (drop k bs)), 2 + k + n))"
    using opc(2) fits
    by (simp only: b parse_spec.simps nk option.case prod.case Let_def b0 if_False if_True simp_thms
        wire_flags_def f(1-3) n not_True_eq_False)
  then show ?thesis using len pay n
    by (intro exI [of _ "2 + k"]) (auto simp: b rest add.assoc)
qed

text \<open>
  C24: What a conforming reader decodes as an unmasked data frame with a declared opcode,
  \<open>bytes_to_frame\<close> reads as a data frame with the same payload, the same opcode and the same
  fin and reserved bits, and the offset it reports is where the next frame starts.
\<close>

theorem unmasked_data_frame_parses:
  assumes "bitflags_ok E" and "length bytes < 2 ^ 63"
    and "rfc_decode bytes = Some (f, rest)" and "\<not> rfc_masked f" and "known_frame {0, 1, 2} f"
  shows "\<exists>fr offset. bytes_to_frame E bytes = Ok (Some (fr, offset)) \<and>
    kind fr = Data \<and> get_data fr = rfc_payload f \<and>
    get_flag (get_header fr) = wire_flags f \<and>
    opcode_bits (get_opcode (get_header fr)) = rfc_opcode f \<and>
    offset \<le> length bytes \<and> drop offset bytes = rest"
proof -
  from parse_data_frame [OF assms(3,2,5)] assms(4) obtain k where k:
    "k + length (rfc_payload f) + length rest = length bytes"
    "rest = drop (k + length (rfc_payload f)) bytes"
    "rfc_payload f = take (length (rfc_payload f)) (drop k bytes)"
    "parse_spec bytes = Ok (Some (DataFrame
      (Header_new (wire_flags f) (OPCODE (rfc_opcode f)) None (of_nat (length (rfc_payload f))))
      (take (length (rfc_payload f)) (drop k bytes)), k + length (rfc_payload f)))"
    by auto
  let ?fr = "DataFrame
      (Header_new (wire_flags f) (OPCODE (rfc_opcode f)) None (of_nat (length (rfc_payload f))))
      (take (length (rfc_payload f)) (drop k bytes))"
  have kind: "kind ?fr = Data"
    using assms(5) by (auto simp: kind_def known_frame_def opcode_defs)
  show ?thesis
    using k kind
    by (intro exI [of _ ?fr] exI [of _ "k + length (rfc_payload f)"])
       (simp add: bytes_to_frame_parse [OF assms(1,2)])
qed

theorem unmasked_data_frame_parses_witness:
  "\<exists>fr offset. bytes_to_frame sample_env [0x81, 2, 72, 105, 9] = Ok (Some (fr, offset)) \<and>
    get_data fr = [72, 105] \<and> drop offset [0x81, 2, 72, 105, 9 :: u8] = [9]"
proof -
  have "rfc_decode [0x81, 2, 72, 105, 9] = Some (wire_frame FLAG_FIN OPCODE_TEXT False [72, 105], [9])"
    by (simp add: rfc_length_def wire_frame_def flag_defs opcode_defs bit_simps)
  moreover have "known_frame {0, 1, 2} (wire_frame FLAG_FIN OPCODE_TEXT False [72, 105])"
    by (simp add: wire_frame_def known_frame_def flag_defs opcode_defs)
  ultimately show ?thesis
    using unmasked_data_frame_parses [OF sample_env_bitflags, of "[0x81, 2, 72, 105, 9]"]
    by (fastforce simp: wire_frame_def)
qed


text \<open>
  C33: The parser does not recognise the mask bit. A masked data frame is read as one whose
  payload starts with the masking key, and its last four bytes stay in the buffer in front
  of the next frame.
\<close>

theorem masked_data_frame_misparsed:
  assumes "bitflags_ok E" and "length bytes < 2 ^ 63"
    and "rfc_decode bytes = Some (f, rest)" and "rfc_masked f" and "known_frame {0, 1, 2} f"
  shows "\<exists>fr offset left. bytes_to_frame E bytes = Ok (Some (fr, offset)) \<and>
    mask_key (get_header fr) = None \<and> length (get_data fr) = length (rfc_payload f) \<and>
    drop offset bytes = left @ rest \<and> length left = 4"
proof -
  let ?n = "length (rfc_payload f)"
  from parse_data_frame [OF assms(3,2,5)] assms(4) obtain k where k:
    "k + 4 + ?n + length rest = length bytes" "rest = drop (k + 4 + ?n) bytes"
    "parse_spec bytes = Ok (Some (DataFrame
      (Header_new (wire_flags f) (OPCODE (rfc_opcode f)) None (of_nat ?n)) (take ?n (drop k bytes)), k + ?n))"
    by auto
  have "drop (k + ?n) bytes = take 4 (drop (k + ?n) bytes) @ drop 4 (drop (k + ?n) bytes)"
    by (rule append_take_drop_id [symmetric])
  also have "drop 4 (drop (k + ?n) bytes) = rest" by (simp add: k(2) add.commute add.left_commute)
  finally have "drop (k + ?n) bytes = take 4 (drop (k + ?n) bytes) @ rest" .
  moreover have "length (take 4 (drop (k + ?n) bytes)) = 4" "length (take ?n (drop k bytes)) = ?n"
    using k(1) by simp_all
  ultimately show ?thesis
    unfolding bytes_to_frame_parse [OF assms(1,2)] k(3)
    by (intro exI conjI) (rule refl | simp only: Frame.sel Header_new_simps)+
qed

theorem masked_data_frame_misparsed_witness:
  "\<exists>fr offset left. bytes_to_frame sample_env [0x82, 0x81, 1, 2, 3, 4, 66, 9] = Ok (Some (fr, offset)) \<and>
    mask_key (get_header fr) = None \<and> length (get_data fr) = 1 \<and>
    drop offset [0x82, 0x81, 1, 2, 3, 4, 66, 9 :: u8] = left @ [9] \<and> length left = 4"
proof -
  let ?f = "wire_frame FLAG_FIN OPCODE_BINARY True [67]"
  have "rfc_decode [0x82, 0x81, 1, 2, 3, 4, 66, 9] = Some (?f, [9])"
    by (simp add: rfc_length_def rfc_unmask_def wire_frame_def flag_defs opcode_defs bit_simps)
  moreover have "known_frame {0, 1, 2} ?f" and "rfc_masked ?f" and "length (rfc_payload ?f) = 1"
    by (simp_all add: wire_frame_def known_frame_def flag_defs opcode_defs)
  ultimately show ?thesis
    using masked_data_frame_misparsed [OF sample_env_bitflags, of "[0x82, 0x81, 1, 2, 3, 4, 66, 9]" ?f "[9]"]
    by simp
qed

text \<open>The short form of the length: one byte, as RFC 6455 requires of control frames.\<close>

definition short_form :: "u8 list \<Rightarrow> bool" where
  "short_form bytes \<longleftrightarrow> (case bytes of b0 # b1 # _ \<Rightarrow> unat (b1 AND 0x7F) < 126 | _ \<Rightarrow> False)"

lemma parse_control_frame:
  assumes "bitflags_ok E" and "length bytes < 2 ^ 63"
    and "rfc_decode bytes = Some (f, rest)" and "\<not> rfc_masked f" and "known_frame {8, 9, 10} f"
    and "short_form bytes" and "2 \<le> length (rfc_payload f)"
  shows "bytes_to_frame E bytes =
    Ok (Some (ControlFrame (Header_new (wire_flags f) (OPCODE (rfc_opcode f)) None
                 (of_nat (length (rfc_payload f))))
               (rfc_payload f) (Some (u16_from_be_bytes (take 2 (rfc_payload f)))),
              2 + length (rfc_payload f))) \<and>
    drop (2 + length (rfc_payload f)) bytes = rest"
proof -
  from assms(3) obtain b0 b1 bs n k where b: "bytes = b0 # b1 # bs"
    and nk: "rfc_length (unat (b1 AND 0x7F)) bs = Some (n, k)"
    and f: "rfc_fin f = bit b0 7" "rfc_rsv f = b0 AND 0x70" "rfc_opcode f = b0 AND 0x0F"
      "rfc_masked f = bit b1 7"
    and len: "k + (if rfc_masked f then 4 else 0) + n \<le> length bs"
    and pay: "\<not> rfc_masked f \<longrightarrow> rfc_payload f = take n (drop k bs)"
    and rest: "rest = drop (k + (if rfc_masked f then 4 else 0) + n) bs"
    and n: "length (rfc_payload f) = n"
    by (rule rfc_decode_cases)
  have "k = 0" and n125: "n \<le> 125" using nk assms(6) by (auto simp: b short_form_def rfc_length_def)
  note facts = len [unfolded this(1)] pay [unfolded this(1)] rest [unfolded this(1)]
  have opc: "(b0 AND 0x70) AND 0x10 = 0" "b0 AND 0x0F \<in> {8, 9, 10}"
    using assms(5) unfolding known_frame_def f by blast+
  then have b0: "b0 AND 0x14 = 0" "b0 AND 0x0B = b0 AND 0x0F"
      "b0 AND 0xF0 = (if bit b0 7 then 0x80 else 0) OR (b0 AND 0x70)"
    by (intro first_byte_split; blast)+
  have no: "b0 AND 0x0F \<notin> {0, 1, 2}" using opc(2) by auto
  have "min 125 n = n" using n125 by simp
  have p: "rfc_payload f = take 2 bs @ take (n - 2) (drop 2 bs)"
    using facts(2) assms(4,7) n by (metis drop0 le_add_diff_inverse take_add)
  have t: "take 2 (rfc_payload f) = take 2 bs"
    using facts(2) assms(4,7) n by (simp add: min_def)
  have dat: "length (take (n - 2) (drop 2 bs)) + 2 = n"
    using facts(1) assms(4,7) n by simp
  have c: "control_of (wire_flags f) (OPCODE (rfc_opcode f)) (take 2 bs) (take (n - 2) (drop 2 bs)) =
      ControlFrame (Header_new (wire_flags f) (OPCODE (rfc_opcode f)) None (of_nat n)) (rfc_payload f)
        (Some (u16_from_be_bytes (take 2 (rfc_payload f))))"
    unfolding control_of_def dat \<open>min 125 n = n\<close> t p [symmetric] using n125 by (simp add: p)
  have fits: "\<not> 2 ^ 64 \<le> n + (2 + 0)" "\<not> length bs < n" "\<not> n < 2 + 0"
    using facts(1) assms(2,7) b n by (auto split: if_splits)
  have "parse_spec bytes = Ok (Some (control_of (FLAG (b0 AND 0xF0)) (OPCODE (b0 AND 0x0F))
      (take 2 bs) (take (n - 2) (drop 2 bs)), 2 + n))"
    using no fits nk by (simp add: b b0(1,2) \<open>k = 0\<close> numeral_2_eq_2)
  also have "FLAG (b0 AND 0xF0) = wire_flags f" unfolding wire_flags_def f b0(3) ..
  finally have "parse_spec bytes = Ok (Some (control_of (wire_flags f) (OPCODE (rfc_opcode f))
      (take 2 bs) (take (n - 2) (drop 2 bs)), 2 + n))" unfolding f(3) .
  moreover have "drop (2 + n) bytes = rest" using facts(3) assms(4) by (simp add: b)
  ultimately show ?thesis
    unfolding bytes_to_frame_parse [OF assms(1,2)] n c by (rule conjI)
qed


text \<open>
  C25: What a conforming reader decodes as an unmasked control frame in the short form, whose
  payload has at least two bytes, \<open>bytes_to_frame\<close> reads as a control frame with that payload,
  with the first two payload bytes as its status code, and the reported offset is where the
  next frame starts.
\<close>

theorem unmasked_control_frame_parses:
  assumes "bitflags_ok E" and "length bytes < 2 ^ 63"
    and "rfc_decode bytes = Some (f, rest)" and "\<not> rfc_masked f" and "known_frame {8, 9, 10} f"
    and "short_form bytes" and "2 \<le> length (rfc_payload f)"
  shows "bytes_to_frame E bytes =
    Ok (Some (ControlFrame (Header_new (wire_flags f) (OPCODE (rfc_opcode f)) None
                 (of_nat (length (rfc_payload f))))
               (rfc_payload f) (Some (u16_from_be_bytes (take 2 (rfc_payload f)))),
              2 + length (rfc_payload f))) \<and>
    drop (2 + length (rfc_payload f)) bytes = rest"
  using assms by (rule parse_control_frame)

theorem unmasked_control_frame_parses_witness:
  "bytes_to_frame sample_env [0x89, 2, 72, 105, 9] =
    Ok (Some (ControlFrame (Header_new (FLAG 0x80) (OPCODE 9) None 2) [72, 105] (Some 0x4869), 4))"
proof -
  let ?f = "wire_frame FLAG_FIN OPCODE_PING False [72, 105]"
  have "rfc_decode [0x89, 2, 72, 105, 9] = Some (?f, [9])"
    by (simp add: rfc_length_def wire_frame_def flag_defs opcode_defs bit_simps)
  moreover have "known_frame {8, 9, 10} ?f" and "\<not> rfc_masked ?f" and "rfc_payload ?f = [72, 105]"
      "wire_flags ?f = FLAG 0x80" "rfc_opcode ?f = 9"
    by (simp_all add: wire_frame_def known_frame_def wire_flags_def flag_defs opcode_defs bit_simps)
  moreover have "short_form [0x89, 2, 72, 105, 9]" by (simp add: short_form_def)
  moreover have "u16_from_be_bytes [72, 105] = 0x4869" by (simp add: u16_from_be_bytes_def be_nat_def)
  ultimately show ?thesis
    using unmasked_control_frame_parses [OF sample_env_bitflags, of "[0x89, 2, 72, 105, 9]" ?f "[9]"]
    by simp
qed

lemma parse_spec_append:
  "parse_spec bytes = r \<Longrightarrow> r \<noteq> Ok None \<Longrightarrow> r \<noteq> Panic \<Longrightarrow> parse_spec (bytes @ ys) = r"
proof (induction bytes rule: parse_spec.induct)
  case (1 b0 b1 bs)
  show ?case
  proof (cases "rfc_length (unat (b1 AND 0x7F)) bs")
    case None
    then show ?thesis using "1.prems" by (auto split: if_splits option.splits)
  next
    case (Some nk)
    obtain n k where nk: "nk = (n, k)" by (cases nk)
    note L = Some [unfolded nk] rfc_length_append [OF Some [unfolded nk], of ys]
    from rfc_length_consumes [OF L(1)] show ?thesis
      using "1.prems" by (auto simp: L Let_def split: if_splits)
  qed
qed simp_all

lemma parse_spec_offset:
  "parse_spec bytes = Ok (Some (f, n)) \<Longrightarrow> 2 \<le> n \<and> n \<le> length bytes"
  by (cases bytes rule: parse_spec.cases)
     (auto simp: Let_def split: if_splits option.splits, (drule rfc_length_consumes, simp)+)

text \<open>
  C26: A frame is recognised as soon as its bytes are complete, and what follows it in the
  buffer does not change it: once \<open>bytes_to_frame\<close> returns a frame or rejects its first byte,
  it returns the same on every longer buffer, and the frame's bytes, which the client drains
  next, are a non-empty part of the buffer.
\<close>

theorem parser_is_prefix_stable:
  assumes "bitflags_ok E" and "length (bytes @ ys) < 2 ^ 63"
    and "bytes_to_frame E bytes = r" and "r \<noteq> Ok None" and "r \<noteq> Panic"
  shows "bytes_to_frame E (bytes @ ys) = r \<and>
    (\<forall>f offset. r = Ok (Some (f, offset)) \<longrightarrow> 2 \<le> offset \<and> offset \<le> length bytes)"
proof -
  have len: "length bytes < 2 ^ 63" using assms(2) by simp
  have r: "parse_spec bytes = r" using assms(3) by (simp add: bytes_to_frame_parse [OF assms(1) len])
  show ?thesis
    using parse_spec_append [OF r assms(4,5)] parse_spec_offset [of bytes] r
    unfolding bytes_to_frame_parse [OF assms(1,2)] by simp
qed


theorem parser_is_prefix_stable_witness:
  "bytes_to_frame sample_env ([0x81, 1, 65] @ [0x89]) =
    Ok (Some (DataFrame (Header_new (FLAG 0x80) (OPCODE 1) None 1) [65], 3))"
proof -
  have "bytes_to_frame sample_env [0x81, 1, 65] =
      Ok (Some (DataFrame (Header_new (FLAG 0x80) (OPCODE 1) None 1) [65], 3))"
    by (simp add: bytes_to_frame_parse [OF sample_env_bitflags] rfc_length_def)
  then show ?thesis
    using parser_is_prefix_stable [OF sample_env_bitflags, of "[0x81, 1, 65]" "[0x89]"] by simp
qed

section \<open>Round trip\<close>

text \<open>
  C27: An unmasked data frame survives the wire: the parser reads the serialisation of a
  frame built by \<open>DataFrame::new\<close>, whatever follows it, as the very same frame, for every
  payload the buffer can hold and at each of the three widths of the length field.
\<close>

theorem data_frame_roundtrip:
  assumes "bitflags_ok E" and "fl \<in> {FLAG_FIN, FLAG_NOFLAG}"
    and "opc \<in> {OPCODE_CONTINUATION, OPCODE_TEXT, OPCODE_BINARY}"
    and "length (serialize (fst (DataFrame_new E fl opc dat False None k)) @ rest) < 2 ^ 63"
  shows "bytes_to_frame E (serialize (fst (DataFrame_new E fl opc dat False None k)) @ rest) =
    Ok (Some (fst (DataFrame_new E fl opc dat False None k),
              length (serialize (fst (DataFrame_new E fl opc dat False None k)))))"
proof -
  let ?f = "fst (DataFrame_new E fl opc dat False None k)"
  have f: "?f = DataFrame (Header_new fl opc None (of_nat (length dat))) dat"
    by (simp add: DataFrame_new_def get_mask_def)
  have "length dat < 2 ^ 64"
    using assms(4) by (simp add: serialize_def f)
  then have ok: "frame_ok ?f"
    using assms(2,3) by (auto simp: frame_ok_def f unat_of_nat flag_defs opcode_defs)
  have wire: "rfc_decode (serialize ?f @ rest) = Some (wire_frame fl opc False dat, rest)"
    using serialize_decodes [OF ok] by (simp add: rfc_view_def wire_frame_def f)
  have known: "known_frame {0, 1, 2} (wire_frame fl opc False dat)"
    using assms(2,3) by (auto simp: known_frame_def wire_frame_def flag_defs opcode_defs)
  have flags: "wire_flags (wire_frame fl opc False dat) = fl"
    using assms(2) by (auto simp: wire_flags_def wire_frame_def flag_defs bit_simps)
  from parse_data_frame [OF wire assms(4) known] show ?thesis
    unfolding bytes_to_frame_parse [OF assms(1,4)]
    by (auto simp: flags [unfolded wire_frame_def] f wire_frame_def)
qed

theorem data_frame_roundtrip_witness:
  "bytes_to_frame sample_env (serialize (fst (DataFrame_new sample_env FLAG_FIN OPCODE_TEXT (replicate 200 65) False None 0))) =
    Ok (Some (fst (DataFrame_new sample_env FLAG_FIN OPCODE_TEXT (replicate 200 65) False None 0), 204))"
  using data_frame_roundtrip [OF sample_env_bitflags, of FLAG_FIN OPCODE_TEXT "replicate 200 65" 0 "[]"]
  by (simp add: serialize_def DataFrame_new_def get_mask_def length_Header_serialize)

end
