(* ===== verification/Send_Props.thy ===== *)
theory Send_Props
  imports Client_Send Frame_Props
begin

unbundle bit_operations_syntax

text \<open>
  The properties of \<open>send\<close>: when it returns, which frames it queues, when it panics, and that
  a conforming peer reassembles the message from the bytes of those frames.
\<close>

section \<open>The frames of a message\<close>

text \<open>
  The reference: the message cut into pieces of \<open>n\<close> bytes, the first one a text frame, the
  others continuations, the last one final, each masked with the next draw of the random
  source.
\<close>

function message_frames :: "env \<Rightarrow> nat \<Rightarrow> bool \<Rightarrow> nat \<Rightarrow> str \<Rightarrow> Frame list" where
  "message_frames E n first k xs =
     (if xs = [] \<or> n = 0 then []
      else
        DataFrame
          (Header_new (if length xs \<le> n then FLAG_FIN else FLAG_NOFLAG)
             (if first then OPCODE_TEXT else OPCODE_CONTINUATION)
             (Some (gen_mask E k)) (of_nat (length (take n xs))))
          (take n xs) #
        message_frames E n False (k + 1) (drop n xs))"
  by pat_completeness auto
termination
  by (relation "measure (\<lambda>(E, n, first, k, xs). length xs)") auto

declare message_frames.simps [simp del]

lemma message_frames_done [simp]: "message_frames E n first k [] = []"
  by (simp add: message_frames.simps)

text \<open>The positions at which the loop cuts are character boundaries of the message.\<close>

definition cuts_ok :: "nat \<Rightarrow> nat \<Rightarrow> str \<Rightarrow> bool" where
  "cuts_ok n d payload \<longleftrightarrow> (\<forall>j. d + j * n < length payload \<longrightarrow> is_char_boundary payload (d + j * n))"

lemma cuts_ok_start: "cuts_ok n d payload \<Longrightarrow> d < length payload \<Longrightarrow> is_char_boundary payload d"
  unfolding cuts_ok_def by (drule spec [of _ 0]) simp

lemma cuts_ok_next: "cuts_ok n d payload \<Longrightarrow> cuts_ok n (d + n) payload"
  unfolding cuts_ok_def by (metis add.assoc mult_Suc)

section \<open>One round of the loop\<close>

text \<open>At every round the position is the start or at least one message size into the payload.\<close>

definition at_cut :: "nat \<Rightarrow> nat \<Rightarrow> str \<Rightarrow> bool" where
  "at_cut n d payload \<longleftrightarrow> (d = 0 \<or> n \<le> d) \<and> length payload < 2 ^ 63 \<and> n < 2 ^ 64"

lemma at_cut_next: "at_cut n d payload \<Longrightarrow> at_cut n (d + n) payload"
  by (auto simp: at_cut_def)

lemma at_cut_fits: "at_cut n d payload \<Longrightarrow> d < length payload \<Longrightarrow> d + n < 2 ^ 64"
  by (auto simp: at_cut_def)

text \<open>The frame that the round at position \<open>d\<close> queues, and the state after it.\<close>

definition chunk_frame :: "env \<Rightarrow> nat \<Rightarrow> nat \<Rightarrow> nat \<Rightarrow> str \<Rightarrow> Frame" where
  "chunk_frame E n k d payload =
     DataFrame
       (Header_new (if length payload \<le> d + n then FLAG_FIN else FLAG_NOFLAG)
          (if d = 0 then OPCODE_TEXT else OPCODE_CONTINUATION)
          (Some (gen_mask E k)) (of_nat (length (take n (drop d payload)))))
       (take n (drop d payload))"

definition queued :: "Frame list \<Rightarrow> 't st \<Rightarrow> 't st" where
  "queued fs s = ((fst s)\<lparr>output_events := output_events (fst s) @ map WEBSOCKET_DATA fs\<rparr>,
                  (snd s)\<lparr>rng_calls := rng_calls (snd s) + length fs\<rparr>)"

lemma queued_simps [simp]:
  "queued [] s = s"
  "queued fs (queued es s) = queued (es @ fs) s"
  "message_size (fst (queued fs s)) = message_size (fst s)"
  "connection_status (fst (queued fs s)) = connection_status (fst s)"
  "rng_calls (snd (queued fs s)) = rng_calls (snd s) + length fs"
  by (simp_all add: queued_def)

lemma send_step_eq:
  assumes "at_cut n d payload" and "d < length payload" and "n = unat (message_size (fst s))"
  shows "send_step E payload d s =
    (if is_char_boundary payload d \<and> is_char_boundary payload (min (d + n) (length payload))
     then (Ok (d + n), queued [chunk_frame E n (rng_calls (snd s)) d payload] s)
     else (Panic, s))"
proof -
  note add = usize_add_small [OF at_cut_fits [OF assms(1,2)]]
  obtain c w where s: "s = (c, w)" by (cases s)
  let ?i = "if d + n \<ge> length payload then length payload else d + n"
  have i: "?i = min (d + n) (length payload)" by simp
  have le: "d \<le> min (d + n) (length payload)" using assms(2) by simp
  have chunk: "take (min (d + n) (length payload) - d) (drop d payload) = take n (drop d payload)"
    by (simp add: min_def)
  have slice: "str_slice payload d (min (d + n) (length payload)) =
      (if is_char_boundary payload d \<and> is_char_boundary payload (min (d + n) (length payload))
       then Ok (take n (drop d payload)) else (Panic :: (WebSocketError, str) outcome))"
    unfolding str_slice_def chunk using le by simp
  have ms: "unat (message_size c) = n" using assms(3) s by simp
  show ?thesis
    by (simp add: send_step_def rm_eval s ms add i slice Let_def DataFrame_new_def get_mask_def
        chunk_frame_def queued_def split: prod.split)
qed

section \<open>The whole loop\<close>

lemma message_frames_step:
  "d < length payload \<Longrightarrow> 0 < n \<Longrightarrow>
   message_frames E n (d = 0) k (drop d payload) =
     chunk_frame E n k d payload # message_frames E n (d + n = 0) (k + 1) (drop (d + n) payload)"
  by (subst message_frames.simps)
     (auto simp: chunk_frame_def add.commute)

lemma send_loop_ok:
  assumes "0 < n" and "at_cut n d payload" and "cuts_ok n d payload"
    and "n = unat (message_size (fst s))"
  shows "send_loop E payload d s =
    Some (Ok (), queued (message_frames E n (d = 0) (rng_calls (snd s)) (drop d payload)) s)"
  using assms
proof (induction "length payload - d" arbitrary: d s rule: less_induct)
  case less
  show ?case
  proof (cases "d < length payload")
    case False
    then show ?thesis by (simp add: send_loop.simps)
  next
    case True
    have b: "is_char_boundary payload d"
      using less.prems(3) True by (rule cuts_ok_start)
    have b': "is_char_boundary payload (min (d + n) (length payload))"
      using cuts_ok_start [OF cuts_ok_next [OF less.prems(3)]]
      by (cases "d + n < length payload") (simp_all add: min_def)
    let ?f = "chunk_frame E n (rng_calls (snd s)) d payload"
    have "send_step E payload d s = (Ok (d + n), queued [?f] s)"
      using b b' by (simp add: send_step_eq [OF less.prems(2) True less.prems(4)])
    moreover have "send_loop E payload (d + n) (queued [?f] s) =
        Some (Ok (), queued (message_frames E n (d + n = 0) (rng_calls (snd (queued [?f] s)))
          (drop (d + n) payload)) (queued [?f] s))"
      using less.prems True by (intro less.hyps at_cut_next cuts_ok_next) simp_all
    ultimately show ?thesis
      using True less.prems(1)
      by (subst send_loop.simps) (simp add: message_frames_step)
  qed
qed


lemma send_loop_panic:
  assumes "0 < n" and "at_cut n d payload" and "\<not> cuts_ok n d payload"
    and "n = unat (message_size (fst s))"
  shows "\<exists>m. send_loop E payload d s =
    Some (Panic, queued (take m (message_frames E n (d = 0) (rng_calls (snd s)) (drop d payload))) s)"
  using assms
proof (induction "length payload - d" arbitrary: d s rule: less_induct)
  case less
  from less.prems(3) obtain j where j: "d + j * n < length payload"
      "\<not> is_char_boundary payload (d + j * n)"
    by (auto simp: cuts_ok_def)
  have d: "d < length payload" by (rule le_less_trans [OF _ j(1)]) simp
  note step = send_step_eq [OF less.prems(2) d less.prems(4), of E]
  show ?case
  proof (cases "is_char_boundary payload d \<and> is_char_boundary payload (min (d + n) (length payload))")
    case False
    then have "send_loop E payload d s = Some (Panic, queued (take 0 fs) s)" for fs
      using d step by (subst send_loop.simps) (auto simp del: de_Morgan_conj)
    then show ?thesis by blast
  next
    case True
    let ?f = "chunk_frame E n (rng_calls (snd s)) d payload"
    let ?s = "queued [?f] s"
    obtain i where i: "j = Suc i" using j(2) True by (cases j) auto
    have "\<not> cuts_ok n (d + n) payload"
      using j by (auto simp: cuts_ok_def i add.assoc intro: exI [of _ i])
    moreover have "length payload - (d + n) < length payload - d" using d less.prems(1) by simp
    ultimately have "\<exists>m. send_loop E payload (d + n) ?s = Some (Panic, queued (take m
        (message_frames E n (d + n = 0) (rng_calls (snd ?s)) (drop (d + n) payload))) ?s)"
      using less.prems(1,4) at_cut_next [OF less.prems(2)] by (intro less.hyps) simp_all
    then obtain m where "send_loop E payload (d + n) ?s = Some (Panic, queued (take m
        (message_frames E n (d + n = 0) (rng_calls (snd ?s)) (drop (d + n) payload))) ?s)" ..
    then have "send_loop E payload d s = Some (Panic, queued (take (Suc m)
        (message_frames E n (d = 0) (rng_calls (snd s)) (drop d payload))) s)"
      using True d step less.prems(1) by (subst send_loop.simps) (auto simp: message_frames_step)
    then show ?thesis ..
  qed
qed

text \<open>With message size 0 the position never moves.\<close>

lemma send_loop_stuck:
  assumes "send_loop E payload d s = Some r"
  shows "unat (message_size (fst s)) = 0 \<longrightarrow> d = 0 \<longrightarrow> length payload < 2 ^ 63 \<longrightarrow> payload = []"
proof (rule send_loop.raw_induct [OF _ assms], intro impI, rule ccontr)
  fix loop E and payload :: str and d s r
  assume IH: "\<And>payload d s b y. loop payload d s b = Some y \<Longrightarrow>
      unat (message_size (fst b)) = 0 \<longrightarrow> s = 0 \<longrightarrow> length d < 2 ^ 63 \<longrightarrow> d = []"
    and body: "(if d < length payload
       then case send_step E payload d s of (r, s') \<Rightarrow>
         (case r of Ok next \<Rightarrow> loop E payload next s' | Err e \<Rightarrow> Some (Err e, s') | Panic \<Rightarrow> Some (Panic, s'))
       else Some (Ok (), s)) = Some r"
    and stuck: "unat (message_size (fst s)) = 0" "d = 0"
    and len: "length payload < 2 ^ 63" and "payload \<noteq> []"
  then have d: "d < length payload" by simp
  have "at_cut 0 d payload" using len stuck by (simp add: at_cut_def)
  from send_step_eq [OF this d stuck(1) [symmetric], of E]
  have "send_step E payload d s = (Ok 0, queued [chunk_frame E 0 (rng_calls (snd s)) d payload] s)"
    using stuck by simp
  with body d have "loop E payload 0 (queued [chunk_frame E 0 (rng_calls (snd s)) d payload] s) = Some r"
    by simp
  from IH [OF this] stuck len \<open>payload \<noteq> []\<close> show False by simp
qed

section \<open>Properties\<close>

text \<open>
  C20: When every cut falls on a character boundary and the message size is positive, \<open>send\<close>
  returns and appends to the output queue, behind what is queued already, exactly the frames
  of the message: consecutive pieces of at most the message size, a text frame first and
  continuations after it, the fin bit on the last one only, each with its own masking key.
  Nothing else of the client changes.
\<close>

theorem send_queues_the_message:
  assumes "connection_status (fst s) \<noteq> CLOSE" and "message_size (fst s) \<noteq> 0"
    and "length payload < 2 ^ 63" and "cuts_ok (unat (message_size (fst s))) 0 payload"
  shows "send E payload s =
    Some (Ok (), queued (message_frames E (unat (message_size (fst s))) True (rng_calls (snd s)) payload) s)"
proof -
  let ?n = "unat (message_size (fst s))"
  have n: "0 < ?n" using assms(2) by (simp add: unat_gt_0)
  have "at_cut ?n 0 payload" using assms(3) unat_u64_less by (simp add: at_cut_def)
  from send_loop_ok [OF n this assms(4) refl] assms(1) show ?thesis
    by (simp add: send_def)
qed

theorem send_queues_the_message_witness:
  "send sample_env (ascii ''Hello'') (open_client\<lparr>message_size := 2\<rparr>, idle_world) =
    Some (Ok (), queued (message_frames sample_env 2 True 0 (ascii ''Hello''))
      (open_client\<lparr>message_size := 2\<rparr>, idle_world))"
proof -
  let ?s = "(open_client\<lparr>message_size := 2\<rparr>, idle_world)"
  have "cuts_ok 2 0 (ascii ''Hello'')"
    by (auto simp: cuts_ok_def is_char_boundary_def is_continuation_def less_Suc_eq nth_Cons')
  then show ?thesis
    using send_queues_the_message [of ?s "ascii ''Hello''" sample_env]
    by (simp add: open_client_def idle_world_def WSClient_new_def)
qed

text \<open>
  C21: \<open>send\<close> returns in every case but one: with message size 0 and a non-empty payload its
  loop queues empty frames for ever, unless the connection is closed.
\<close>

theorem send_returns:
  assumes "length payload < 2 ^ 63"
  shows "send E payload s = None \<longleftrightarrow>
    connection_status (fst s) \<noteq> CLOSE \<and> message_size (fst s) = 0 \<and> payload \<noteq> []"
proof -
  let ?n = "unat (message_size (fst s))"
  have cut: "at_cut ?n 0 payload" using assms unat_u64_less by (simp add: at_cut_def)
  have n: "?n = 0 \<longleftrightarrow> message_size (fst s) = 0" by (simp add: unat_eq_0)
  show ?thesis
  proof (cases "?n = 0")
    case True
    show ?thesis
    proof (cases "send_loop E payload 0 s")
      case None
      then show ?thesis using True n by (auto simp: send_def send_loop.simps [of E "[]"])
    next
      case (Some r)
      then have "payload = []" using send_loop_stuck [OF Some] True assms by simp
      with Some show ?thesis by (cases r) (simp add: send_def)
    qed
  next
    case False
    then have "send_loop E payload 0 s \<noteq> None"
      using send_loop_ok [OF _ cut _ refl, of E] send_loop_panic [OF _ cut _ refl, of E]
      by (cases "cuts_ok ?n 0 payload") auto
    then show ?thesis using False n by (simp add: send_def)
  qed
qed

theorem send_returns_witness:
  "send sample_env (ascii ''Hello'') (open_client\<lparr>message_size := 0\<rparr>, idle_world) = None"
  using send_returns [of "ascii ''Hello''" sample_env "(open_client\<lparr>message_size := 0\<rparr>, idle_world)"]
  by (simp add: open_client_def)

text \<open>
  C34: When a cut falls inside a character, \<open>send\<close> panics, and an initial part of the
  message's frames stays queued.
\<close>

theorem send_panics_inside_a_character:
  assumes "connection_status (fst s) \<noteq> CLOSE" and "length payload < 2 ^ 63"
    and "message_size (fst s) \<noteq> 0"
    and "j * unat (message_size (fst s)) < length payload"
    and "\<not> is_char_boundary payload (j * unat (message_size (fst s)))"
  shows "\<exists>m. send E payload s = Some (Panic, queued (take m
    (message_frames E (unat (message_size (fst s))) True (rng_calls (snd s)) payload)) s)"
proof -
  let ?n = "unat (message_size (fst s))"
  have n: "0 < ?n" using assms(3) by (simp add: unat_gt_0)
  have "at_cut ?n 0 payload" using assms(2) unat_u64_less by (simp add: at_cut_def)
  moreover have "\<not> cuts_ok ?n 0 payload" using assms(4,5) by (auto simp: cuts_ok_def)
  ultimately show ?thesis
    using send_loop_panic [OF n _ _ refl, of 0 payload E] assms(1) by (simp add: send_def)
qed

theorem send_panics_inside_a_character_witness:
  "\<exists>m. send sample_env [0x61, 0xC3, 0xA9] (open_client\<lparr>message_size := 2\<rparr>, idle_world) =
    Some (Panic, queued (take m (message_frames sample_env 2 True 0 [0x61, 0xC3, 0xA9]))
      (open_client\<lparr>message_size := 2\<rparr>, idle_world))"
  using send_panics_inside_a_character [of "(open_client\<lparr>message_size := 2\<rparr>, idle_world)"
      "[0x61, 0xC3, 0xA9]" 1 sample_env]
  by (simp add: open_client_def idle_world_def is_char_boundary_def is_continuation_def)

section \<open>What the peer makes of a message\<close>

lemma rfc_decode_shrinks: "rfc_decode bs = Some (f, rest) \<Longrightarrow> length rest < length bs"
  by (cases bs rule: rfc_decode.cases) (auto simp: Let_def split: option.splits if_splits)

text \<open>All the frames at the front of a byte stream, and the bytes left over.\<close>

function rfc_frames :: "u8 list \<Rightarrow> rfc_frame list \<times> u8 list" where
  "rfc_frames bs =
     (case rfc_decode bs of
        None \<Rightarrow> ([], bs)
      | Some (f, rest) \<Rightarrow> (case rfc_frames rest of (fs, left) \<Rightarrow> (f # fs, left)))"
  by pat_completeness auto
termination
  by (relation "measure length") (auto dest: rfc_decode_shrinks)

declare rfc_frames.simps [simp del]

text \<open>
  Section 5.4 of RFC 6455: a message is a text or binary frame and the continuations up to a
  final one; control frames may come in between. The first argument is the message under
  way; the result is the list of the messages with their opcodes, or \<open>None\<close> when the
  sequence of frames breaks the rules or ends inside a message.
\<close>

fun assemble :: "(u8 \<times> u8 list) option \<Rightarrow> rfc_frame list \<Rightarrow> (u8 \<times> u8 list) list option" where
  "assemble None [] = Some []"
| "assemble (Some _) [] = None"
| "assemble st (f # fs) =
     (if 8 \<le> rfc_opcode f then assemble st fs
      else
        (case st of
           None \<Rightarrow>
             if rfc_opcode f \<notin> {1, 2} then None
             else if rfc_fin f then map_option (Cons (rfc_opcode f, rfc_payload f)) (assemble None fs)
             else assemble (Some (rfc_opcode f, rfc_payload f)) fs
         | Some (op, acc) \<Rightarrow>
             if rfc_opcode f \<noteq> 0 then None
             else if rfc_fin f then map_option (Cons (op, acc @ rfc_payload f)) (assemble None fs)
             else assemble (Some (op, acc @ rfc_payload f)) fs))"

lemma rfc_frames_serialize:
  "frame_ok f \<Longrightarrow>
   rfc_frames (serialize f @ rest) = (rfc_view f # fst (rfc_frames rest), snd (rfc_frames rest))"
  by (subst rfc_frames.simps) (simp add: serialize_decodes split: prod.split)

lemma rfc_frames_Nil [simp]: "rfc_frames [] = ([], [])"
  by (simp add: rfc_frames.simps)

lemma rfc_frames_concat:
  "\<forall>f\<in>set fs. frame_ok f \<Longrightarrow> rfc_frames (concat (map serialize fs)) = (map rfc_view fs, [])"
  by (induction fs) (simp_all add: rfc_frames_serialize)

lemma message_frames_ok:
  "length xs < 2 ^ 63 \<Longrightarrow> \<forall>f\<in>set (message_frames E n first k xs).
     frame_ok f \<and> rfc_masked (rfc_view f) \<and> length (rfc_payload (rfc_view f)) \<le> n"
proof (induction E n first k xs rule: message_frames.induct)
  case (1 E n first k xs)
  then show ?case
    by (subst message_frames.simps)
       (auto simp: frame_ok_def rfc_view_def unat_of_nat min_def flag_defs opcode_defs
         simp del: not_None_eq)
qed

lemma message_frames_assemble:
  "0 < n \<Longrightarrow> xs \<noteq> [] \<Longrightarrow>
   assemble (if first then None else Some (1, acc)) (map rfc_view (message_frames E n first k xs)) =
     Some [(1, (if first then [] else acc) @ xs)]"
proof (induction E n first k xs arbitrary: acc rule: message_frames.induct)
  case (1 E n first k xs)
  let ?acc = "(if first then [] else acc) @ take n xs"
  show ?case
  proof (cases "length xs \<le> n")
    case True
    with "1.prems" show ?thesis
      by (subst message_frames.simps)
         (simp add: rfc_view_def flag_defs opcode_defs bit_simps word_le_nat_alt)
  next
    case False
    then have "assemble (Some (1, ?acc)) (map rfc_view (message_frames E n False (k + 1) (drop n xs))) =
        Some [(1, ?acc @ drop n xs)]"
      using "1.IH" [of ?acc] "1.prems" by simp
    with False "1.prems" show ?thesis
      by (subst message_frames.simps, cases first)
         (simp_all add: rfc_view_def flag_defs opcode_defs bit_simps word_le_nat_alt)
  qed
qed

lemma send_Ok:
  assumes "send E payload s = Some (Ok (), s')" and "connection_status (fst s) \<noteq> CLOSE"
    and "length payload < 2 ^ 63" and "payload \<noteq> []"
  shows "0 < unat (message_size (fst s)) \<and>
    s' = queued (message_frames E (unat (message_size (fst s))) True (rng_calls (snd s)) payload) s"
proof -
  let ?n = "unat (message_size (fst s))"
  have loop: "send_loop E payload 0 s = Some (Ok (), s')" using assms(1,2) by (simp add: send_def)
  have cut: "at_cut ?n 0 payload" using assms(3) unat_u64_less by (simp add: at_cut_def)
  have n: "0 < ?n" using send_loop_stuck [OF loop] assms(3,4) by auto
  then have "cuts_ok ?n 0 payload" using send_loop_panic [OF n cut _ refl, of E] loop by auto
  from send_loop_ok [OF n cut this refl, of E] loop n show ?thesis by simp
qed

text \<open>
  C8: When \<open>send\<close> returns normally, the frames it has queued, serialised one after the other,
  are to a conforming peer a complete sequence of masked frames, none longer than the message
  size, which reassembles to one text message: the payload.
\<close>

theorem message_delivered:
  assumes "send E payload s = Some (Ok (), s')" and "connection_status (fst s) \<noteq> CLOSE"
    and "length payload < 2 ^ 63" and "payload \<noteq> []"
  shows "\<exists>frames ds.
    output_events (fst s') = output_events (fst s) @ map WEBSOCKET_DATA frames \<and>
    rfc_frames (concat (map serialize frames)) = (ds, []) \<and>
    assemble None ds = Some [(1, payload)] \<and>
    list_all (\<lambda>d. rfc_masked d \<and> length (rfc_payload d) \<le> unat (message_size (fst s))) ds"
proof -
  let ?n = "unat (message_size (fst s))"
  let ?fs = "message_frames E ?n True (rng_calls (snd s)) payload"
  have n: "0 < ?n" and s': "s' = queued ?fs s" using send_Ok [OF assms] by simp_all
  have ok: "\<forall>f\<in>set ?fs. frame_ok f \<and> rfc_masked (rfc_view f) \<and> length (rfc_payload (rfc_view f)) \<le> ?n"
    by (rule message_frames_ok [OF assms(3)])
  have "assemble None (map rfc_view ?fs) = Some [(1, payload)]"
    using message_frames_assemble [OF n assms(4), of True] by simp
  moreover have "rfc_frames (concat (map serialize ?fs)) = (map rfc_view ?fs, [])"
    using ok by (simp add: rfc_frames_concat)
  ultimately show ?thesis
    using ok by (intro exI [of _ ?fs] exI [of _ "map rfc_view ?fs"]) (auto simp: s' queued_def list_all_iff)
qed

theorem message_delivered_witness:
  "\<exists>frames ds.
    rfc_frames (concat (map serialize frames)) = (ds, []) \<and>
    assemble None ds = Some [(1, ascii ''Hello'')] \<and>
    send sample_env (ascii ''Hello'') (open_client\<lparr>message_size := 2\<rparr>, idle_world) =
      Some (Ok (), queued frames (open_client\<lparr>message_size := 2\<rparr>, idle_world))"
proof -
  let ?s = "(open_client\<lparr>message_size := 2\<rparr>, idle_world)"
  let ?fs = "message_frames sample_env 2 True 0 (ascii ''Hello'')"
  have cut: "cuts_ok 2 0 (ascii ''Hello'')"
    by (auto simp: cuts_ok_def is_char_boundary_def is_continuation_def less_Suc_eq nth_Cons')
  have s: "connection_status (fst ?s) \<noteq> CLOSE" "unat (message_size (fst ?s)) = 2" "rng_calls (snd ?s) = 0"
    by (simp_all add: open_client_def idle_world_def)
  have cut0: "at_cut 2 0 (ascii ''Hello'')" by (simp add: at_cut_def)
  have "send sample_env (ascii ''Hello'') ?s = Some (Ok (), queued ?fs ?s)"
    using send_loop_ok [OF _ cut0 cut s(2) [symmetric], of sample_env] s by (simp add: send_def)
  moreover from message_delivered [OF this s(1)]
  obtain frames ds where "output_events (fst (queued ?fs ?s)) = output_events (fst ?s) @ map WEBSOCKET_DATA frames"
    and "rfc_frames (concat (map serialize frames)) = (ds, [])"
    and "assemble None ds = Some [(1, ascii ''Hello'')]"
    by auto
  moreover from this(1) have "frames = ?fs"
    by (auto simp: queued_def inj_on_def dest!: map_injective)
  ultimately show ?thesis by blast
qed

end
