(* ===== verification/Client_Handlers.thy ===== *)
theory Client_Handlers
  imports Client_Ops Send_Props
begin

text \<open>
  What each handler of the client does, one equation or precondition per branch: the facts
  from which the invariants and the properties of the event loop are derived.
\<close>

section \<open>Frames the client makes\<close>

lemma get_mask_False [simp]: "get_mask E False m k = (m, k)"
  by (cases m) (simp_all add: get_mask_def)

lemma get_mask_True [simp]: "get_mask E True None k = (Some (gen_mask E k), k + 1)"
  by (simp add: get_mask_def)

text \<open>The frames that the client makes in answer to a control frame.\<close>

lemma new_control_eval:
  "new_control E opc st dat (c, w) =
     (Ok (fst (ControlFrame_new E FLAG_FIN opc st dat True None (rng_calls w))),
      (c, w\<lparr>rng_calls := rng_calls w + 1\<rparr>))"
  by (simp add: new_control_def ControlFrame_new_def get_mask_def Let_def split: prod.split)

section \<open>Preconditions of the primitives\<close>

lemma primitive_wp [wp_simps]:
  "wp tcp_connect Q (c, w) =
     (case next_answer False (connects w) of (ok, rest) \<Rightarrow>
        if ok then Q (Ok ()) (c, w\<lparr>connects := rest, trace := trace w @ [Connected (host c) (port c)]\<rparr>)
        else Q (Err UnreachableHost) (c, w\<lparr>connects := rest\<rparr>))"
  "wp set_nonblocking Q (c, w) =
     (case next_answer True (nonblocks w) of (ok, rest) \<Rightarrow>
        Q (if ok then Ok () else Err IOError) (c, w\<lparr>nonblocks := rest\<rparr>))"
  "wp (draw_key E) R (c, w) = R (Ok (gen_key E (rng_calls w))) (c, w\<lparr>rng_calls := rng_calls w + 1\<rparr>)"
  "wp (push_front_output ev) Q (c, w) = Q (Ok ()) (c\<lparr>output_events := ev # output_events c\<rparr>, w)"
  "wp (new_control E opc st dat) T (c, w) =
     T (Ok (fst (ControlFrame_new E FLAG_FIN opc st dat True None (rng_calls w))))
       (c, w\<lparr>rng_calls := rng_calls w + 1\<rparr>)"
  by (simp_all add: wp_def tcp_connect_def set_nonblocking_def draw_key_def push_front_output_def
      modC_def rm_eval new_control_eval WebSocketError_from_def split: prod.split)

lemma wp_stream_shutdown [wp_simps]:
  "wp stream_shutdown Q (c, w) =
     (case stream c of
        None \<Rightarrow> Q Panic (c, w)
      | Some _ \<Rightarrow>
          (case next_answer True (shutdowns w) of (ok, rest) \<Rightarrow>
             Q (if ok then Ok () else Err IOError)
               (c, w\<lparr>shutdowns := rest, trace := trace w @ [ShutdownBoth]\<rparr>)))"
  by (simp add: wp_def stream_shutdown_def WebSocketError_from_def split: prod.split option.split)

lemma wp_try_write [wp_simps]:
  "wp (try_write bytes) Q (c, w) =
     (case stream c of
        None \<Rightarrow> Q Panic (c, w)
      | Some _ \<Rightarrow>
          (case write_all bytes (writes w) of (res, sent, rest) \<Rightarrow>
             Q (case res of
                  Ok _ \<Rightarrow> Ok True
                | Err k \<Rightarrow> if k = WouldBlock then Ok False else Err IOError
                | Panic \<Rightarrow> Panic)
               (c, w\<lparr>writes := rest, trace := trace w @ [Sent sent]\<rparr>)))"
  by (simp add: wp_def try_write_def split: prod.split option.split)

lemma wp_call_back [wp_simps]:
  "wp (call_back K f ev) Q (c, w) =
     (case K f ev (cb_data c) (c, w\<lparr>trace := trace w @ [Called ev]\<rparr>) of (returned, s') \<Rightarrow>
        Q (if returned then Ok () else Panic) s')"
  by (simp add: wp_def call_back_def split: prod.split)

lemma wp_option [wp_simps]:
  "wp (case x of None \<Rightarrow> m | Some a \<Rightarrow> f a) Q s = (case x of None \<Rightarrow> wp m Q s | Some a \<Rightarrow> wp (f a) Q s)"
  by (cases x) simp_all

section \<open>Control frames\<close>

definition pong_for :: "env \<Rightarrow> Frame \<Rightarrow> nat \<Rightarrow> Frame" where
  "pong_for E fr k = fst (ControlFrame_new E FLAG_FIN OPCODE_PONG None (get_data fr) True None k)"

text \<open>The status code of the answer to a close frame, and the answer.\<close>

definition reply_code :: "env \<Rightarrow> u16 \<Rightarrow> u16" where
  "reply_code E st =
     (case WSStatus_from_bits E st of
        None \<Rightarrow> 1002
      | Some s \<Rightarrow> if fst (evaulate_status_code s) then 1002 else status_bits s)"

definition close_reply :: "env \<Rightarrow> u8 list \<Rightarrow> nat \<Rightarrow> Frame" where
  "close_reply E dat k =
     fst (ControlFrame_new E FLAG_FIN OPCODE_CLOSE
       (Some (reply_code E (u16_from_be_bytes (take 2 dat)))) (drop 2 dat) True None k)"

lemma handle_ping:
  "code (get_header fr) = OPCODE_PING \<Longrightarrow>
   handle_control_frame E K fr (c, w) =
     (Ok (), (c\<lparr>output_events := WEBSOCKET_DATA (pong_for E fr (rng_calls w)) # output_events c\<rparr>,
              w\<lparr>rng_calls := rng_calls w + 1\<rparr>))"
  by (simp add: handle_control_frame_def rm_eval new_control_eval push_front_output_def pong_for_def)

lemma opcode_distinct [simp]:
  "OPCODE_PONG \<noteq> OPCODE_PING" "OPCODE_CLOSE \<noteq> OPCODE_PING" "OPCODE_CLOSE \<noteq> OPCODE_PONG"
  "OPCODE_PING \<noteq> OPCODE_PONG" "OPCODE_PING \<noteq> OPCODE_CLOSE" "OPCODE_PONG \<noteq> OPCODE_CLOSE"
  by (simp_all add: opcode_defs)

lemma handle_pong:
  "code (get_header fr) = OPCODE_PONG \<Longrightarrow> handle_control_frame E K fr s = (Panic, s)"
  by (simp add: handle_control_frame_def rm_eval)

lemma handle_close_open:
  assumes "code (get_header fr) = OPCODE_CLOSE" and "2 \<le> length (get_data fr)"
    and "connection_status c = OPEN"
  shows "handle_control_frame E K fr (c, w) =
    (Ok (), (c\<lparr>output_events := [WEBSOCKET_DATA (close_reply E (get_data fr) (rng_calls w))],
               input_events := [], connection_status := SERVER_WANTS_TO_CLOSE\<rparr>,
             w\<lparr>rng_calls := rng_calls w + 1\<rparr>))"
  using assms
  by (simp add: handle_control_frame_def rm_eval new_control_eval push_front_output_def slice_def
      bytes_to_u16_def min_def Let_def close_reply_def reply_code_def status_defs evaulate_status_code_def
      split: option.split)

lemma handle_close_ack:
  assumes "code (get_header fr) = OPCODE_CLOSE" and "2 \<le> length (get_data fr)"
    and "connection_status c = CLIENT_WANTS_TO_CLOSE" and "stream c \<noteq> None"
    and "get_status_code fr = Some st"
  shows "handle_control_frame E K fr (c, w) =
    (let s' = (c\<lparr>connection_status := CLOSE\<rparr>,
               w\<lparr>shutdowns := snd (next_answer True (shutdowns w)), trace := trace w @ [ShutdownBoth]\<rparr>) in
     if \<not> fst (next_answer True (shutdowns w)) then (Err IOError, s')
     else (case callback c of
             None \<Rightarrow> (Ok (), s')
           | Some f \<Rightarrow> call_back K f (ON_CLOSE (CLIENT_CLOSE st)) s'))"
  using assms
  by (auto simp: handle_control_frame_def rm_eval slice_def stream_shutdown_def Let_def
      WebSocketError_from_def split: option.split prod.split)

lemma handle_close_late:
  assumes "code (get_header fr) = OPCODE_CLOSE" and "2 \<le> length (get_data fr)"
    and "connection_status (fst s) \<notin> {OPEN, CLIENT_WANTS_TO_CLOSE}"
  shows "handle_control_frame E K fr s = (Ok (), s)"
  using assms
  by (cases s; cases "connection_status (fst s)")
     (simp_all add: handle_control_frame_def rm_eval slice_def Let_def)

section \<open>Data frames\<close>

text \<open>What \<open>recv_data\<close> holds once a data frame has been looked at.\<close>

definition collected :: "'t WSClient \<Rightarrow> Frame \<Rightarrow> u8 list" where
  "collected c fr =
     (if get_flag (get_header fr) \<noteq> FLAG_FIN then recv_data c @ get_data fr else recv_data c)"

lemma from_utf8_cases:
  "from_utf8 bs = (if utf8_valid bs then Ok bs else Err Utf8Error)"
  by (rule from_utf8_def)

lemma handle_data_frame:
  assumes "kind fr = Data"
  shows "handle_recv_frame E K fr (c, w) =
    (let c' = c\<lparr>recv_data := collected c fr\<rparr> in
     case callback c of
       None \<Rightarrow> (Ok (), (c', w))
     | Some f \<Rightarrow>
         if \<not> utf8_valid (get_data fr) then (Err DecodingFromUTF8, (c', w))
         else if collected c fr = [] then call_back K f (ON_TEXT (get_data fr)) (c', w)
         else if \<not> utf8_valid (collected c fr) then (Err DecodingFromUTF8, (c', w))
         else
           (case call_back K f (ON_TEXT (collected c fr @ get_data fr)) (c', w) of
              (Ok _, (c2, w2)) \<Rightarrow> (Ok (), (c2\<lparr>recv_data := []\<rparr>, w2))
            | (Err e, s2) \<Rightarrow> (Err e, s2)
            | (Panic, s2) \<Rightarrow> (Panic, s2)))"
proof -
  let ?c = "c\<lparr>recv_data := collected c fr\<rparr>"
  have first: "whenM (get_flag (get_header fr) \<noteq> FLAG_FIN)
      (modC (\<lambda>c. c\<lparr>recv_data := recv_data c @ get_data fr\<rparr>)) (c, w) = (Ok (), (?c, w))"
    by (simp add: collected_def rm_eval)
  show ?thesis
  proof (cases "callback c")
    case None
    then show ?thesis using assms first
      by (simp add: handle_recv_frame_def bindM_eval client_prim_eval rm_base_eval)
  next
    case (Some f)
    obtain r c2 w2 where cb: "call_back K f (ON_TEXT (collected c fr @ get_data fr)) (?c, w) = (r, (c2, w2))"
      by (metis prod.collapse)
    show ?thesis
      using assms first Some cb
      by (cases r) (simp_all add: handle_recv_frame_def rm_eval utf8_msg_def from_utf8_def Let_def)
  qed
qed

lemma handle_control_received:
  "kind fr = Control \<Longrightarrow> as_control_frame fr = Some fr \<Longrightarrow>
   handle_recv_frame E K fr s = handle_control_frame E K fr s"
  by (simp add: handle_recv_frame_def rm_eval)

lemma as_control_frame_eq: "as_control_frame fr = Some fr \<longleftrightarrow> as_control_frame fr \<noteq> None"
  by (cases fr) simp_all

lemma handle_unknown_frame:
  "kind fr = NotDefine \<Longrightarrow> handle_recv_frame E K fr s = (Err InvalidFrame, s)"
  by (simp add: handle_recv_frame_def rm_eval)

section \<open>The handshake's response\<close>

definition accepted :: "env \<Rightarrow> 't WSClient \<Rightarrow> Response \<Rightarrow> bool" where
  "accepted E c r \<longleftrightarrow>
     rsp_status_code r = SWITCHING_PROTOCOLS \<and>
     (case header E r (ascii ''Sec-WebSocket-Accept'') of
        None \<Rightarrow> False
      | Some a \<Rightarrow> verify_key E (websocket_key c) a)"

lemma handle_response:
  assumes "connection_status c = HANDSHAKE"
  shows "handle_recv_http_response E K r (c, w) =
    (if accepted E c r then
       (let s' = (c\<lparr>protocol := header E r (ascii ''Sec-WebSocket-Protocol''), connection_status := OPEN\<rparr>, w) in
        case callback c of None \<Rightarrow> (Ok (), s') | Some f \<Rightarrow> call_back K f (ON_CONNECT (body r)) s')
     else (Err HandShake, (c, w)))"
  using assms
  by (auto simp: handle_recv_http_response_def rm_eval accepted_def get_status_def
      SWITCHING_PROTOCOLS_def Let_def split: option.split)

lemma handle_response_late:
  "connection_status (fst s) \<noteq> HANDSHAKE \<Longrightarrow> handle_recv_http_response E K r s = (Ok (), s)"
  by (cases s) (simp add: handle_recv_http_response_def rm_eval)

section \<open>Sending\<close>

definition after_write :: "World \<Rightarrow> u8 list \<Rightarrow> World" where
  "after_write w bytes =
     w\<lparr>writes := snd (snd (write_all bytes (writes w))),
       trace := trace w @ [Sent (fst (snd (write_all bytes (writes w))))]\<rparr>"

text \<open>What the end of the server's closing handshake does, once the answer is written.\<close>

definition finish_close :: "'t cbk \<Rightarrow> u16 option \<Rightarrow> ('t, unit) cm" where
  "finish_close K st s = (case s of (c, w) \<Rightarrow>
     (let w' = w\<lparr>shutdowns := snd (next_answer True (shutdowns w)), trace := trace w @ [ShutdownBoth]\<rparr> in
      if \<not> fst (next_answer True (shutdowns w)) then (Err IOError, (c\<lparr>connection_status := CLOSE\<rparr>, w'))
      else
        (case callback c of
           None \<Rightarrow> (Ok (), (c\<lparr>connection_status := CLOSE, stream := None\<rparr>, w'))
         | Some f \<Rightarrow>
             call_back K f (ON_CLOSE (SERVER_CLOSE (case st of Some x \<Rightarrow> x | None \<Rightarrow> 0)))
               (c\<lparr>connection_status := CLOSE, stream := None\<rparr>, w'))))"

lemma handle_send_frame_eq:
  assumes "stream c \<noteq> None" and "kind fr = Control \<longrightarrow> as_control_frame fr \<noteq> None"
  shows "handle_send_frame E K fr (c, w) =
    (let w' = after_write w (serialize fr) in
     case fst (write_all (serialize fr) (writes w)) of
       Ok _ \<Rightarrow>
         if kind fr = Control \<and> connection_status c = SERVER_WANTS_TO_CLOSE
         then finish_close K (get_status_code fr) (c, w')
         else (Ok (), (c, w'))
     | Err k \<Rightarrow>
         if k = WouldBlock
         then (Ok (), (c\<lparr>output_events := WEBSOCKET_DATA fr # output_events c\<rparr>, w'))
         else (Err IOError, (c, w'))
     | Panic \<Rightarrow> (Panic, (c, w')))"
proof -
  obtain res sent rest where wr: "write_all (serialize fr) (writes w) = (res, sent, rest)"
    by (metis prod_cases3)
  have "kind fr = Control \<longrightarrow> as_control_frame fr = Some fr"
    using assms(2) by (simp add: as_control_frame_eq)
  with assms(1) wr show ?thesis
    by (auto simp: handle_send_frame_def try_write_def rm_eval push_front_output_def after_write_def finish_close_def stream_shutdown_def
        WebSocketError_from_def Let_def split: outcome.split option.split prod.split)
qed

lemma handle_send_request_eq:
  assumes "stream c \<noteq> None"
  shows "handle_send_http_request E r (c, w) =
    (let w' = after_write w (Request_serialize E r) in
     case fst (write_all (Request_serialize E r) (writes w)) of
       Ok _ \<Rightarrow> (Ok (), (c, w'))
     | Err k \<Rightarrow>
         if k = WouldBlock
         then (Ok (), (c\<lparr>output_events := HTTP_REQUEST r # output_events c\<rparr>, w'))
         else (Err IOError, (c, w'))
     | Panic \<Rightarrow> (Panic, (c, w')))"
proof -
  obtain res sent rest where wr: "write_all (Request_serialize E r) (writes w) = (res, sent, rest)"
    by (metis prod_cases3)
  show ?thesis
    using assms wr
    by (auto simp: handle_send_http_request_def try_write_def rm_eval push_front_output_def
        after_write_def Let_def split: outcome.split option.split prod.split)
qed

lemma send_without_stream:
  "stream c = None \<Longrightarrow> handle_send_frame E K fr (c, w) = (Panic, (c, w))"
  "stream c = None \<Longrightarrow> handle_send_http_request E r (c, w) = (Panic, (c, w))"
  by (simp_all add: handle_send_frame_def handle_send_http_request_def try_write_def rm_eval)

section \<open>Reading\<close>

text \<open>
  What one look at the socket and the storage yields: reading and parsing change nothing of
  the client but \<open>recv_storage\<close> and nothing of the world but the script of the reads.
\<close>

definition only_read :: "'t st \<Rightarrow> 't st \<Rightarrow> bool" where
  "only_read s s' \<longleftrightarrow>
     (\<exists>st rs. s' = ((fst s)\<lparr>recv_storage := st\<rparr>, (snd s)\<lparr>reads := rs\<rparr>))"

lemma only_readI [simp]:
  "only_read (c, w) (c\<lparr>recv_storage := st\<rparr>, w\<lparr>reads := rs\<rparr>)"
  "only_read (c, w) (c, w\<lparr>reads := rs\<rparr>)"
proof -
  show "only_read (c, w) (c\<lparr>recv_storage := st\<rparr>, w\<lparr>reads := rs\<rparr>)" for st
    by (auto simp: only_read_def)
  from this [of "recv_storage c"] show "only_read (c, w) (c, w\<lparr>reads := rs\<rparr>)" by simp
qed

lemma only_read_simps:
  assumes "only_read s s'"
  shows "connection_status (fst s') = connection_status (fst s)"
    and "stream (fst s') = stream (fst s)"
    and "input_events (fst s') = input_events (fst s)"
    and "output_events (fst s') = output_events (fst s)"
    and "callback (fst s') = callback (fst s)"
    and "websocket_key (fst s') = websocket_key (fst s)"
    and "trace (snd s') = trace (snd s)"
    and "writes (snd s') = writes (snd s)"
  using assms by (auto simp: only_read_def)

fun from_socket :: "ConnectionStatus \<Rightarrow> Event \<Rightarrow> bool" where
  "from_socket st NO_DATA = True"
| "from_socket st (HTTP_RESPONSE r) = (st = HANDSHAKE)"
| "from_socket st (WEBSOCKET_DATA f) = (st \<in> {OPEN, CLIENT_WANTS_TO_CLOSE, SERVER_WANTS_TO_CLOSE})"
| "from_socket st (HTTP_REQUEST r) = False"

text \<open>The storage after the read, and the outcome of looking at it.\<close>

definition look :: "env \<Rightarrow> ConnectionStatus \<Rightarrow> u8 list \<Rightarrow> (WebSocketError, Event \<times> u8 list) outcome" where
  "look E st storage =
     (if storage = [] then Ok (NO_DATA, storage)
      else if st = HANDSHAKE then
        (case Response_parse E storage of
           Panic \<Rightarrow> Panic
         | Err _ \<Rightarrow> Ok (NO_DATA, storage)
         | Ok r \<Rightarrow> Ok (HTTP_RESPONSE r, []))
      else if st \<in> {OPEN, CLIENT_WANTS_TO_CLOSE, SERVER_WANTS_TO_CLOSE} then
        (case bytes_to_frame E storage of
           Panic \<Rightarrow> Panic
         | Err e \<Rightarrow> Err e
         | Ok None \<Rightarrow> Ok (NO_DATA, storage)
         | Ok (Some (fr, offset)) \<Rightarrow>
             if offset \<le> length storage then Ok (WEBSOCKET_DATA fr, drop offset storage) else Panic)
      else Ok (NO_DATA, storage))"

definition one_read :: "read_answer list \<Rightarrow> (WebSocketError, u8 list) outcome \<times> read_answer list" where
  "one_read rs =
     (case rs of
        [] \<Rightarrow> (Ok [], [])
      | ReadError k # rs' \<Rightarrow> (if k = WouldBlock then Ok [] else Err IOError, rs')
      | ReadBytes bs # rs' \<Rightarrow>
          if bs = [] then (Err ConnectionClose, rs')
          else if length bs \<le> 1024 then (Ok bs, rs')
          else (Ok (take 1024 bs), ReadBytes (drop 1024 bs) # rs'))"

lemma read_into_buffer_socket:
  "read_into_buffer socket_read rs (replicate 1024 0) =
     (case one_read rs of
        (Ok bs, rs') \<Rightarrow> (Ok (length bs), rs', bs @ replicate (1024 - length bs) 0)
      | (Err ConnectionClose, rs') \<Rightarrow> (Err ConnectionClose, rs', replicate 1024 0)
      | (Err e, rs') \<Rightarrow> (Err e, rs', replicate 1024 0)
      | (Panic, rs') \<Rightarrow> (Panic, rs', replicate 1024 0))"
  by (auto simp: read_into_buffer_def one_read_def socket_read_def Let_def
      split: list.split read_answer.split)

lemma read_bytes_eq:
  assumes "stream c \<noteq> None"
  shows "read_bytes_from_socket E (c, w) =
    (case one_read (reads w) of
       (Ok bs, rs) \<Rightarrow>
         (case look E (connection_status c) (recv_storage c @ bs) of
            Ok (ev, st) \<Rightarrow> (Ok ev, (c\<lparr>recv_storage := st\<rparr>, w\<lparr>reads := rs\<rparr>))
          | Err e \<Rightarrow> (Err e, (c\<lparr>recv_storage := recv_storage c @ bs\<rparr>, w\<lparr>reads := rs\<rparr>))
          | Panic \<Rightarrow> (Panic, (c\<lparr>recv_storage := recv_storage c @ bs\<rparr>, w\<lparr>reads := rs\<rparr>)))
     | (Err e, rs) \<Rightarrow> (Err e, (c, w\<lparr>reads := rs\<rparr>))
     | (Panic, rs) \<Rightarrow> (Panic, (c, w\<lparr>reads := rs\<rparr>)))"
proof -
  obtain y where y: "stream c = Some y" using assms by auto
  obtain res rs where rd: "one_read (reads w) = (res, rs)" by (metis prod.collapse)
  show ?thesis
  proof (cases res)
    case (Ok bs)
    have store: "whenM (length bs > 0)
        (bindM (liftO (slice (bs @ replicate (1024 - length bs) 0) 0 (length bs))) (\<lambda>bs'.
         modC (\<lambda>c. c\<lparr>recv_storage := recv_storage c @ bs'\<rparr>))) (c, w\<lparr>reads := rs\<rparr>) =
        (Ok (), (c\<lparr>recv_storage := recv_storage c @ bs\<rparr>, w\<lparr>reads := rs\<rparr>))"
      by (simp add: rm_eval slice_def)
    show ?thesis
      unfolding read_bytes_from_socket_def bindM_eval
      by (cases "connection_status c")
         (auto simp: rd Ok y rm_eval read_into_buffer_socket store look_def
          handle_recv_bytes_frame_def handle_recv_bytes_http_response_def slice_def
          split: outcome.split option.split prod.split)
  qed (auto simp: read_bytes_from_socket_def rm_eval read_into_buffer_socket rd y split: WebSocketError.split)
qed

section \<open>One iteration\<close>

definition active :: "ConnectionStatus \<Rightarrow> bool" where
  "active st \<longleftrightarrow> st \<in> {HANDSHAKE, OPEN, CLIENT_WANTS_TO_CLOSE, SERVER_WANTS_TO_CLOSE}"

lemma active_simps [simp]:
  "\<not> active NOT_INIT" "\<not> active START_INIT" "active HANDSHAKE" "active OPEN"
  "active CLIENT_WANTS_TO_CLOSE" "active SERVER_WANTS_TO_CLOSE" "\<not> active CLOSE"
  by (simp_all add: active_def)

fun incoming :: "Event \<Rightarrow> Event option" where
  "incoming (WEBSOCKET_DATA f) = Some (WEBSOCKET_DATA f)"
| "incoming (HTTP_RESPONSE r) = Some (HTTP_RESPONSE r)"
| "incoming (HTTP_REQUEST r) = None"
| "incoming NO_DATA = None"

definition take_output :: "'t WSClient \<Rightarrow> Event option \<times> 't WSClient" where
  "take_output c =
     (case output_events c of
        [] \<Rightarrow> (None, c)
      | ev # evs \<Rightarrow>
          if connection_status c = HANDSHAKE \<and> is_websocket_data ev then (None, c)
          else (Some ev, c\<lparr>output_events := evs\<rparr>))"

lemma same_output: "output_events c = evs \<Longrightarrow> c\<lparr>output_events := evs\<rparr> = c"
  by auto

lemma same_input: "input_events c = evs \<Longrightarrow> c\<lparr>input_events := evs\<rparr> = c"
  by auto

lemma pop_output_event_eq:
  "pop_output_event (c, w) = (case take_output c of (out, c') \<Rightarrow> (Ok out, (c', w)))"
  by (auto simp: pop_output_event_def take_output_def same_output split: list.split)

lemma insert_pop:
  assumes "input_events c = []"
  shows "bindM (insert_input_event ev) (\<lambda>_. pop_front_input) (c, w) = (Ok (incoming ev), (c, w))"
  using assms
  by (cases ev) (auto simp: insert_input_event_def pop_front_input_def rm_eval same_input)

lemma bindM_insert_pop:
  assumes "input_events c = []"
  shows "thenM (insert_input_event ev) (bindM pop_front_input g) (c, w) = g (incoming ev) (c, w)"
  using insert_pop [OF assms, of ev w] by (subst bindM_assoc [symmetric]) (simp add: bindM_eval)

lemma event_loop_active:
  assumes "active (connection_status c)" and "stream c \<noteq> None" and "input_events c = []"
  shows "event_loop E K (c, w) =
    (case read_bytes_from_socket E (c, w) of
       (Ok ev, (c1, w1)) \<Rightarrow>
         (case take_output c1 of (out, c2) \<Rightarrow>
            thenM (handle_some E K INPUT (incoming ev)) (handle_some E K OUTPUT out) (c2, w1))
     | (Err e, s1) \<Rightarrow> (Err e, s1)
     | (Panic, s1) \<Rightarrow> (Panic, s1))"
proof -
  have st: "connection_status c \<noteq> NOT_INIT" "connection_status c \<noteq> START_INIT" "connection_status c \<noteq> CLOSE"
    using assms(1) by auto
  obtain r c1 w1 where rd: "read_bytes_from_socket E (c, w) = (r, (c1, w1))" by (metis prod.collapse)
  have "input_events c1 = []" if "r = Ok ev" for ev
    using rd assms(2,3) that by (auto simp: read_bytes_eq split: outcome.splits prod.splits)
  then show ?thesis
    unfolding event_loop_def bindM_eval [of "getC connection_status"] client_prim_eval
    by (cases r)
       (simp_all add: st bindM_eval [of "read_bytes_from_socket E"] rd bindM_insert_pop
         bindM_eval [of pop_output_event] pop_output_event_eq split: prod.split)
qed

lemma event_loop_idle:
  "connection_status (fst s) = NOT_INIT \<Longrightarrow> event_loop E K s = (Ok (), s)"
  "connection_status (fst s) = START_INIT \<Longrightarrow> event_loop E K s = start_init E s"
  "connection_status (fst s) = CLOSE \<Longrightarrow> event_loop E K s = (Err ConnectionClose, s)"
  by (cases s, simp add: event_loop_def rm_eval)+

section \<open>Connecting\<close>

text \<open>The headers of the request, or a panic: an empty list of protocols has no comma to cut off.\<close>

definition request_headers :: "env \<Rightarrow> str \<Rightarrow> str list option \<Rightarrow> (WebSocketError, Headers) outcome" where
  "request_headers E key protocols =
     (case protocols of
        None \<Rightarrow> Ok (handshake_headers key)
      | Some ps \<Rightarrow>
          bindO (protocols_header E ps) (\<lambda>v.
          Ok (AList.update (ascii ''Sec-WebSocket-Protocol'') v (handshake_headers key))))"

lemma start_init_eq:
  "start_init E (c, w) =
    (let key = gen_key E (rng_calls w);
         w1 = w\<lparr>connects := snd (next_answer False (connects w))\<rparr>;
         w2 = w1\<lparr>rng_calls := rng_calls w + 1, trace := trace w @ [Connected (host c) (port c)]\<rparr>;
         w3 = w2\<lparr>nonblocks := snd (next_answer True (nonblocks w))\<rparr> in
     if \<not> fst (next_answer False (connects w)) then (Err UnreachableHost, (c, w1))
     else
       (case request_headers E key (acceptable_protocols c) of
          Panic \<Rightarrow> (Panic, (c, w2))
        | Err e \<Rightarrow> (Err e, (c, w2))
        | Ok hs \<Rightarrow>
            (let c1 = c\<lparr>output_events :=
                          HTTP_REQUEST (Request_new GET (path c) (ascii ''HTTP/1.1'') (Some hs)) # output_events c,
                        websocket_key := key\<rparr> in
             if fst (next_answer True (nonblocks w))
             then (Ok (), (c1\<lparr>stream := Some (TcpStream (host c) (port c)), connection_status := HANDSHAKE\<rparr>, w3))
             else (Err IOError, (c1, w3)))))"
proof -
  let ?key = "gen_key E (rng_calls w)"
  obtain ok conns where conn: "next_answer False (connects w) = (ok, conns)" by (metis prod.collapse)
  obtain nb nbs where nb: "next_answer True (nonblocks w) = (nb, nbs)" by (metis prod.collapse)
  have hs: "(case acceptable_protocols c of
        None \<Rightarrow> retM (handshake_headers ?key)
      | Some ps \<Rightarrow>
          bindM (liftO (protocols_header E ps)) (\<lambda>v.
          retM (AList.update (ascii ''Sec-WebSocket-Protocol'') v (handshake_headers ?key)))) s =
      (request_headers E ?key (acceptable_protocols c), s)" for s :: "'a st"
    by (auto simp: request_headers_def rm_eval split: option.split outcome.split)
  show ?thesis
    by (cases "request_headers E ?key (acceptable_protocols c)"; cases ok; cases nb)
       (simp_all add: start_init_def rm_eval tcp_connect_def draw_key_def push_front_output_def hs
         conn nb set_nonblocking_def WebSocketError_from_def Let_def)
qed

end
