(* ===== verification/Client_Inv.thy ===== *)
theory Client_Inv
  imports Client_Handlers
begin

text \<open>
  The invariant of the client between two calls of its interface, and the facts about the
  handlers that the theorems on the event loop share.

  What a callback may do to the client it is called on is the interface between the client
  and its user: the locale \<open>callback_inv\<close> and its extension \<open>callback_api\<close> of the theory \<open>Client_Fsm\<close> state the
  contracts the results need, and the theory \<open>Example_Handler\<close> interprets them on the
  event handler of the repository's example program.
\<close>

section \<open>The invariant\<close>

text \<open>A frame fit to be sent: the header tells the truth, it is masked, and its kind is its type's.\<close>

definition sendable :: "Frame \<Rightarrow> bool" where
  "sendable f \<longleftrightarrow>
     frame_ok f \<and> mask_key (get_header f) \<noteq> None \<and>
     (kind f = Control \<longrightarrow> as_control_frame f \<noteq> None)"

fun out_ok :: "Event \<Rightarrow> bool" where
  "out_ok (WEBSOCKET_DATA f) = sendable f"
| "out_ok (HTTP_REQUEST _) = True"
| "out_ok (HTTP_RESPONSE _) = False"
| "out_ok NO_DATA = False"

definition client_ok :: "'t st \<Rightarrow> bool" where
  "client_ok s \<longleftrightarrow>
     (active (connection_status (fst s)) \<longrightarrow> stream (fst s) \<noteq> None) \<and>
     input_events (fst s) = [] \<and>
     list_all out_ok (output_events (fst s))"

text \<open>What the parser hands to the handlers.\<close>

definition received_ok :: "Frame \<Rightarrow> bool" where
  "received_ok f \<longleftrightarrow>
     (case f of
        DataFrame h d \<Rightarrow> kind f \<noteq> Control
      | ControlFrame h d st \<Rightarrow> st \<noteq> None \<and> 2 \<le> length d \<and> length d \<le> 125)"

fun in_ok :: "Event \<Rightarrow> bool" where
  "in_ok (WEBSOCKET_DATA f) = received_ok f"
| "in_ok _ = True"

lemma kind_DataFrame:
  "opc = OPCODE_TEXT \<or> opc = OPCODE_BINARY \<or> opc = OPCODE_CONTINUATION \<Longrightarrow>
   kind (DataFrame (Header_new fl opc m n) d) = Data"
  by (auto simp: kind_def opcode_defs)

lemma frame_payload_received:
  assumes "frame_payload E bytes fl opc n m i = Ok (f, offset)"
  shows "received_ok f"
proof (cases "opc = OPCODE_TEXT \<or> opc = OPCODE_BINARY \<or> opc = OPCODE_CONTINUATION")
  case True
  with assms show ?thesis
    by (auto simp: frame_payload_def Let_def DataFrame_new_def received_ok_def kind_DataFrame
        split: prod.splits)
next
  case False
  with assms show ?thesis
    by (auto simp: frame_payload_def Let_def ControlFrame_new_def received_ok_def u16.length_enc
        split: prod.splits if_splits)
qed

lemma bytes_to_frame_received:
  assumes "bytes_to_frame E bytes = Ok (Some (f, offset))"
  shows "received_ok f"
  using assms
  by (auto simp: bytes_to_frame_def Let_def dest: frame_payload_received
      split: if_splits option.splits prod.splits)

section \<open>Queueing frames\<close>

lemma message_frames_kind: "f \<in> set (message_frames E n first k xs) \<Longrightarrow> kind f = Data"
proof (induction E n first k xs rule: message_frames.induct)
  case (1 E n first k xs)
  then show ?case
    by (subst (asm) (2) message_frames.simps) (auto simp: kind_DataFrame split: if_splits)
qed

lemma sendable_message:
  "length xs < 2 ^ 63 \<Longrightarrow> f \<in> set (message_frames E n first k xs) \<Longrightarrow> sendable f"
  using message_frames_ok [of xs E n first k] message_frames_kind [of f E n first k xs]
  by (auto simp: sendable_def rfc_view_def simp del: not_None_eq)

lemma sendable_control:
  assumes "length (control_payload st dat) \<le> 125" and "opc \<in> {OPCODE_CLOSE, OPCODE_PING, OPCODE_PONG}"
  shows "sendable (fst (ControlFrame_new E FLAG_FIN opc st dat True None k))"
  using assms
  by (auto simp: ControlFrame_new_short sendable_def frame_ok_def get_mask_def unat_of_nat
      flag_defs opcode_defs)

lemma client_ok_simps [simp]:
  "client_ok (c\<lparr>recv_storage := x1\<rparr>, w) = client_ok (c, w)"
  "client_ok (c\<lparr>recv_data := x2\<rparr>, w) = client_ok (c, w)"
  "client_ok (c\<lparr>protocol := x3\<rparr>, w) = client_ok (c, w)"
  "client_ok (c\<lparr>websocket_key := x4\<rparr>, w) = client_ok (c, w)"
  "client_ok (c, w\<lparr>trace := x5\<rparr>) = client_ok (c, w)"
  "client_ok (c, w\<lparr>rng_calls := x6\<rparr>) = client_ok (c, w)"
  "client_ok (c, w\<lparr>reads := x7\<rparr>) = client_ok (c, w)"
  "client_ok (c, w\<lparr>writes := x8\<rparr>) = client_ok (c, w)"
  "client_ok (c, w\<lparr>shutdowns := x9\<rparr>) = client_ok (c, w)"
  "client_ok (c, w\<lparr>nonblocks := x10\<rparr>) = client_ok (c, w)"
  "client_ok (c, w\<lparr>connects := x11\<rparr>) = client_ok (c, w)"
  "client_ok (c\<lparr>output_events := ev # output_events c\<rparr>, w) = (out_ok ev \<and> client_ok (c, w))"
  "client_ok (c\<lparr>connection_status := CLOSE\<rparr>, w) =
     (input_events c = [] \<and> list_all out_ok (output_events c))"
  "client_ok (c\<lparr>connection_status := CLOSE, stream := x12\<rparr>, w) =
     (input_events c = [] \<and> list_all out_ok (output_events c))"
  by (auto simp: client_ok_def)

section \<open>Reading and popping\<close>

lemma look_cases:
  assumes "look E st storage = Ok (ev, rest)"
  shows "in_ok ev \<and> from_socket st ev"
  using assms
  using bytes_to_frame_received [of E storage]
  by (auto simp: look_def split: if_splits outcome.splits option.splits)

lemma read_outcome:
  assumes "stream c \<noteq> None" and "read_bytes_from_socket E (c, w) = (r, s')"
  shows "only_read (c, w) s' \<and> (\<forall>ev. r = Ok ev \<longrightarrow> in_ok ev \<and> from_socket (connection_status c) ev)"
  using assms
  by (auto simp: read_bytes_eq dest: look_cases split: outcome.splits prod.splits)

lemma only_read_ok: "only_read s s' \<Longrightarrow> client_ok s' = client_ok s"
  by (cases s) (auto simp: only_read_def)

lemma take_output_cases:
  assumes "take_output c = (out, c')"
  obtains "out = None" and "c' = c"
  | ev evs where "out = Some ev" and "output_events c = ev # evs" and "c' = c\<lparr>output_events := evs\<rparr>"
      and "\<not> (connection_status c = HANDSHAKE \<and> is_websocket_data ev)"
  using assms by (auto simp: take_output_def split: list.splits if_splits)

lemma take_output_ok:
  assumes "client_ok (c, w)" and "take_output c = (out, c')"
  shows "client_ok (c', w) \<and> (\<forall>ev. out = Some ev \<longrightarrow> out_ok ev)"
  using assms(2) by (rule take_output_cases) (use assms(1) in \<open>auto simp: client_ok_def\<close>)

lemma take_output_fields:
  assumes "take_output c = (out, c')"
  shows "connection_status c' = connection_status c" and "stream c' = stream c"
    and "callback c' = callback c" and "recv_data c' = recv_data c"
    and "websocket_key c' = websocket_key c"
  by (rule take_output_cases [OF assms]; simp)+

section \<open>The contract of a callback\<close>

locale callback_inv =
  fixes K :: "'t cbk"
  assumes keeps_ok: "client_ok s \<Longrightarrow> client_ok (snd (K f ev d s))"
begin

lemma call_back_ok:
  "client_ok (c, w) \<Longrightarrow> (\<And>r s'. client_ok s' \<Longrightarrow> Q r s') \<Longrightarrow> wp (call_back K f ev) Q (c, w)"
  using keeps_ok [of "(c, w\<lparr>trace := trace w @ [Called ev]\<rparr>)" f ev "cb_data c"]
  by (auto simp: wp_simps split: prod.split)

lemma call_back_keeps: "client_ok s \<Longrightarrow> client_ok (snd (call_back K f ev s))"
  using keeps_ok [of "(fst s, (snd s)\<lparr>trace := trace (snd s) @ [Called ev]\<rparr>)" f ev "cb_data (fst s)"]
  by (cases s) (auto simp: call_back_def split: prod.split)

lemma handle_control_frame_ok:
  assumes "client_ok (c, w)" and "received_ok fr" and "kind fr = Control"
  shows "client_ok (snd (handle_control_frame E K fr (c, w)))"
proof -
  obtain h d st where fr: "fr = ControlFrame h d (Some st)" and d: "2 \<le> length d" "length d \<le> 125"
    using assms(2,3) by (cases fr) (auto simp: received_ok_def)
  have pong: "sendable (pong_for E fr k)" for k
    unfolding pong_for_def using d by (intro sendable_control) (simp_all add: length_control_payload fr)
  have close: "sendable (close_reply E (get_data fr) k)" for k
    unfolding close_reply_def using d by (intro sendable_control) (simp_all add: length_control_payload fr)
  consider "code h = OPCODE_PING" | "code h = OPCODE_PONG" | "code h = OPCODE_CLOSE"
    using assms(3) by (auto simp: kind_def fr Let_def split: if_splits)
  then show ?thesis
  proof cases
    case 1
    then show ?thesis using assms(1) pong by (simp add: handle_ping fr)
  next
    case 2
    then show ?thesis using assms(1) by (simp add: handle_pong fr)
  next
    case 3
    then have code: "code (get_header fr) = OPCODE_CLOSE" "2 \<le> length (get_data fr)"
      using d by (simp_all add: fr)
    consider "connection_status c = OPEN" | "connection_status c = CLIENT_WANTS_TO_CLOSE"
      | "connection_status c \<notin> {OPEN, CLIENT_WANTS_TO_CLOSE}" by blast
    then show ?thesis
    proof cases
      case 1
      then show ?thesis
        using assms(1) close by (simp add: handle_close_open [OF code] client_ok_def)
    next
      case 2
      then have stream: "stream c \<noteq> None" and ok: "input_events c = []" "list_all out_ok (output_events c)"
        using assms(1) by (simp_all add: client_ok_def)
      have st: "get_status_code fr = Some st" by (simp add: fr)
      show ?thesis
        using ok by (simp add: handle_close_ack [OF code 2 stream st] Let_def call_back_keeps split: option.split)
    next
      case 3
      then show ?thesis using assms(1) by (simp add: handle_close_late [OF code])
    qed
  qed
qed

lemma handle_recv_frame_ok:
  assumes "client_ok (c, w)" and "received_ok fr"
  shows "client_ok (snd (handle_recv_frame E K fr (c, w)))"
proof (cases "kind fr")
  case Data
  let ?s = "(c\<lparr>recv_data := collected c fr\<rparr>, w)"
  have s: "client_ok ?s" using assms(1) by simp
  show ?thesis
  proof (cases "callback c")
    case None
    then show ?thesis using s by (simp add: handle_data_frame [OF Data])
  next
    case (Some f)
    obtain r c2 w2 where cb: "call_back K f (ON_TEXT (collected c fr @ get_data fr)) ?s = (r, (c2, w2))"
      by (metis prod.collapse)
    from call_back_keeps [OF s, of f "ON_TEXT (collected c fr @ get_data fr)"] cb
    have "client_ok (c2, w2)" by simp
    with Some cb s show ?thesis
      by (simp add: handle_data_frame [OF Data] Let_def call_back_keeps split: outcome.split)
  qed
next
  case Control
  then have "as_control_frame fr = Some fr" using assms(2) by (cases fr) (simp_all add: received_ok_def)
  with Control assms show ?thesis by (simp add: handle_control_received handle_control_frame_ok)
next
  case NotDefine
  then show ?thesis using assms by (simp add: handle_unknown_frame)
qed

lemma handle_response_ok:
  assumes "client_ok (c, w)"
  shows "client_ok (snd (handle_recv_http_response E K r (c, w)))"
proof (cases "connection_status c = HANDSHAKE")
  case True
  then have "client_ok (c\<lparr>protocol := p, connection_status := OPEN\<rparr>, w)" for p
    using assms by (simp add: client_ok_def)
  then show ?thesis
    using assms by (simp add: handle_response [OF True] Let_def call_back_keeps split: option.split)
next
  case False
  then show ?thesis using assms by (simp add: handle_response_late)
qed

lemma finish_close_ok:
  "input_events c = [] \<Longrightarrow> list_all out_ok (output_events c) \<Longrightarrow>
   client_ok (snd (finish_close K st (c, w)))"
  by (simp add: finish_close_def Let_def call_back_keeps split: option.split)

lemma handle_send_frame_ok:
  assumes "client_ok (c, w)" and "stream c \<noteq> None" and "sendable fr"
  shows "client_ok (snd (handle_send_frame E K fr (c, w)))"
proof -
  have "kind fr = Control \<longrightarrow> as_control_frame fr \<noteq> None" using assms(3) by (simp add: sendable_def)
  moreover have "input_events c = []" "list_all out_ok (output_events c)"
    using assms(1) by (simp_all add: client_ok_def)
  ultimately show ?thesis
    using assms
    by (simp add: handle_send_frame_eq Let_def after_write_def finish_close_ok split: outcome.split)
qed

lemma handle_send_request_ok:
  "client_ok (c, w) \<Longrightarrow> stream c \<noteq> None \<Longrightarrow> client_ok (snd (handle_send_http_request E r (c, w)))"
  by (simp add: handle_send_request_eq Let_def after_write_def split: outcome.split)

lemma handle_input_ok:
  assumes "client_ok s" and "in_ok ev"
  shows "client_ok (snd (handle_some E K INPUT (incoming ev) s))"
  using assms
  by (cases s; cases ev)
     (auto simp: handle_some_def handle_event_def rm_eval handle_recv_frame_ok handle_response_ok)

lemma handle_output_ok:
  assumes "client_ok s" and "\<forall>ev. out = Some ev \<longrightarrow> out_ok ev"
  shows "client_ok (snd (handle_some E K OUTPUT out s))"
proof (cases out)
  case (Some ev)
  then show ?thesis
    using assms
    by (cases s; cases ev; cases "stream (fst s)")
       (auto simp: handle_some_def handle_event_def rm_eval handle_send_frame_ok handle_send_request_ok
         send_without_stream)
qed (use assms in \<open>simp add: handle_some_def rm_eval\<close>)

lemma start_init_ok: "client_ok (c, w) \<Longrightarrow> client_ok (snd (start_init E (c, w)))"
  by (auto simp: start_init_eq Let_def client_ok_def split: outcome.split)

theorem event_loop_ok:
  assumes "client_ok s"
  shows "client_ok (snd (event_loop E K s))"
proof -
  obtain c w where s: "s = (c, w)" by (cases s)
  consider "connection_status c = START_INIT" | "connection_status c \<in> {NOT_INIT, CLOSE}"
    | "active (connection_status c)"
    by (cases "connection_status c") auto
  then show ?thesis
  proof cases
    case 1
    then show ?thesis using assms by (simp add: s event_loop_idle start_init_ok)
  next
    case 2
    then show ?thesis using assms by (auto simp: s event_loop_idle)
  next
    case 3
    then have c: "stream c \<noteq> None" "input_events c = []" using assms by (auto simp: s client_ok_def)
    obtain r c1 w1 where rd: "read_bytes_from_socket E (c, w) = (r, (c1, w1))" by (metis prod.collapse)
    note read = read_outcome [OF c(1) rd]
    have ok1: "client_ok (c1, w1)" using assms only_read_ok read by (auto simp: s)
    show ?thesis
    proof (cases r)
      case (Ok ev)
      obtain out c2 where out: "take_output c1 = (out, c2)" by (cases "take_output c1")
      note ok2 = take_output_ok [OF ok1 out]
      obtain r3 s3 where in': "handle_some E K INPUT (incoming ev) (c2, w1) = (r3, s3)"
        by (metis prod.collapse)
      have "client_ok s3"
        using handle_input_ok [of "(c2, w1)" ev E] ok2 read Ok in' by simp
      then show ?thesis
        using handle_output_ok [of s3 out E] ok2
        by (simp add: s event_loop_active [OF 3 c] rd Ok out rm_eval in' split: outcome.split)
    qed (use ok1 in \<open>simp_all add: s event_loop_active [OF 3 c] rd\<close>)
  qed
qed

end

end
