(* ===== verification/Client_Fsm.thy ===== *)
theory Client_Fsm
  imports Client_Inv
begin

text \<open>
  The life of a connection as a state machine, and what one iteration of the event loop does
  to it. A callback is taken to do what the client's interface offers it: the contract
  \<open>callback_api\<close>. The state machine is the relation \<open>conn_step\<close>; the event loop refines it.
\<close>

section \<open>What a callback does through the interface\<close>

text \<open>The combined effect of any number of calls of \<open>send\<close>, \<open>set_message_size\<close> and \<open>set_timeout\<close>.\<close>

definition api_effect :: "'t st \<Rightarrow> 't st \<Rightarrow> bool" where
  "api_effect s s' \<longleftrightarrow>
     (\<exists>fs ms tmo d k. list_all sendable fs \<and>
        s' = ((fst s)\<lparr>output_events := output_events (fst s) @ map WEBSOCKET_DATA fs,
                      message_size := ms, timeout := tmo, cb_data := d\<rparr>,
              (snd s)\<lparr>rng_calls := k\<rparr>))"

lemma api_effectI:
  "list_all sendable fs \<Longrightarrow>
   api_effect (c, w)
     (c\<lparr>output_events := output_events c @ map WEBSOCKET_DATA fs, message_size := ms, timeout := tmo,
        cb_data := d\<rparr>, w\<lparr>rng_calls := k\<rparr>)"
  unfolding api_effect_def by auto

lemma api_effect_refl: "api_effect s s"
proof -
  obtain c w where s: "s = (c, w)" by (cases s)
  have "api_effect (c, w)
     (c\<lparr>output_events := output_events c @ map WEBSOCKET_DATA [], message_size := message_size c,
        timeout := timeout c, cb_data := cb_data c\<rparr>, w\<lparr>rng_calls := rng_calls w\<rparr>)"
    by (rule api_effectI) simp
  then show ?thesis by (simp add: s)
qed

lemma api_effect_trans:
  assumes "api_effect s s'" and "api_effect s' s''"
  shows "api_effect s s''"
proof -
  obtain c w where s: "s = (c, w)" by (cases s)
  from assms(1) obtain fs ms tmo d k where 1: "list_all sendable fs"
    "s' = (c\<lparr>output_events := output_events c @ map WEBSOCKET_DATA fs, message_size := ms, timeout := tmo,
        cb_data := d\<rparr>, w\<lparr>rng_calls := k\<rparr>)"
    by (auto simp: api_effect_def s)
  from assms(2) obtain fs' ms' tmo' d' k' where 2: "list_all sendable fs'"
    "s'' = (c\<lparr>output_events := output_events c @ map WEBSOCKET_DATA (fs @ fs'), message_size := ms',
        timeout := tmo', cb_data := d'\<rparr>, w\<lparr>rng_calls := k'\<rparr>)"
    by (auto simp: api_effect_def 1(2))
  show ?thesis unfolding s 2(2) using 1(1) 2(1) by (intro api_effectI) simp
qed

lemma api_effect_fields:
  assumes "api_effect s s'"
  shows "connection_status (fst s') = connection_status (fst s)" and "stream (fst s') = stream (fst s)"
    and "input_events (fst s') = input_events (fst s)" and "recv_data (fst s') = recv_data (fst s)"
    and "recv_storage (fst s') = recv_storage (fst s)" and "callback (fst s') = callback (fst s)"
    and "trace (snd s') = trace (snd s)" and "writes (snd s') = writes (snd s)"
    and "reads (snd s') = reads (snd s)"
    and "\<exists>fs. list_all sendable fs \<and> output_events (fst s') = output_events (fst s) @ map WEBSOCKET_DATA fs"
  using assms by (auto simp: api_effect_def)

lemma api_effect_ok: "api_effect s s' \<Longrightarrow> client_ok s \<Longrightarrow> client_ok s'"
  by (cases s) (auto simp: api_effect_def client_ok_def list_all_iff)

text \<open>\<open>send\<close> is such a call, whether it returns or panics.\<close>

lemma send_queued:
  assumes "send E payload s = Some (r, s')" and "length payload < 2 ^ 63"
  shows "\<exists>fs. list_all sendable fs \<and> s' = queued fs s"
proof (cases "connection_status (fst s) = CLOSE \<or> payload = []")
  case True
  then have "s' = s" using assms(1) by (auto simp: send_def send_loop.simps [of E "[]"] split: if_splits)
  then show ?thesis by (intro exI [of _ "[]"]) simp
next
  case False
  let ?n = "unat (message_size (fst s))"
  let ?fs = "message_frames E ?n True (rng_calls (snd s)) payload"
  have loop: "send_loop E payload 0 s = Some (r, s')" using assms(1) False by (simp add: send_def)
  have cut: "at_cut ?n 0 payload" using assms(2) unat_u64_less by (simp add: at_cut_def)
  have n: "0 < ?n" using send_loop_stuck [OF loop] assms(2) False by auto
  have "\<exists>m. s' = queued (take m ?fs) s"
  proof (cases "cuts_ok ?n 0 payload")
    case True
    from send_loop_ok [OF n cut True refl, of E] loop have "s' = queued (take (length ?fs) ?fs) s" by simp
    then show ?thesis ..
  next
    case False
    from send_loop_panic [OF n cut False refl, of E] loop show ?thesis by auto
  qed
  then obtain m where m: "s' = queued (take m ?fs) s" ..
  moreover have "list_all sendable (take m ?fs)"
    using sendable_message [OF assms(2)] by (auto simp: list_all_iff dest: in_set_takeD)
  ultimately show ?thesis by blast
qed

lemma queued_effect:
  assumes "list_all sendable fs"
  shows "api_effect s (queued fs s)"
proof -
  have "api_effect (fst s, snd s)
      ((fst s)\<lparr>output_events := output_events (fst s) @ map WEBSOCKET_DATA fs,
        message_size := message_size (fst s), timeout := timeout (fst s), cb_data := cb_data (fst s)\<rparr>,
       (snd s)\<lparr>rng_calls := rng_calls (snd s) + length fs\<rparr>)"
    using assms by (rule api_effectI)
  then show ?thesis by (simp add: queued_def)
qed

lemma send_effect:
  assumes "send E payload s = Some (r, s')" and "length payload < 2 ^ 63"
  shows "api_effect s s'"
  using send_queued [OF assms] queued_effect by blast

locale callback_api =
  fixes K :: "'t cbk"
  assumes effect: "api_effect s (snd (K f ev d s))"
begin

lemma call_back_effect:
  "api_effect (c, w\<lparr>trace := trace w @ [Called ev]\<rparr>) (snd (call_back K f ev (c, w)))"
  using effect [of "(c, w\<lparr>trace := trace w @ [Called ev]\<rparr>)" f ev "cb_data c"]
  by (auto simp: call_back_def split: prod.split)

lemma call_back_status [simp]:
  "connection_status (fst (snd (call_back K f ev s))) = connection_status (fst s)"
  "stream (fst (snd (call_back K f ev s))) = stream (fst s)"
  "trace (snd (snd (call_back K f ev s))) = trace (snd s) @ [Called ev]"
  "writes (snd (snd (call_back K f ev s))) = writes (snd s)"
  using api_effect_fields [OF call_back_effect [where c = "fst s" and w = "snd s"]] by simp_all

end

sublocale callback_api \<subseteq> callback_inv K
  by unfold_locales (rule api_effect_ok [OF effect])

text \<open>The stronger assumption of the results on panics.\<close>

definition never_panics :: "'t cbk \<Rightarrow> bool" where
  "never_panics K \<longleftrightarrow> (\<forall>f ev d s. fst (K f ev d s))"

lemma call_back_returns: "never_panics K \<Longrightarrow> fst (call_back K f ev s) = Ok ()"
  by (cases s) (simp add: never_panics_def call_back_def case_prod_beta)

section \<open>The state machine\<close>

text \<open>What can happen to a connection in one handler.\<close>

inductive conn_step :: "ConnectionStatus \<Rightarrow> ConnectionStatus \<Rightarrow> bool" where
  stay: "conn_step st st"
| connected: "conn_step START_INIT HANDSHAKE"
| accepted: "conn_step HANDSHAKE OPEN"
| server_closes: "conn_step OPEN SERVER_WANTS_TO_CLOSE"
| answer_sent: "conn_step SERVER_WANTS_TO_CLOSE CLOSE"
| server_answered: "conn_step CLIENT_WANTS_TO_CLOSE CLOSE"

inductive_cases conn_step_from_openE: "conn_step OPEN st"
inductive_cases conn_step_from_closeE: "conn_step CLOSE st"
inductive_cases conn_step_to_openE: "conn_step st OPEN"
inductive_simps conn_step_simps:
  "conn_step NOT_INIT st" "conn_step START_INIT st" "conn_step HANDSHAKE st" "conn_step OPEN st"
  "conn_step SERVER_WANTS_TO_CLOSE st" "conn_step CLIENT_WANTS_TO_CLOSE st" "conn_step CLOSE st"

lemma conn_step_mono: "conn_step a b \<Longrightarrow> a \<le> b"
  by (induction rule: conn_step.induct) (simp_all add: status_order)

lemma conn_path_mono: "conn_step\<^sup>*\<^sup>* a b \<Longrightarrow> a \<le> b"
  by (induction rule: rtranclp_induct) (auto dest: conn_step_mono)

section \<open>The handlers refine the state machine\<close>

abbreviation stat :: "'t st \<Rightarrow> ConnectionStatus" where
  "stat s \<equiv> connection_status (fst s)"

context callback_api begin

lemma control_frame_step:
  assumes "client_ok s" and "received_ok fr" and "kind fr = Control"
  shows "conn_step (stat s) (stat (snd (handle_control_frame E K fr s)))"
proof -
  obtain c w where s: "s = (c, w)" by (cases s)
  obtain h d st where fr: "fr = ControlFrame h d (Some st)" and d: "2 \<le> length d"
    using assms(2,3) by (cases fr) (auto simp: received_ok_def)
  then have st: "get_status_code fr = Some st" and d: "2 \<le> length (get_data fr)" by simp_all
  consider "code (get_header fr) = OPCODE_PING" | "code (get_header fr) = OPCODE_PONG"
    | "code (get_header fr) = OPCODE_CLOSE"
    using assms(3) by (auto simp: kind_def Let_def split: if_splits)
  then show ?thesis
  proof cases
    case 1
    then show ?thesis by (simp add: s handle_ping stay)
  next
    case 2
    then show ?thesis by (simp add: handle_pong stay)
  next
    case 3
    show ?thesis
    proof (cases "stat s")
      case OPEN
      then show ?thesis using handle_close_open [OF 3 d, of c E K w] by (simp add: s conn_step_simps)
    next
      case CLIENT_WANTS_TO_CLOSE
      then have cw: "connection_status c = CLIENT_WANTS_TO_CLOSE" "stream c \<noteq> None"
        using assms(1) by (simp_all add: s client_ok_def)
      show ?thesis
        using cw by (simp add: s handle_close_ack [OF 3 d cw st] Let_def conn_step_simps split: option.split)
    qed (simp_all add: handle_close_late [OF 3 d] stay)
  qed
qed

lemma recv_frame_step:
  assumes "client_ok s" and "received_ok fr"
  shows "conn_step (stat s) (stat (snd (handle_recv_frame E K fr s)))"
proof (cases "kind fr")
  case Data
  obtain c w where s: "s = (c, w)" by (cases s)
  let ?s = "(c\<lparr>recv_data := collected c fr\<rparr>, w)"
  show ?thesis
  proof (cases "callback c")
    case None
    then show ?thesis by (simp add: s handle_data_frame [OF Data] stay)
  next
    case (Some f)
    obtain r c2 w2 where cb: "call_back K f (ON_TEXT (collected c fr @ get_data fr)) ?s = (r, (c2, w2))"
      by (metis prod.collapse)
    then have "connection_status c2 = connection_status c"
      using call_back_status(1) [of f "ON_TEXT (collected c fr @ get_data fr)" ?s] by simp
    with Some cb show ?thesis
      by (simp add: s handle_data_frame [OF Data] Let_def stay split: outcome.split)
  qed
next
  case Control
  then have "as_control_frame fr = Some fr" using assms(2) by (cases fr) (simp_all add: received_ok_def)
  with Control assms show ?thesis by (simp add: handle_control_received control_frame_step)
next
  case NotDefine
  then show ?thesis by (simp add: handle_unknown_frame stay)
qed

lemma response_step: "conn_step (stat s) (stat (snd (handle_recv_http_response E K r s)))"
proof (cases "stat s = HANDSHAKE")
  case True
  obtain c w where s: "s = (c, w)" by (cases s)
  with True show ?thesis
    by (simp add: handle_response Let_def conn_step_simps split: option.split)
qed (simp add: handle_response_late stay)

lemma send_frame_step:
  assumes "sendable fr" and "stream (fst s) \<noteq> None"
  shows "conn_step (stat s) (stat (snd (handle_send_frame E K fr s)))"
proof -
  obtain c w where s: "s = (c, w)" by (cases s)
  have "kind fr = Control \<longrightarrow> as_control_frame fr \<noteq> None" using assms(1) by (simp add: sendable_def)
  with assms show ?thesis
    by (auto simp: s handle_send_frame_eq Let_def finish_close_def conn_step_simps stay
        split: outcome.split option.split)
qed

lemma send_request_step: "stream (fst s) \<noteq> None \<Longrightarrow> conn_step (stat s) (stat (snd (handle_send_http_request E r s)))"
  by (cases s) (auto simp: handle_send_request_eq Let_def stay split: outcome.split)

lemma input_step:
  assumes "client_ok s" and "in_ok ev"
  shows "conn_step (stat s) (stat (snd (handle_some E K INPUT (incoming ev) s)))"
  using assms
  by (cases ev)
     (auto simp: handle_some_def handle_event_def rm_eval recv_frame_step response_step stay)

lemma output_step:
  assumes "\<forall>ev. out = Some ev \<longrightarrow> out_ok ev"
  shows "conn_step (stat s) (stat (snd (handle_some E K OUTPUT out s)))"
proof (cases out)
  case (Some ev)
  then show ?thesis
    using assms
    by (cases ev; cases "stream (fst s)")
       (auto simp: handle_some_def handle_event_def rm_eval send_frame_step send_request_step
         send_without_stream [of "fst s", where w = "snd s", simplified] stay)
qed (simp add: handle_some_def rm_eval stay)

text \<open>
  The anatomy of an iteration on an active connection: the look at the socket, and then the
  two handlers, the second one only when the first one succeeds.
\<close>

lemma iteration:
  assumes "client_ok (c, w)" and "active (connection_status c)"
  obtains
    (read_failed) r s1 where "event_loop E K (c, w) = (r, s1)" and "\<not> is_ok r"
      and "only_read (c, w) s1" and "client_ok s1"
      and "fst (read_bytes_from_socket E (c, w)) = (case r of Ok _ \<Rightarrow> Ok NO_DATA | Err e \<Rightarrow> Err e | Panic \<Rightarrow> Panic)"
  | (handled) ev c1 w1 out c2 where "read_bytes_from_socket E (c, w) = (Ok ev, (c1, w1))"
      and "only_read (c, w) (c1, w1)" and "in_ok ev" and "from_socket (connection_status c) ev"
      and "take_output c1 = (out, c2)" and "client_ok (c2, w1)"
      and "\<forall>e. out = Some e \<longrightarrow> out_ok e"
      and "event_loop E K (c, w) =
        thenM (handle_some E K INPUT (incoming ev)) (handle_some E K OUTPUT out) (c2, w1)"
proof -
  have c: "stream c \<noteq> None" "input_events c = []" using assms by (auto simp: client_ok_def)
  obtain r c1 w1 where rd: "read_bytes_from_socket E (c, w) = (r, (c1, w1))" by (metis prod.collapse)
  note read = read_outcome [OF c(1) rd]
  have ok1: "client_ok (c1, w1)" using assms only_read_ok read by auto
  note loop = event_loop_active [OF assms(2) c, of E K w, unfolded rd]
  show thesis
  proof (cases r)
    case (Ok ev)
    obtain out c2 where out: "take_output c1 = (out, c2)" by (cases "take_output c1")
    from take_output_ok [OF ok1 out] show thesis
      using read rd loop Ok out by (intro handled [of ev c1 w1 out c2]) simp_all
  next
    case (Err e)
    then show thesis using read rd loop ok1 by (intro read_failed [of "Err e" "(c1, w1)"]) simp_all
  next
    case Panic
    then show thesis using read rd loop ok1 by (intro read_failed [of Panic "(c1, w1)"]) simp_all
  qed
qed

lemma start_init_step: "connection_status c = START_INIT \<Longrightarrow> conn_step START_INIT (stat (snd (start_init E (c, w))))"
  by (auto simp: start_init_eq Let_def conn_step_simps split: outcome.split)

lemma event_loop_steps:
  assumes "client_ok s"
  shows "\<exists>mid. conn_step (stat s) mid \<and> conn_step mid (stat (snd (event_loop E K s)))"
proof -
  obtain c w where s: "s = (c, w)" by (cases s)
  consider "connection_status c = START_INIT" | "connection_status c \<in> {NOT_INIT, CLOSE}"
    | "active (connection_status c)"
    by (cases "connection_status c") auto
  then show ?thesis
  proof cases
    case 1
    then show ?thesis using start_init_step [OF 1, of E w] stay by (auto simp: s event_loop_idle)
  next
    case 2
    then show ?thesis by (auto simp: s event_loop_idle conn_step_simps)
  next
    case 3
    from assms [unfolded s] 3 show ?thesis
    proof (cases rule: iteration [where E = E])
      case (read_failed r s1)
      then show ?thesis using only_read_simps(1) [OF read_failed(3)] stay by (auto simp: s)
    next
      case (handled ev c1 w1 out c2)
      have st2: "connection_status c2 = connection_status c"
        using take_output_fields(1) [OF handled(5)] only_read_simps(1) [OF handled(2)] by simp
      obtain r3 s3 where in': "handle_some E K INPUT (incoming ev) (c2, w1) = (r3, s3)"
        by (metis prod.collapse)
      have 1: "conn_step (connection_status c) (stat s3)"
        using input_step [OF handled(6,3), of E] in' st2 by simp
      have 2: "conn_step (stat s3) (stat (snd (event_loop E K (c, w))))"
        using output_step [OF handled(7), of s3 E] stay
        by (cases r3) (simp_all add: handled(8) rm_eval in')
      from 1 2 show ?thesis unfolding s by auto
    qed
  qed
qed

end

end
