(* ===== verification/Client_Loop.thy ===== *)
theory Client_Loop
  imports Client_Fsm
begin

text \<open>
  What one iteration of the event loop puts on the wire, when it opens a connection and when
  it panics.
\<close>

section \<open>What goes on the wire\<close>

text \<open>
  An entry of the trace is sound when bytes sent are an initial part of a message fit to be sent,
  and a text handed to the callback is valid UTF-8.
\<close>

fun sound_io :: "env \<Rightarrow> bool \<Rightarrow> io_event \<Rightarrow> bool" where
  "sound_io E frames (Sent bs) =
     ((\<exists>r. prefix bs (Request_serialize E r)) \<or>
      (frames \<and> (\<exists>f. sendable f \<and> prefix bs (serialize f))))"
| "sound_io E frames (Connected h p) = True"
| "sound_io E frames ShutdownBoth = True"
| "sound_io E frames (Called ev) = (\<forall>m. ev = ON_TEXT m \<longrightarrow> utf8_valid m)"

lemma write_prefix: "prefix (fst (snd (write_all bs ws))) bs"
  using write_all_prefix [of bs ws "fst (write_all bs ws)" "fst (snd (write_all bs ws))"
      "snd (snd (write_all bs ws))"]
  by (auto simp: prefix_def)

text \<open>\<open>wrote P s s'\<close>: from \<open>s\<close> to \<open>s'\<close> the trace grew by entries that satisfy \<open>P\<close>.\<close>

definition wrote :: "(io_event \<Rightarrow> bool) \<Rightarrow> 't st \<Rightarrow> 't st \<Rightarrow> bool" where
  "wrote P s s' \<longleftrightarrow> (\<exists>new. trace (snd s') = trace (snd s) @ new \<and> list_all P new)"

lemma wrote_same: "trace (snd s') = trace (snd s) \<Longrightarrow> wrote P s s'"
  by (auto simp: wrote_def intro: exI [of _ "[]"])

lemma wrote_one: "trace (snd s') = trace (snd s) @ [x] \<Longrightarrow> P x \<Longrightarrow> wrote P s s'"
  by (auto simp: wrote_def intro: exI [of _ "[x]"])

lemma wrote_trans: "wrote P s s' \<Longrightarrow> wrote P s' s'' \<Longrightarrow> wrote P s s''"
  by (auto simp: wrote_def)

lemma wrote_mono: "wrote P s s' \<Longrightarrow> (\<And>x. P x \<Longrightarrow> Q x) \<Longrightarrow> wrote Q s s'"
  by (auto simp: wrote_def list_all_iff)

text \<open>What the handlers of input do outside: no send, and calls of the callback, with valid UTF-8.\<close>

definition input_io :: "io_event \<Rightarrow> bool" where
  "input_io x \<longleftrightarrow> (\<forall>bs. x \<noteq> Sent bs) \<and> (\<forall>m. x = Called (ON_TEXT m) \<longrightarrow> utf8_valid m)"

lemma input_io_simps [simp]:
  "\<not> input_io (Sent bs)" "input_io (Connected h p)" "input_io ShutdownBoth"
  "input_io (Called (ON_TEXT m)) = utf8_valid m" "input_io (Called (ON_CONNECT b))"
  "input_io (Called (ON_CLOSE r))"
  by (simp_all add: input_io_def)

lemma input_io_sound: "input_io x \<Longrightarrow> sound_io E frames x"
  by (cases x) (auto simp: input_io_def)

lemma wrote_sound: "wrote input_io s s' \<Longrightarrow> wrote (sound_io E frames) s s'"
  by (rule wrote_mono [OF _ input_io_sound])

context callback_api begin

lemma control_frame_wrote:
  assumes "client_ok s" and "received_ok fr" and "kind fr = Control"
  shows "wrote input_io s (snd (handle_control_frame E K fr s))"
proof -
  obtain c w where s: "s = (c, w)" by (cases s)
  obtain h d st where fr: "fr = ControlFrame h d (Some st)" and d: "2 \<le> length d"
    using assms(2,3) by (cases fr) (auto simp: received_ok_def)
  then have st: "get_status_code fr = Some st" and d: "2 \<le> length (get_data fr)" by simp_all
  consider "code (get_header fr) = OPCODE_PING" | "code (get_header fr) = OPCODE_PONG"
    | "code (get_header fr) = OPCODE_CLOSE"
    using assms(3) by (auto simp: kind_def Let_def split: if_splits)
  then show ?thesis
  proof cases
    case 1
    then show ?thesis by (intro wrote_same) (simp add: s handle_ping)
  next
    case 2
    then show ?thesis by (intro wrote_same) (simp add: handle_pong)
  next
    case 3
    show ?thesis
    proof (cases "stat s")
      case OPEN
      then show ?thesis
        using handle_close_open [OF 3 d, of c E K w] by (intro wrote_same) (simp add: s)
    next
      case CLIENT_WANTS_TO_CLOSE
      then have cw: "connection_status c = CLIENT_WANTS_TO_CLOSE" "stream c \<noteq> None"
        using assms(1) by (simp_all add: s client_ok_def)
      show ?thesis
        using cw by (auto simp: s handle_close_ack [OF 3 d cw st] Let_def wrote_def split: option.split)
    qed (simp_all add: handle_close_late [OF 3 d] wrote_same)
  qed
qed

lemma recv_frame_wrote:
  assumes "client_ok s" and "received_ok fr"
  shows "wrote input_io s (snd (handle_recv_frame E K fr s))"
proof (cases "kind fr")
  case Data
  obtain c w where s: "s = (c, w)" by (cases s)
  let ?s = "(c\<lparr>recv_data := collected c fr\<rparr>, w)"
  show ?thesis
  proof (cases "callback c")
    case None
    then show ?thesis by (intro wrote_same) (simp add: s handle_data_frame [OF Data])
  next
    case (Some f)
    obtain r c2 w2 where cb: "call_back K f (ON_TEXT (collected c fr @ get_data fr)) ?s = (r, (c2, w2))"
      by (metis prod.collapse)
    then have "trace w2 = trace w @ [Called (ON_TEXT (collected c fr @ get_data fr))]"
      using call_back_status(3) [of f "ON_TEXT (collected c fr @ get_data fr)" ?s] by simp
    with Some cb show ?thesis
      by (simp add: s handle_data_frame [OF Data] Let_def wrote_def utf8_valid_append split: outcome.split)
  qed
next
  case Control
  then have "as_control_frame fr = Some fr" using assms(2) by (cases fr) (simp_all add: received_ok_def)
  with Control assms show ?thesis by (simp add: handle_control_received control_frame_wrote)
next
  case NotDefine
  then show ?thesis by (simp add: handle_unknown_frame wrote_same)
qed

lemma response_wrote: "wrote input_io s (snd (handle_recv_http_response E K r s))"
proof (cases "stat s = HANDSHAKE")
  case True
  obtain c w where s: "s = (c, w)" by (cases s)
  with True show ?thesis
    by (simp add: handle_response Let_def wrote_def split: option.split)
qed (simp add: handle_response_late wrote_same)

lemma send_frame_wrote:
  assumes "sendable fr" and "stream (fst s) \<noteq> None"
  shows "wrote (sound_io E True) s (snd (handle_send_frame E K fr s))"
proof -
  obtain c w where s: "s = (c, w)" by (cases s)
  let ?w = "after_write w (serialize fr)"
  have "wrote (sound_io E True) (c, w) (c', ?w)" for c' :: "'t WSClient"
    by (rule wrote_one [of _ _ "Sent (fst (snd (write_all (serialize fr) (writes w))))"])
       (use assms(1) write_prefix in \<open>auto simp: after_write_def\<close>)
  moreover have "wrote (sound_io E True) (c, ?w) (snd (finish_close K st (c, ?w)))" for st
    by (auto simp: finish_close_def Let_def wrote_def split: option.split)
  moreover have "kind fr = Control \<longrightarrow> as_control_frame fr \<noteq> None" using assms(1) by (simp add: sendable_def)
  ultimately show ?thesis
    using assms(2) wrote_trans [of "sound_io E True" "(c, w)" "(c, ?w)"]
    by (simp add: s handle_send_frame_eq Let_def split: outcome.split)
qed

lemma send_request_wrote:
  assumes "stream (fst s) \<noteq> None"
  shows "wrote (sound_io E frames) s (snd (handle_send_http_request E r s))"
proof -
  obtain c w where s: "s = (c, w)" by (cases s)
  let ?w = "after_write w (Request_serialize E r)"
  have "wrote (sound_io E frames) (c, w) (c', ?w)" for c' :: "'a WSClient"
    by (rule wrote_one [of _ _ "Sent (fst (snd (write_all (Request_serialize E r) (writes w))))"])
       (use write_prefix in \<open>auto simp: after_write_def\<close>)
  then show ?thesis
    using assms by (simp add: s handle_send_request_eq Let_def split: outcome.split)
qed

lemma input_wrote:
  assumes "client_ok s" and "in_ok ev"
  shows "wrote input_io s (snd (handle_some E K INPUT (incoming ev) s))"
  using assms
  by (cases ev)
     (auto simp: handle_some_def handle_event_def rm_eval recv_frame_wrote response_wrote wrote_same)

lemma output_wrote:
  assumes "\<forall>ev. out = Some ev \<longrightarrow> out_ok ev"
    and "\<not> frames \<longrightarrow> (\<forall>ev. out = Some ev \<longrightarrow> \<not> is_websocket_data ev)"
  shows "wrote (sound_io E frames) s (snd (handle_some E K OUTPUT out s))"
proof (cases out)
  case (Some ev)
  then show ?thesis
    using assms
    by (cases ev; cases "stream (fst s)"; cases frames)
       (auto simp: handle_some_def handle_event_def rm_eval send_frame_wrote send_request_wrote
         send_without_stream [of "fst s", where w = "snd s", simplified] wrote_same)
qed (simp add: handle_some_def rm_eval wrote_same)

lemma event_loop_wrote:
  assumes "client_ok s"
  shows "wrote (sound_io E (stat s \<noteq> HANDSHAKE)) s (snd (event_loop E K s))"
proof -
  obtain c w where s: "s = (c, w)" by (cases s)
  consider "connection_status c = START_INIT" | "connection_status c \<in> {NOT_INIT, CLOSE}"
    | "active (connection_status c)"
    by (cases "connection_status c") auto
  then show ?thesis
  proof cases
    case 1
    then show ?thesis
      by (auto simp: s event_loop_idle start_init_eq Let_def wrote_def split: outcome.split)
  next
    case 2
    then show ?thesis by (auto simp: s event_loop_idle wrote_same)
  next
    case 3
    from assms [unfolded s] 3 show ?thesis
    proof (cases rule: iteration [where E = E])
      case (read_failed r s1)
      then show ?thesis by (auto simp: s only_read_simps intro: wrote_same)
    next
      case (handled ev c1 w1 out c2)
      let ?P = "sound_io E (connection_status c \<noteq> HANDSHAKE)"
      have st1: "connection_status c1 = connection_status c" and tr: "trace w1 = trace w"
        using only_read_simps(1,7) [OF handled(2)] by simp_all
      obtain r3 s3 where in': "handle_some E K INPUT (incoming ev) (c2, w1) = (r3, s3)"
        by (metis prod.collapse)
      have 1: "wrote ?P (c, w) s3"
        using wrote_sound [OF input_wrote [OF handled(6,3), of E], of E] in' tr by (simp add: wrote_def)
      have "connection_status c = HANDSHAKE \<longrightarrow> (\<forall>e. out = Some e \<longrightarrow> \<not> is_websocket_data e)"
        using handled(5) by (rule take_output_cases) (auto simp: st1)
      then have 2: "wrote ?P s3 (snd (handle_some E K OUTPUT out s3))"
        using handled(7) by (intro output_wrote) simp_all
      from 1 2 show ?thesis
        unfolding s by (cases r3) (auto simp: handled(8) rm_eval in' intro: wrote_trans)
    qed
  qed
qed

text \<open>Sending can end a connection and nothing else.\<close>

lemma output_status:
  assumes "\<forall>ev. out = Some ev \<longrightarrow> out_ok ev"
  shows "stat (snd (handle_some E K OUTPUT out s)) \<in> {stat s, CLOSE}"
proof (cases out)
  case (Some ev)
  obtain c w where s: "s = (c, w)" by (cases s)
  have "stat (snd (handle_send_frame E K fr s)) \<in> {stat s, CLOSE}" if "sendable fr" for fr
  proof (cases "stream c")
    case (Some y)
    have "kind fr = Control \<longrightarrow> as_control_frame fr \<noteq> None" using that by (simp add: sendable_def)
    with Some show ?thesis
      by (auto simp: s handle_send_frame_eq Let_def finish_close_def split: outcome.split option.split)
  qed (simp add: s send_without_stream)
  moreover have "stat (snd (handle_send_http_request E r s)) = stat s" for r
    by (cases "stream c")
       (auto simp: s send_without_stream handle_send_request_eq Let_def split: outcome.split)
  ultimately show ?thesis
    using Some assms by (cases ev) (auto simp: handle_some_def handle_event_def rm_eval)
qed (simp add: handle_some_def rm_eval)

lemma look_response:
  "look E st storage = Ok (HTTP_RESPONSE r, rest) \<Longrightarrow> Response_parse E storage = Ok r"
  by (auto simp: look_def split: if_splits outcome.splits option.splits)

lemma opens_authenticated:
  assumes "client_ok (c, w)" and "connection_status c \<noteq> OPEN" and "stat (snd (event_loop E K (c, w))) = OPEN"
  shows "connection_status c = HANDSHAKE \<and>
    (\<exists>bs rs r. one_read (reads w) = (Ok bs, rs) \<and>
       Response_parse E (recv_storage c @ bs) = Ok r \<and> accepted E c r)"
proof -
  have "active (connection_status c)"
    using assms(2,3) start_init_step [of c E w]
    by (cases "connection_status c") (auto simp: event_loop_idle conn_step_simps)
  from assms(1) this show ?thesis
  proof (cases rule: iteration [where E = E])
    case (read_failed r s1)
    then show ?thesis using assms(2,3) by (simp add: only_read_simps)
  next
    case (handled ev c1 w1 out c2)
    have st: "stream c \<noteq> None"
      using assms(1) \<open>active (connection_status c)\<close> by (auto simp: client_ok_def)
    have c2: "connection_status c2 = connection_status c" "websocket_key c2 = websocket_key c"
      using take_output_fields(1,5) [OF handled(5)] only_read_simps(1,6) [OF handled(2)] by simp_all
    obtain r3 s3 where in': "handle_some E K INPUT (incoming ev) (c2, w1) = (r3, s3)"
      by (metis prod.collapse)
    have s3: "stat s3 = OPEN"
      using output_status [OF handled(7), of E s3] assms(3)
      by (cases r3) (auto simp: handled(8) rm_eval in')
    have "conn_step (connection_status c) (stat s3)"
      using input_step [OF handled(6,3), of E] in' c2 by simp
    then have hs: "connection_status c = HANDSHAKE"
      using assms(2) unfolding s3 by (cases rule: conn_step.cases) auto
    with handled(4) in' s3 c2 obtain r where ev: "ev = HTTP_RESPONSE r"
      by (cases ev) (auto simp: handle_some_def rm_eval)
    have "accepted E c2 r"
    proof (rule ccontr)
      assume "\<not> accepted E c2 r"
      then have "s3 = (c2, w1)"
        using in' hs c2 by (simp add: ev handle_some_def handle_event_def handle_response)
      then show False using s3 hs c2 by simp
    qed
    then have "accepted E c r" using c2(2) by (simp add: accepted_def split: option.splits)
    moreover obtain bs rs where "one_read (reads w) = (Ok bs, rs)"
      and "\<exists>rest. look E HANDSHAKE (recv_storage c @ bs) = Ok (HTTP_RESPONSE r, rest)"
      using handled(1) st by (auto simp: read_bytes_eq ev hs split: outcome.splits prod.splits)
    ultimately show ?thesis using hs look_response by blast
  qed
qed

end

section \<open>When an iteration panics\<close>

lemma protocols_header_ok:
  assumes "ps \<noteq> []"
  shows "is_ok (protocols_header E ps)"
proof -
  have "\<exists>v. protocols_loop ps = v @ ascii '', ''" using assms
    by (induction ps rule: protocols_loop.induct) (metis append.assoc protocols_loop.simps append_Nil2 neq_Nil_conv)+
  then obtain v where v: "protocols_loop ps = v @ ascii '', ''" ..
  then have "is_char_boundary (protocols_loop ps) (length v)"
    by (simp add: is_char_boundary_def is_continuation_def nth_append)
  then show ?thesis
    by (simp add: protocols_header_def v usize_sub_def str_slice_def)
qed

lemma protocols_header_empty: "protocols_header E [] = Panic"
  by (simp add: protocols_header_def usize_sub_def str_slice_def is_char_boundary_def)

lemma request_headers_panics:
  "request_headers E key protocols = Panic \<longleftrightarrow> protocols = Some []"
proof (cases protocols)
  case (Some ps)
  then show ?thesis
    using protocols_header_ok [of ps E]
    by (cases "protocols_header E ps"; cases "ps = []")
       (auto simp: request_headers_def protocols_header_empty)
qed (simp add: request_headers_def)

lemma one_read_not_panic: "fst (one_read rs) \<noteq> Panic"
  by (auto simp: one_read_def split: list.split read_answer.split)

lemma write_all_no_panic: "fst (write_all bs ws) \<noteq> Panic"
  using write_all_not_Panic [of bs ws] by (metis prod.collapse)

context callback_api begin

lemma finish_close_no_panic: "never_panics K \<Longrightarrow> fst (finish_close K st s) \<noteq> Panic"
  by (cases s) (auto simp: finish_close_def Let_def call_back_returns split: option.split)

lemma output_no_panic:
  assumes "\<forall>ev. out = Some ev \<longrightarrow> out_ok ev" and "stream (fst s) \<noteq> None" and ret: "never_panics K"
  shows "fst (handle_some E K OUTPUT out s) \<noteq> Panic"
proof -
  obtain c w where s: "s = (c, w)" by (cases s)
  have "fst (handle_send_frame E K fr s) \<noteq> Panic" if "sendable fr" for fr
  proof -
    have "kind fr = Control \<longrightarrow> as_control_frame fr \<noteq> None" using that by (simp add: sendable_def)
    with assms(2) show ?thesis
      using write_all_no_panic [of "serialize fr" "writes w"] finish_close_no_panic [OF ret]
      by (auto simp: s handle_send_frame_eq Let_def split: outcome.split)
  qed
  moreover have "fst (handle_send_http_request E r s) \<noteq> Panic" for r
    using assms(2) write_all_no_panic [of "Request_serialize E r" "writes w"]
    by (auto simp: s handle_send_request_eq Let_def split: outcome.split)
  ultimately show ?thesis
    using assms(1)
    by (cases out rule: option.exhaust; cases "the out")
       (auto simp: handle_some_def handle_event_def rm_eval)
qed

lemma data_frame_no_panic:
  assumes "kind fr = Data" and ret: "never_panics K"
  shows "fst (handle_recv_frame E K fr s) \<noteq> Panic \<and>
    stream (fst (snd (handle_recv_frame E K fr s))) = stream (fst s)"
proof -
  obtain c w where s: "s = (c, w)" by (cases s)
  let ?s = "(c\<lparr>recv_data := collected c fr\<rparr>, w)"
  show ?thesis
  proof (cases "callback c")
    case None
    then show ?thesis by (simp add: s handle_data_frame [OF assms(1)])
  next
    case (Some f)
    let ?ev = "ON_TEXT (collected c fr @ get_data fr)"
    obtain r c2 w2 where cb: "call_back K f ?ev ?s = (r, (c2, w2))" by (metis prod.collapse)
    then have "r = Ok ()" "stream c2 = stream c"
      using call_back_returns [OF ret, of f ?ev ?s] call_back_status(2) [of f ?ev ?s] by simp_all
    with Some cb show ?thesis
      by (simp add: s handle_data_frame [OF assms(1)] Let_def call_back_returns [OF ret])
  qed
qed

lemma control_frame_panics:
  assumes "client_ok s" and "received_ok fr" and "kind fr = Control" and ret: "never_panics K"
  shows "(fst (handle_recv_frame E K fr s) = Panic \<longleftrightarrow> code (get_header fr) = OPCODE_PONG) \<and>
    stream (fst (snd (handle_recv_frame E K fr s))) = stream (fst s)"
proof -
  obtain c w where s: "s = (c, w)" by (cases s)
  obtain h d st where fr: "fr = ControlFrame h d (Some st)" and d: "2 \<le> length d"
    using assms(2,3) by (cases fr) (auto simp: received_ok_def)
  then have st: "get_status_code fr = Some st" and d: "2 \<le> length (get_data fr)"
    and cf: "as_control_frame fr = Some fr" by simp_all
  consider "code (get_header fr) = OPCODE_PING" | "code (get_header fr) = OPCODE_PONG"
    | "code (get_header fr) = OPCODE_CLOSE"
    using assms(3) by (auto simp: kind_def Let_def split: if_splits)
  then show ?thesis
  proof cases
    case 1
    then show ?thesis by (simp add: s handle_ping handle_control_received [OF assms(3) cf])
  next
    case 2
    then show ?thesis by (simp add: handle_pong handle_control_received [OF assms(3) cf])
  next
    case 3
    show ?thesis
    proof (cases "stat s")
      case OPEN
      then show ?thesis using handle_close_open [OF 3 d, of c E K w] 3
        by (simp add: s handle_control_received [OF assms(3) cf])
    next
      case CLIENT_WANTS_TO_CLOSE
      then have cw: "connection_status c = CLIENT_WANTS_TO_CLOSE" "stream c \<noteq> None"
        using assms(1) by (simp_all add: s client_ok_def)
      show ?thesis
        using 3 by (simp add: s handle_close_ack [OF 3 d cw st] Let_def call_back_returns [OF ret]
            handle_control_received [OF assms(3) cf] split: option.split)
    qed (simp_all add: handle_close_late [OF 3 d] 3 handle_control_received [OF assms(3) cf])
  qed
qed

lemma response_no_panic:
  assumes ret: "never_panics K"
  shows "fst (handle_recv_http_response E K r s) \<noteq> Panic \<and>
   stream (fst (snd (handle_recv_http_response E K r s))) = stream (fst s)"
proof (cases "stat s = HANDSHAKE")
  case True
  then show ?thesis
    by (cases s) (simp add: handle_response Let_def call_back_returns [OF ret] split: option.split)
qed (simp add: handle_response_late)

end

definition is_pong :: "Event \<Rightarrow> bool" where
  "is_pong ev = (case ev of WEBSOCKET_DATA fr \<Rightarrow> code (get_header fr) = OPCODE_PONG | _ \<Rightarrow> False)"

definition panic_cause :: "env \<Rightarrow> 't WSClient \<Rightarrow> World \<Rightarrow> bool" where
  "panic_cause E c w \<longleftrightarrow>
     (if connection_status c = START_INIT
      then fst (next_answer False (connects w)) \<and> acceptable_protocols c = Some []
      else
        active (connection_status c) \<and>
        (case fst (one_read (reads w)) of
           Ok bs \<Rightarrow>
             (case look E (connection_status c) (recv_storage c @ bs) of
                Ok (ev, rest) \<Rightarrow> is_pong ev
              | Err e \<Rightarrow> False
              | Panic \<Rightarrow> True)
         | _ \<Rightarrow> False))"

context callback_api begin

lemma input_panics:
  assumes "client_ok s" and "in_ok ev" and ret: "never_panics K"
  shows "(fst (handle_some E K INPUT (incoming ev) s) = Panic \<longleftrightarrow> is_pong ev) \<and>
    stream (fst (snd (handle_some E K INPUT (incoming ev) s))) = stream (fst s)"
proof (cases ev)
  case (WEBSOCKET_DATA fr)
  have rec: "received_ok fr" using assms(2) by (simp add: WEBSOCKET_DATA)
  show ?thesis
  proof (cases "kind fr")
    case Data
    then have "code (get_header fr) \<noteq> OPCODE_PONG" by (auto simp: kind_def Let_def)
    with data_frame_no_panic [OF Data ret, of E s] show ?thesis
      by (simp add: WEBSOCKET_DATA handle_some_def handle_event_def is_pong_def)
  next
    case Control
    with control_frame_panics [OF assms(1) rec Control ret, of E] show ?thesis
      by (simp add: WEBSOCKET_DATA handle_some_def handle_event_def is_pong_def)
  next
    case NotDefine
    then have "code (get_header fr) \<noteq> OPCODE_PONG" by (auto simp: kind_def Let_def)
    with NotDefine show ?thesis
      by (simp add: WEBSOCKET_DATA handle_some_def handle_event_def is_pong_def handle_unknown_frame)
  qed
qed (simp_all add: handle_some_def handle_event_def rm_eval is_pong_def response_no_panic [OF ret])

lemma event_loop_panics:
  assumes "client_ok (c, w)" and ret: "never_panics K"
  shows "fst (event_loop E K (c, w)) = Panic \<longleftrightarrow> panic_cause E c w"
proof -
  consider "connection_status c = START_INIT" | "connection_status c \<in> {NOT_INIT, CLOSE}"
    | "active (connection_status c)"
    by (cases "connection_status c") auto
  then show ?thesis
  proof cases
    case 1
    show ?thesis
      using 1 request_headers_panics [of E "gen_key E (rng_calls w)" "acceptable_protocols c"]
      by (cases "request_headers E (gen_key E (rng_calls w)) (acceptable_protocols c)")
        (auto simp: event_loop_idle panic_cause_def start_init_eq Let_def)
  next
    case 2
    then show ?thesis by (auto simp: event_loop_idle panic_cause_def)
  next
    case 3
    then have st: "stream c \<noteq> None" and ns: "connection_status c \<noteq> START_INIT"
      using assms(1) by (auto simp: client_ok_def)
    note rd = read_bytes_eq [OF st, of E w]
    have cause: "panic_cause E c w \<longleftrightarrow>
        (case fst (read_bytes_from_socket E (c, w)) of Ok ev \<Rightarrow> is_pong ev | Err e \<Rightarrow> False | Panic \<Rightarrow> True)"
      using 3 ns one_read_not_panic [of "reads w"]
      by (auto simp: panic_cause_def rd split: outcome.split prod.split)
    from assms(1) 3 show ?thesis
    proof (cases rule: iteration [where E = E])
      case (read_failed r s1)
      then show ?thesis unfolding cause by (cases r) simp_all
    next
      case (handled ev c1 w1 out c2)
      have "stream c2 = stream c"
        using take_output_fields(2) [OF handled(5)] only_read_simps(2) [OF handled(2)] by simp
      moreover obtain r3 s3 where in': "handle_some E K INPUT (incoming ev) (c2, w1) = (r3, s3)"
        by (metis prod.collapse)
      ultimately have "stream (fst s3) \<noteq> None" and "r3 = Panic \<longleftrightarrow> is_pong ev"
        using input_panics [OF handled(6,3) ret, of E] st by simp_all
      with output_no_panic [OF handled(7) _ ret, of s3 E] show ?thesis
        unfolding cause by (cases r3) (simp_all add: handled(1,8) rm_eval in')
    qed
  qed
qed

end

end
