(* ===== verification/Example_Handler.thy ===== *)
theory Example_Handler
  imports Client_Loop
begin

text \<open>
  The event handler of \<^verbatim>\<open>examples/simple_client.rs\<close> (and, with a mutex for the cell, of
  \<^verbatim>\<open>examples/thread_client.rs\<close>), which shows that the contract \<open>callback_api\<close> is what users of
  the library write: it greets the server when the connection opens, counts the messages,
  and reports the close. The user's data is a shared cell with a counter; its content stands
  in the client's \<open>cb_data\<close>, of which the handler gets a reference. Printing is left out.
\<close>

section \<open>The handler\<close>

definition on_message :: "env \<Rightarrow> nat option \<Rightarrow> nat st \<Rightarrow> bool \<times> nat st" where
  "on_message E data s =
     (case data of
        None \<Rightarrow> (False, s)
      | Some n \<Rightarrow>
          (case (usize_add (overflow_checks E) n 1 :: (WebSocketError, nat) outcome) of
             Ok n' \<Rightarrow> (True, ((fst s)\<lparr>cb_data := Some n'\<rparr>, snd s))
           | Err e \<Rightarrow> (False, s)
           | Panic \<Rightarrow> (False, s)))"

text \<open>
  With message size 0 the call of \<open>send\<close> does not return; the handler then has not returned
  either, and what follows it does not happen, as after a panic.
\<close>

definition on_connect :: "env \<Rightarrow> 't st \<Rightarrow> bool \<times> 't st" where
  "on_connect E s =
     (case send E (ascii ''Hello world'') s of
        Some (Ok _, s') \<Rightarrow> (True, s')
      | Some (Err e, s') \<Rightarrow> (False, s')
      | Some (Panic, s') \<Rightarrow> (False, s')
      | None \<Rightarrow> (False, s))"

definition websocket_handler :: "env \<Rightarrow> nat cbk" where
  "websocket_handler E f ev data s =
     (case ev of
        ON_CONNECT msg \<Rightarrow> on_connect E s
      | ON_TEXT msg \<Rightarrow> on_message E data s
      | ON_CLOSE r \<Rightarrow> (True, s))"

section \<open>It keeps the contract\<close>

lemma on_connect_effect: "api_effect s (snd (on_connect E s))"
  using send_effect [of E "ascii ''Hello world''" s]
  by (auto simp: on_connect_def api_effect_refl split: option.split prod.split outcome.split)

lemma set_data_effect: "api_effect (c, w) (c\<lparr>cb_data := d\<rparr>, w)"
  using api_effectI [where fs = "[]" and c = c and w = w and ms = "message_size c"
    and tmo = "timeout c" and d = d and k = "rng_calls w"] by simp

lemma on_message_effect: "api_effect s (snd (on_message E data s))"
  by (cases s) (auto simp: on_message_def api_effect_refl set_data_effect split: option.split outcome.split)

interpretation example: callback_api "websocket_handler E" for E
  by unfold_locales
     (auto simp: websocket_handler_def on_connect_effect on_message_effect api_effect_refl split: WSEvent.split)

text \<open>A client without a handler never calls back; for it any handler will do, such as this one.\<close>

definition no_handler :: "'t cbk" where
  "no_handler f ev data s = (True, s)"

interpretation silent: callback_api no_handler
  by unfold_locales (simp add: no_handler_def api_effect_refl)

lemma no_handler_never_panics: "never_panics no_handler"
  by (simp add: never_panics_def no_handler_def)

text \<open>As long as its cell is there and has room, the handler returns from a message.\<close>

lemma on_message_returns:
  "n + 1 < 2 ^ 64 \<Longrightarrow> on_message E (Some n) (c, w) = (True, (c\<lparr>cb_data := Some (n + 1)\<rparr>, w))"
  by (simp add: on_message_def)

end
