(* ===== verification/Http_Props.thy ===== *)
theory Http_Props
  imports Http_Response
begin

unbundle bit_operations_syntax

text \<open>
  The properties of the handshake's messages: \<open>Response::parse\<close> reads back a well-formed
  response, and what \<open>Request::serialize\<close> puts on the wire whatever the order of the map.
\<close>

section \<open>Text without surprises\<close>

definition is_visible :: "u8 \<Rightarrow> bool" where
  "is_visible b \<longleftrightarrow> 0x21 \<le> b \<and> b \<le> 0x7E"

definition word_ok :: "str \<Rightarrow> bool" where
  "word_ok s \<longleftrightarrow> s \<noteq> [] \<and> list_all is_visible s"

text \<open>Printable text that neither starts nor ends with a space.\<close>

definition text_ok :: "str \<Rightarrow> bool" where
  "text_ok s \<longleftrightarrow> list_all (\<lambda>b. b = 0x20 \<or> is_visible b) s \<and>
     (s \<noteq> [] \<longrightarrow> is_visible (hd s) \<and> is_visible (last s))"

lemma visible_bounds:
  "is_visible b \<Longrightarrow> b < 0x80" "is_visible b \<Longrightarrow> b \<noteq> 0x0D" "is_visible b \<Longrightarrow> b \<noteq> 0x0A"
  "is_visible b \<Longrightarrow> b \<noteq> 0x20"
  by (auto simp: is_visible_def word_le_nat_alt word_less_nat_alt)

lemma not_visible [simp]: "\<not> is_visible 0x20" "\<not> is_visible 0x0D" "\<not> is_visible 0x0A"
  by (simp_all add: is_visible_def)

lemma utf8_step_ascii: "b < 0x80 \<Longrightarrow> utf8_step (b # bs) = (True, 1)"
  by (cases "b # bs" rule: utf8_step.cases) auto

lemma lossy_ascii: "list_all (\<lambda>b. b < 0x80) s \<Longrightarrow> from_utf8_lossy s = s"
  by (induction s) (simp_all add: utf8_step_ascii)

lemma utf8_valid_ascii: "list_all (\<lambda>b. b < 0x80) s \<Longrightarrow> utf8_valid s"
  by (induction s) (simp_all add: utf8_step_ascii)

lemma str_replace_absent: "hd pat \<notin> set s \<Longrightarrow> pat \<noteq> [] \<Longrightarrow> str_replace pat r s = s"
  by (induction s) (auto simp: prefix_def neq_Nil_conv)

section \<open>Searching and splitting\<close>

text \<open>The end of the header is where the first line break is followed by another one.\<close>

lemma str_find_line:
  assumes "0x0D \<notin> set l"
  shows "str_find (END_LINE @ END_LINE) (l @ s) =
    map_option (\<lambda>n. length l + n) (str_find (END_LINE @ END_LINE) s)"
  using assms
  by (induction l) (cases "str_find (END_LINE @ END_LINE) s"; auto simp: END_LINE_def)+

lemma str_find_break:
  "x \<noteq> 0x0D \<Longrightarrow>
   str_find (END_LINE @ END_LINE) (END_LINE @ x # s) =
     map_option ((+) 2) (str_find (END_LINE @ END_LINE) (x # s))"
  by (simp add: END_LINE_def option.map_comp comp_def)

lemma str_find_byte: "x \<notin> set a \<Longrightarrow> str_find [x] (a @ x # s) = Some (length a)"
  by (induction a) auto

lemma split_loop_piece:
  "0x0D \<notin> set l \<Longrightarrow> split_loop acc END_LINE (l @ END_LINE @ s) = (acc @ l) # split_loop [] END_LINE s"
  by (induction l arbitrary: acc) (auto simp: END_LINE_def)

lemma split_loop_last: "0x0D \<notin> set l \<Longrightarrow> split_loop acc END_LINE l = [acc @ l]"
  by (induction l arbitrary: acc) (auto simp: END_LINE_def)

lemma split_loop_space:
  "0x20 \<notin> set l \<Longrightarrow> split_loop acc [0x20] (l @ 0x20 # s) = (acc @ l) # split_loop [] [0x20] s"
  by (induction l arbitrary: acc) auto

lemma split_loop_space_last: "0x20 \<notin> set l \<Longrightarrow> split_loop acc [0x20] l = [acc @ l]"
  by (induction l arbitrary: acc) auto

text \<open>Lines with a line break between any two of them.\<close>

fun join_lines :: "str list \<Rightarrow> str" where
  "join_lines [] = []"
| "join_lines [l] = l"
| "join_lines (l # ls) = l @ END_LINE @ join_lines ls"

lemma split_join: "ls \<noteq> [] \<Longrightarrow> \<forall>l\<in>set ls. 0x0D \<notin> set l \<Longrightarrow> str_split END_LINE (join_lines ls) = ls"
  unfolding str_split_def
  by (induction ls rule: join_lines.induct) (auto simp: split_loop_piece split_loop_last)

lemma find_header_end:
  assumes "ls \<noteq> []" and "\<forall>l\<in>set ls. l \<noteq> [] \<and> 0x0D \<notin> set l"
  shows "str_find (END_LINE @ END_LINE) (join_lines ls @ END_LINE @ END_LINE @ b) = Some (length (join_lines ls))"
  using assms
proof (induction ls rule: join_lines.induct)
  case (2 l)
  have "str_find (END_LINE @ END_LINE) (END_LINE @ END_LINE @ b) = Some 0" by (simp add: END_LINE_def)
  then show ?case using 2 by (simp add: str_find_line del: append_assoc)
next
  case (3 l l2 ls)
  let ?s = "join_lines (l2 # ls) @ END_LINE @ END_LINE @ b"
  obtain x xs where x: "l2 = x # xs" "x \<noteq> 0x0D" using "3.prems" by (cases l2) auto
  have "\<exists>s. join_lines (l2 # ls) = x # s" by (cases ls) (simp_all add: x)
  then obtain s where "?s = x # s" by auto
  then have "str_find (END_LINE @ END_LINE) (END_LINE @ ?s) =
      map_option ((+) 2) (str_find (END_LINE @ END_LINE) ?s)"
    by (simp add: str_find_break x del: append_assoc)
  with 3 have "str_find (END_LINE @ END_LINE) (END_LINE @ ?s) = Some (2 + length (join_lines (l2 # ls)))"
    by (simp del: append_assoc)
  moreover have "str_find (END_LINE @ END_LINE) (l @ END_LINE @ ?s) =
      map_option (\<lambda>n. length l + n) (str_find (END_LINE @ END_LINE) (END_LINE @ ?s))"
    using "3.prems" by (intro str_find_line) simp
  ultimately show ?case by (simp add: END_LINE_def)
qed simp

section \<open>Trimming\<close>

lemma white_space_heads:
  "\<forall>w\<in>set white_space. w \<noteq> [] \<and> \<not> is_visible (hd w)"
  "\<forall>w\<in>set (map rev white_space). w \<noteq> [] \<and> \<not> is_visible (hd w)"
  by (simp_all add: white_space_def is_visible_def)

lemma strip_front_none:
  "\<forall>w\<in>set ws. w \<noteq> [] \<and> \<not> is_visible (hd w) \<Longrightarrow> is_visible b \<Longrightarrow> strip_front ws (b # s) = 0"
proof -
  assume ws: "\<forall>w\<in>set ws. w \<noteq> [] \<and> \<not> is_visible (hd w)" and b: "is_visible b"
  then have "find (\<lambda>w. prefix w (b # s)) ws = None"
    by (auto simp: find_None_iff prefix_Cons)
  then show ?thesis by (simp add: strip_front_def)
qed

lemma trim_with_visible:
  "\<forall>w\<in>set ws. w \<noteq> [] \<and> \<not> is_visible (hd w) \<Longrightarrow> s = [] \<or> is_visible (hd s) \<Longrightarrow> trim_with ws s = s"
  using strip_front_none [of ws "hd s" "tl s"] by (subst trim_with.simps) auto

lemma trim_visible:
  assumes "s = [] \<or> is_visible (hd s) \<and> is_visible (last s)"
  shows "trim s = s"
proof -
  have "trim_with white_space s = s" using assms by (intro trim_with_visible white_space_heads) auto
  moreover have "trim_with (map rev white_space) (rev s) = rev s"
    using assms by (intro trim_with_visible white_space_heads) (auto simp: hd_rev)
  ultimately show ?thesis by (simp add: trim_def trim_start_def trim_end_def)
qed

lemma trim_leading_space: "trim (0x20 # s) = trim s"
proof -
  have "find (\<lambda>w. prefix w (0x20 # s)) white_space = Some [0x20]"
    by (simp add: white_space_def)
  then have "strip_front white_space (0x20 # s) = 1" by (simp add: strip_front_def)
  then have "trim_with white_space (0x20 # s) = trim_with white_space s"
    by (subst trim_with.simps) simp
  then show ?thesis by (simp only: trim_def trim_start_def)
qed

section \<open>Reading a response\<close>

definition header_line :: "str \<times> str \<Rightarrow> str" where
  "header_line kv = fst kv @ 0x3A # 0x20 # snd kv"

definition header_ok :: "str \<times> str \<Rightarrow> bool" where
  "header_ok kv \<longleftrightarrow> word_ok (fst kv) \<and> 0x3A \<notin> set (fst kv) \<and> text_ok (snd kv)"

definition response_text :: "str \<Rightarrow> str \<Rightarrow> str \<Rightarrow> (str \<times> str) list \<Rightarrow> str \<Rightarrow> u8 list" where
  "response_text version cs text hs b =
     join_lines ((version @ 0x20 # cs @ 0x20 # text) # map header_line hs) @ END_LINE @ END_LINE @ b"

lemma word_ok_facts:
  assumes "word_ok s"
  shows "s \<noteq> []" and "0x20 \<notin> set s" and "0x0D \<notin> set s" and "\<forall>b\<in>set s. b < 0x80" and "trim s = s"
proof -
  show "s \<noteq> []" using assms by (simp add: word_ok_def)
  show "0x20 \<notin> set s" and "0x0D \<notin> set s" and "\<forall>b\<in>set s. b < 0x80"
    using assms visible_bounds(1) by (auto simp: word_ok_def list_all_iff)
  show "trim s = s" using assms by (intro trim_visible) (auto simp: word_ok_def list_all_iff)
qed

lemma text_ok_facts:
  assumes "text_ok s"
  shows "0x0D \<notin> set s" and "\<forall>b\<in>set s. b < 0x80" and "trim s = s"
proof -
  show "0x0D \<notin> set s" and "\<forall>b\<in>set s. b < 0x80"
    using assms visible_bounds(1) by (fastforce simp: text_ok_def list_all_iff)+
  show "trim s = s" using assms by (intro trim_visible) (auto simp: text_ok_def)
qed

lemma header_line_facts:
  assumes "header_ok kv"
  shows "header_line kv \<noteq> []" and "0x0D \<notin> set (header_line kv)" and "\<forall>b\<in>set (header_line kv). b < 0x80"
  using assms word_ok_facts [of "fst kv"] text_ok_facts [of "snd kv"]
  by (auto simp: header_ok_def header_line_def)

definition lower_key :: "str \<times> str \<Rightarrow> str \<times> str" where
  "lower_key kv = (map ascii_lower (fst kv), snd kv)"

lemma parse_headers_lines:
  "\<forall>kv\<in>set hs. header_ok kv \<Longrightarrow>
   parse_headers E (map header_line hs) m =
     Ok (foldl (\<lambda>m (k, v). AList.update k v m) m (map lower_key hs))"
proof (induction hs arbitrary: m)
  case (Cons kv hs)
  obtain k v where kv: "kv = (k, v)" by (cases kv)
  have k: "word_ok k" "0x3A \<notin> set k" "text_ok v" using Cons.prems by (auto simp: header_ok_def kv)
  have "str_find (ascii '':'') (header_line kv) = Some (length k)"
    using str_find_byte [OF k(2), of "0x20 # v"] by (simp add: header_line_def kv)
  moreover have "is_ascii k" using word_ok_facts(4) [OF k(1)] by (simp add: is_ascii_def list_all_iff)
  ultimately show ?case
    using Cons word_ok_facts(5) [OF k(1)] text_ok_facts(3) [OF k(3)]
    by (simp add: header_line_def kv trim_leading_space to_lowercase_def lower_key_def Let_def)
qed simp

lemma set_join_lines: "set (join_lines ls) \<subseteq> \<Union> (set ` set ls) \<union> {0x0D, 0x0A}"
  by (induction ls rule: join_lines.induct) (auto simp: END_LINE_def)

lemma split_words:
  assumes "0x20 \<notin> set a" and "0x20 \<notin> set b" and "0x20 \<notin> set c" and "tail = [] \<or> hd tail = 0x20"
  shows "\<exists>ws. str_split [0x20] (a @ 0x20 # b @ 0x20 # c @ tail) = a # b # c # ws"
proof (cases tail)
  case Nil
  then show ?thesis
    by (simp only: str_split_def split_loop_space [OF assms(1)] split_loop_space [OF assms(2)]
        append_Nil append_Nil2 split_loop_space_last [OF assms(3)]) simp
next
  case (Cons x t)
  then have "tail = 0x20 # t" using assms(4) by simp
  then show ?thesis
    by (simp only: str_split_def split_loop_space [OF assms(1)] split_loop_space [OF assms(2)]
        append_Nil split_loop_space [OF assms(3)]) simp
qed

lemma update_all_empty:
  "foldl (\<lambda>m (k, v). AList.update k v m) m kvs = [] \<longleftrightarrow> m = [] \<and> kvs = []"
proof (induction kvs arbitrary: m)
  case (Cons kv kvs)
  then show ?case by (cases kv) (simp add: AList.update_nonempty)
qed simp

lemma Response_parse_text:
  assumes "word_ok version" and "word_ok cs" and "parse_u16 cs = Some n"
    and "word_ok w" and "tail = [] \<or> hd tail = 0x20" and "list_all (\<lambda>b. b < 0x80 \<and> b \<noteq> 0x0D) tail"
    and "\<forall>kv\<in>set hs. header_ok kv" and "list_all (\<lambda>b. b < 0x80) b"
  shows "Response_parse E (response_text version cs (w @ tail) hs b) =
    Ok \<lparr>rsp_version = version, rsp_status_code = n, rsp_status_text = w,
        rsp_headers = (if hs = [] then None else Some (hashmap_from (map lower_key hs))),
        rsp_body = (if b = [] then None else Some b)\<rparr>"
proof -
  let ?line = "version @ 0x20 # cs @ 0x20 # w @ tail"
  let ?ls = "?line # map header_line hs"
  note V = word_ok_facts [OF assms(1)] and C = word_ok_facts [OF assms(2)] and W = word_ok_facts [OF assms(4)]
  have tail: "\<forall>b\<in>set tail. b < 0x80 \<and> b \<noteq> 0x0D" using assms(6) by (simp add: list_all_iff)
  have lines: "\<forall>l\<in>set ?ls. l \<noteq> [] \<and> 0x0D \<notin> set l"
    using V C W tail header_line_facts assms(7) by auto
  have "\<forall>l\<in>set ?ls. \<forall>b\<in>set l. b < 0x80"
    using V(4) C(4) W(4) tail header_line_facts(3) assms(7) by auto
  then have ascii: "list_all (\<lambda>b. b < 0x80) (response_text version cs (w @ tail) hs b)"
    using set_join_lines [of ?ls] assms(8)
    by (force simp: response_text_def list_all_iff END_LINE_def)
  then have "0xEF \<notin> set (response_text version cs (w @ tail) hs b)"
    by (auto simp: list_all_iff)
  then have decoded: "str_replace replacement_char [] (from_utf8_lossy (response_text version cs (w @ tail) hs b)) =
      join_lines ?ls @ END_LINE @ END_LINE @ b"
    using str_replace_absent [of replacement_char] lossy_ascii [OF ascii]
    by (simp add: replacement_char_def response_text_def)
  have find: "str_find (END_LINE @ END_LINE) (join_lines ?ls @ END_LINE @ END_LINE @ b) = Some (length (join_lines ?ls))"
    using lines by (intro find_header_end) simp_all
  have split: "str_split END_LINE (join_lines ?ls) = ?ls"
    using lines by (intro split_join) simp_all
  obtain ws where words: "str_split [0x20] ?line = version # cs # w # ws"
    using split_words [OF V(2) C(2) W(2) assms(5)] by auto
  have rest: "drop (length (join_lines ?ls) + length END_LINE * 2) (join_lines ?ls @ END_LINE @ END_LINE @ b) = b"
    by (simp add: END_LINE_def)
  have empty: "foldl (\<lambda>m (k, v). AList.update k v m) [] (map lower_key hs) = [] \<longleftrightarrow> hs = []"
    by (simp add: update_all_empty)
  show ?thesis
    unfolding Response_parse_def Let_def decoded find option.case
    using assms(3) V(5) C(5) W(5)
    by (simp add: split words index_def parse_headers_lines [OF assms(7)] hashmap_from_def empty rest
        del: join_lines.simps)
qed

text \<open>
  C28: \<open>Response::parse\<close> reads a well-formed response back: the version, the code, and every
  header under its lower-case name, with the value trimmed; the body is what follows the empty
  line. Of the status text it keeps the first word only.
\<close>

theorem response_roundtrip:
  assumes "word_ok version" and "word_ok cs" and "parse_u16 cs = Some n"
    and "word_ok w" and "tail = [] \<or> hd tail = 0x20" and "list_all (\<lambda>b. b < 0x80 \<and> b \<noteq> 0x0D) tail"
    and "\<forall>kv\<in>set hs. header_ok kv" and "list_all (\<lambda>b. b < 0x80) b"
  shows "Response_parse E (response_text version cs (w @ tail) hs b) =
    Ok \<lparr>rsp_version = version, rsp_status_code = n, rsp_status_text = w,
        rsp_headers = (if hs = [] then None else Some (hashmap_from (map lower_key hs))),
        rsp_body = (if b = [] then None else Some b)\<rparr>"
  using assms by (rule Response_parse_text)

theorem response_roundtrip_witness:
  "Response_parse sample_env
     (response_text (ascii ''HTTP/1.1'') (ascii ''101'') (ascii ''Switching'' @ ascii '' Protocols'')
        [(ascii ''Upgrade'', ascii ''websocket''), (ascii ''X'', [])] []) =
   Ok \<lparr>rsp_version = ascii ''HTTP/1.1'', rsp_status_code = 101, rsp_status_text = ascii ''Switching'',
       rsp_headers = Some [(ascii ''upgrade'', ascii ''websocket''), (ascii ''x'', [])],
       rsp_body = None\<rparr>"
proof -
  have "word_ok (ascii ''HTTP/1.1'')" "word_ok (ascii ''101'')" "word_ok (ascii ''Switching'')"
    by (simp_all add: word_ok_def is_visible_def)
  moreover have "parse_u16 (ascii ''101'') = Some 101" by (simp add: parse_u16_def Let_def)
  moreover have "list_all (\<lambda>b. b < 0x80 \<and> b \<noteq> 0x0D) (ascii '' Protocols'')" by simp
  moreover have "\<forall>kv\<in>set [(ascii ''Upgrade'', ascii ''websocket''), (ascii ''X'', [])]. header_ok kv"
    by (simp add: header_ok_def word_ok_def text_ok_def is_visible_def)
  moreover have "hashmap_from (map lower_key [(ascii ''Upgrade'', ascii ''websocket''), (ascii ''X'', [])]) =
      [(ascii ''upgrade'', ascii ''websocket''), (ascii ''x'', [])]"
    by (simp add: hashmap_from_def lower_key_def ascii_lower_def)
  moreover have "hd (ascii '' Protocols'') = 0x20" by simp
  ultimately show ?thesis
    using response_roundtrip [of "ascii ''HTTP/1.1''" "ascii ''101''" 101 "ascii ''Switching''"
        "ascii '' Protocols''" "[(ascii ''Upgrade'', ascii ''websocket''), (ascii ''X'', [])]" "[]" sample_env]
    by (simp del: ascii_simps)
qed

lemma map_of_hashmap:
  "distinct (map fst kvs) \<Longrightarrow> (k, v) \<in> set kvs \<Longrightarrow> map_of (hashmap_from kvs) k = Some v"
proof (induction kvs rule: rev_induct)
  case (snoc kv kvs)
  then show ?case
    by (cases kv) (auto simp: hashmap_from_def update_conv' rev_image_eqI)
qed simp

lemma header_lookup:
  assumes "distinct (map (map ascii_lower \<circ> fst) hs)" and "(k, v) \<in> set hs"
    and "map ascii_lower key = map ascii_lower k" and "is_ascii key"
  shows "header E \<lparr>rsp_version = ver, rsp_status_code = n, rsp_status_text = w,
      rsp_headers = Some (hashmap_from (map lower_key hs)), rsp_body = b\<rparr> key = Some v"
proof -
  have "distinct (map fst (map lower_key hs))" using assms(1) by (simp add: lower_key_def comp_def)
  moreover have "(map ascii_lower k, v) \<in> set (map lower_key hs)"
    using assms(2) by (force simp: lower_key_def)
  ultimately show ?thesis
    using assms(3,4) map_of_hashmap by (simp add: header_def to_lowercase_def)
qed



section \<open>The request on the wire\<close>

lemma split_terminated_lines:
  "\<forall>l\<in>set ls. 0x0D \<notin> set l \<Longrightarrow>
   str_split END_LINE (concat (map (\<lambda>l. l @ END_LINE) ls) @ END_LINE) = ls @ [[], []]"
proof (induction ls)
  case Nil
  show ?case using split_loop_piece [of "[]" "[]" "[]"] by (simp add: str_split_def)
next
  case (Cons l ls)
  then show ?case by (simp add: str_split_def split_loop_piece)
qed

lemma serialize_headers_lines:
  "serialize_headers kvs = concat (map (\<lambda>l. l @ END_LINE) (map header_line kvs))"
  by (induction kvs rule: serialize_headers.induct) (simp_all add: header_line_def)

lemma Request_serialize_lines:
  assumes "hashmap_ok E" and "0x0D \<notin> set (req_path r)" and "0x0D \<notin> set (req_version r)"
    and "\<forall>(k, v)\<in>set (req_headers r). 0x0D \<notin> set k \<and> 0x0D \<notin> set v"
  shows "\<exists>ls. str_split END_LINE (Request_serialize E r) =
      (ascii ''GET '' @ req_path r @ 0x20 # req_version r) # ls @ [[], []] \<and>
    mset ls = mset (map header_line (req_headers r))"
proof -
  let ?kvs = "hashmap_iter E (req_headers r)"
  let ?ls = "(ascii ''GET '' @ req_path r @ 0x20 # req_version r) # map header_line ?kvs"
  have m: "mset ?kvs = mset (req_headers r)" using assms(1) by (simp add: hashmap_ok_def)
  then have "set ?kvs = set (req_headers r)" by (metis set_mset_mset)
  then have "\<forall>l\<in>set ?ls. 0x0D \<notin> set l"
    using assms(2-4) by (auto simp: header_line_def)
  moreover have "Request_serialize E r = concat (map (\<lambda>l. l @ END_LINE) ?ls) @ END_LINE"
    by (cases "req_method r") (simp add: Request_serialize_def serialize_headers_lines)
  ultimately have "str_split END_LINE (Request_serialize E r) = ?ls @ [[], []]"
    using split_terminated_lines [of ?ls] by simp
  then show ?thesis using m by (intro exI [of _ "map header_line ?kvs"]) simp
qed

end
