(* ===== verification/Client_Props.thy ===== *)
theory Client_Props
  imports Example_Handler Http_Props
begin

unbundle bit_operations_syntax

text \<open>
  The properties of the client's event loop: the invariant of every reachable client, the life
  of the connection, what is written before the handshake is over, and when it panics.
\<close>

section \<open>A handshake to look at\<close>

definition shaking_client :: "nat WSClient" where
  "shaking_client = WSClient_new\<lparr>connection_status := HANDSHAKE, stream := Some (TcpStream (ascii ''h'') 80)\<rparr>"

definition sample_response :: Response where
  "sample_response = \<lparr>rsp_version = ascii ''HTTP/1.1'', rsp_status_code = 101, rsp_status_text = ascii ''OK'',
     rsp_headers = Some [(ascii ''sec-websocket-accept'', rfc_accept sample_env [])], rsp_body = None\<rparr>"

definition sample_response_bytes :: "u8 list" where
  "sample_response_bytes = response_text (ascii ''HTTP/1.1'') (ascii ''101'') (ascii ''OK'')
     [(ascii ''Sec-WebSocket-Accept'', rfc_accept sample_env [])] []"

lemma sample_response_parses: "Response_parse sample_env sample_response_bytes = Ok sample_response"
proof -
  have "word_ok (ascii ''HTTP/1.1'')" "word_ok (ascii ''101'')" "word_ok (ascii ''OK'')"
    by (simp_all add: word_ok_def is_visible_def)
  moreover have "parse_u16 (ascii ''101'') = Some 101" by (simp add: parse_u16_def Let_def)
  moreover have "\<forall>kv\<in>set [(ascii ''Sec-WebSocket-Accept'', rfc_accept sample_env [])]. header_ok kv"
    by (simp add: header_ok_def word_ok_def text_ok_def is_visible_def rfc_accept_def sample_env_def GUID_def)
  moreover have "hashmap_from (map lower_key [(ascii ''Sec-WebSocket-Accept'', a)]) =
      [(ascii ''sec-websocket-accept'', a)]" for a
    by (simp add: hashmap_from_def lower_key_def ascii_lower_def)
  ultimately show ?thesis
    using Response_parse_text [of "ascii ''HTTP/1.1''" "ascii ''101''" 101 "ascii ''OK''" "[]"
        "[(ascii ''Sec-WebSocket-Accept'', rfc_accept sample_env [])]" "[]" sample_env]
    unfolding sample_response_bytes_def sample_response_def by (simp del: ascii_simps)
qed

lemma sample_response_length:
  "sample_response_bytes \<noteq> []" "length sample_response_bytes \<le> 1024"
  by (simp_all add: sample_response_bytes_def response_text_def header_line_def END_LINE_def
      rfc_accept_def sample_env_def GUID_def)

lemma sample_response_accepted: "accepted sample_env shaking_client sample_response"
proof -
  have "to_lowercase sample_env (ascii ''Sec-WebSocket-Accept'') = ascii ''sec-websocket-accept''"
    by (simp add: to_lowercase_def is_ascii_def ascii_lower_def)
  then show ?thesis
    by (simp add: accepted_def sample_response_def SWITCHING_PROTOCOLS_def header_def verify_key_iff
        shaking_client_def WSClient_new_def del: ascii_simps)
qed

section \<open>Reachable clients\<close>

text \<open>
  The clients a program can get by calling the interface: a new client in any world, and what
  the calls make of it, also after an error or a panic. A string is shorter than \<open>2^63\<close> bytes.
\<close>

inductive reachable :: "env \<Rightarrow> 't cbk \<Rightarrow> 't st \<Rightarrow> bool" for E :: env and K :: "'t cbk" where
  new: "reachable E K (WSClient_new, w)"
| init: "reachable E K (c, w) \<Longrightarrow> reachable E K (init h p pth cfg c, w)"
| set_message_size: "reachable E K (c, w) \<Longrightarrow> reachable E K (set_message_size n c, w)"
| set_timeout: "reachable E K (c, w) \<Longrightarrow> reachable E K (set_timeout d c, w)"
| send: "reachable E K s \<Longrightarrow> length payload < 2 ^ 63 \<Longrightarrow> send E payload s = Some (r, s') \<Longrightarrow> reachable E K s'"
| event_loop: "reachable E K s \<Longrightarrow> event_loop E K s = (r, s') \<Longrightarrow> reachable E K s'"

lemma init_ok: "client_ok (c, w) \<Longrightarrow> client_ok (init h p pth cfg c, w)"
  by (simp add: init_def client_ok_def Let_def split: option.split)

lemma reachable_ok:
  assumes "reachable E K s" and "callback_inv K"
  shows "client_ok s"
  using assms(1)
proof (induction rule: reachable.induct)
  case (new w)
  then show ?case by (simp add: client_ok_def WSClient_new_def)
next
  case (send s payload r s')
  then show ?case using api_effect_ok send_effect by blast
next
  case (event_loop s r s')
  then show ?case using callback_inv.event_loop_ok [OF assms(2), of s E] by simp
next
  case (init c w h p pth cfg)
  then show ?case by (intro init_ok)
qed (simp_all add: set_message_size_def set_timeout_def client_ok_def)

text \<open>
  C2: Every client that calls of the interface lead to keeps the invariant, whatever the
  server, the kernel and the random source do and whenever errors and panics occur: while the
  connection is active there is a stream; no input event is left over between two calls; and
  the output queue holds only the handshake's request and frames that are masked, announce
  their true length and can be sent. The callback may do anything that keeps the invariant.
\<close>

theorem reachable_client_ok:
  assumes "callback_inv K" and "reachable E K s"
  shows "client_ok s"
  using assms(2,1) by (rule reachable_ok)

theorem reachable_client_ok_witness:
  "client_ok (snd (event_loop sample_env (websocket_handler sample_env)
     (init (ascii ''localhost'') 3000 (ascii ''/'') None WSClient_new, idle_world)))"
proof -
  let ?K = "websocket_handler sample_env"
  let ?s = "(init (ascii ''localhost'') 3000 (ascii ''/'') None WSClient_new, idle_world)"
  obtain r s' where e: "event_loop sample_env ?K ?s = (r, s')" by (metis prod.collapse)
  have "reachable sample_env ?K s'"
    by (rule reachable.event_loop [OF reachable.init [OF reachable.new] e])
  with reachable_client_ok [OF example.callback_inv_axioms] e show ?thesis by simp
qed

section \<open>The life of a connection\<close>

text \<open>
  C3: One iteration of the event loop takes the connection through at most two steps of the
  state machine \<open>conn_step\<close>, one for what was received and one for what was sent; so its
  status never goes back.
\<close>

theorem event_loop_refines_the_state_machine:
  assumes "callback_api K" and "client_ok s"
  shows "(\<exists>mid. conn_step (connection_status (fst s)) mid \<and>
      conn_step mid (connection_status (fst (snd (event_loop E K s))))) \<and>
    connection_status (fst s) \<le> connection_status (fst (snd (event_loop E K s)))"
  using callback_api.event_loop_steps [OF assms, of E] by (auto dest!: conn_step_mono)

theorem event_loop_refines_the_state_machine_witness:
  "conn_step\<^sup>*\<^sup>* OPEN (connection_status (fst (snd (event_loop sample_env (websocket_handler sample_env)
     ((WSClient_new :: nat WSClient)\<lparr>connection_status := OPEN, stream := Some (TcpStream [] 80)\<rparr>, idle_world)))))"
proof -
  let ?s = "((WSClient_new :: nat WSClient)\<lparr>connection_status := OPEN, stream := Some (TcpStream [] 80)\<rparr>, idle_world)"
  have "client_ok ?s" by (simp add: client_ok_def WSClient_new_def)
  from event_loop_refines_the_state_machine [OF example.callback_api_axioms this, of sample_env sample_env]
  show ?thesis by auto
qed

text \<open>
  C4: A connection becomes open only in the handshake, in an iteration whose bytes, together
  with those stored before, parse as a response with status 101 whose
  \<^verbatim>\<open>Sec-WebSocket-Accept\<close> header answers the key this client sent.
\<close>

theorem opens_only_when_authenticated:
  assumes "callback_api K" and "client_ok (c, w)" and "connection_status c \<noteq> OPEN"
    and "connection_status (fst (snd (event_loop E K (c, w)))) = OPEN"
  shows "connection_status c = HANDSHAKE \<and>
    (\<exists>bs rs r a. one_read (reads w) = (Ok bs, rs) \<and>
       Response_parse E (recv_storage c @ bs) = Ok r \<and>
       rsp_status_code r = 101 \<and>
       header E r (ascii ''Sec-WebSocket-Accept'') = Some a \<and> verify_key E (websocket_key c) a)"
  using callback_api.opens_authenticated [OF assms]
  by (auto simp: accepted_def SWITCHING_PROTOCOLS_def split: option.splits)

theorem opens_only_when_authenticated_witness:
  "\<exists>bs rs r a. one_read [ReadBytes sample_response_bytes] = (Ok bs, rs) \<and>
     Response_parse sample_env (recv_storage shaking_client @ bs) = Ok r \<and> rsp_status_code r = 101 \<and>
     header sample_env r (ascii ''Sec-WebSocket-Accept'') = Some a \<and>
     verify_key sample_env (websocket_key shaking_client) a"
proof -
  let ?w = "idle_world\<lparr>reads := [ReadBytes sample_response_bytes]\<rparr>"
  have c: "connection_status shaking_client = HANDSHAKE" "stream shaking_client \<noteq> None"
      "input_events shaking_client = []" "output_events shaking_client = []" "callback shaking_client = None"
      "recv_storage shaking_client = []"
    by (simp_all add: shaking_client_def WSClient_new_def)
  then have ok: "client_ok (shaking_client, ?w)" by (simp add: client_ok_def)
  have rd: "read_bytes_from_socket sample_env (shaking_client, ?w) =
      (Ok (HTTP_RESPONSE sample_response), (shaking_client\<lparr>recv_storage := []\<rparr>, ?w\<lparr>reads := []\<rparr>))"
    using c sample_response_length
    by (simp add: read_bytes_eq one_read_def look_def sample_response_parses)
  have acc: "accepted sample_env (shaking_client\<lparr>recv_storage := []\<rparr>) sample_response"
    using sample_response_accepted by (simp add: accepted_def split: option.splits)
  have "connection_status (fst (snd (event_loop sample_env (websocket_handler sample_env) (shaking_client, ?w)))) = OPEN"
    using c acc
    by (simp add: event_loop_active rd take_output_def rm_eval handle_some_def handle_event_def
        handle_response Let_def)
  from opens_only_when_authenticated [OF example.callback_api_axioms ok _ this] c(1)
  show ?thesis by simp
qed





text \<open>
  C6: With a callback that does not panic, an iteration panics in exactly these cases: the
  client connects and was given an empty list of protocols; the parser of the handshake's
  response or of the frames panics on the bytes received; or the frame received is a pong.
  No other handler, \<open>unwrap\<close>, slice or downcast of the client can panic.
\<close>

theorem event_loop_panics_iff:
  assumes "callback_api K" and "never_panics K" and "client_ok (c, w)"
  shows "fst (event_loop E K (c, w)) = Panic \<longleftrightarrow> panic_cause E c w"
  by (rule callback_api.event_loop_panics [OF assms(1,3,2)])

theorem event_loop_panics_iff_witness:
  "fst (event_loop sample_env no_handler
     (init (ascii ''h'') 80 (ascii ''/'') (Some \<lparr>cfg_callback = None, cfg_data = None, cfg_protocols = Some []\<rparr>)
        (WSClient_new :: unit WSClient), idle_world\<lparr>connects := [True]\<rparr>)) = Panic"
proof -
  let ?c = "init (ascii ''h'') 80 (ascii ''/'') (Some \<lparr>cfg_callback = None, cfg_data = None, cfg_protocols = Some []\<rparr>)
        (WSClient_new :: unit WSClient)"
  let ?w = "idle_world\<lparr>connects := [True]\<rparr>"
  have ok: "client_ok (?c, ?w)" and cause: "panic_cause sample_env ?c ?w"
    by (simp_all add: client_ok_def init_def WSClient_new_def panic_cause_def)
  show ?thesis
    using event_loop_panics_iff [OF silent.callback_api_axioms no_handler_never_panics ok] cause by blast
qed

end
