(* ===== verification/Client_Scenarios.thy ===== *)
theory Client_Scenarios
  imports Client_Props
begin

unbundle bit_operations_syntax

text \<open>
  The protocol the client speaks, from the bytes that come in to the bytes that go out: pings,
  text messages, the two closing handshakes, the delivery of a message, and the destructor.
\<close>

section \<open>Iterations with one thing to do\<close>

lemma bindM_unit: "bindM m retM = m"
  by (rule ext) (auto simp: rm_eval split: prod.split outcome.split)

text \<open>The bytes at hand start with a frame.\<close>

lemma receive_iteration:
  assumes "client_ok (c, w)" and "connection_status c \<in> {OPEN, CLIENT_WANTS_TO_CLOSE, SERVER_WANTS_TO_CLOSE}"
    and "one_read (reads w) = (Ok bs, rs)"
    and "bytes_to_frame E (recv_storage c @ bs) = Ok (Some (fr, offset))"
    and "offset \<le> length (recv_storage c @ bs)"
    and "take_output (c\<lparr>recv_storage := drop offset (recv_storage c @ bs)\<rparr>) = (out, c2)"
  shows "event_loop E K (c, w) =
    thenM (handle_recv_frame E K fr) (handle_some E K OUTPUT out) (c2, w\<lparr>reads := rs\<rparr>)"
proof -
  have act: "active (connection_status c)" using assms(2) by auto
  then have c: "stream c \<noteq> None" "input_events c = []" using assms(1) by (auto simp: client_ok_def)
  have ne: "recv_storage c @ bs \<noteq> []" using assms(4) by (auto simp: bytes_to_frame_def)
  have "look E (connection_status c) (recv_storage c @ bs) =
      Ok (WEBSOCKET_DATA fr, drop offset (recv_storage c @ bs))"
    using assms(2,4,5) ne by (auto simp: look_def)
  then have rd: "read_bytes_from_socket E (c, w) =
      (Ok (WEBSOCKET_DATA fr), (c\<lparr>recv_storage := drop offset (recv_storage c @ bs)\<rparr>, w\<lparr>reads := rs\<rparr>))"
    using assms(3) by (simp add: read_bytes_eq [OF c(1)])
  show ?thesis
    unfolding event_loop_active [OF act c] rd
    using assms(6) by (simp add: handle_some_def handle_event_def)
qed

text \<open>The same with nothing to send.\<close>

lemma receive_only_iteration:
  assumes "client_ok (c, w)" and "connection_status c \<in> {OPEN, CLIENT_WANTS_TO_CLOSE, SERVER_WANTS_TO_CLOSE}"
    and "one_read (reads w) = (Ok bs, rs)"
    and "bytes_to_frame E (recv_storage c @ bs) = Ok (Some (fr, offset))"
    and "offset \<le> length (recv_storage c @ bs)"
    and "output_events c = []"
  shows "event_loop E K (c, w) =
    handle_recv_frame E K fr (c\<lparr>recv_storage := drop offset (recv_storage c @ bs)\<rparr>, w\<lparr>reads := rs\<rparr>)"
proof -
  have "take_output (c\<lparr>recv_storage := drop offset (recv_storage c @ bs)\<rparr>) =
      (None, c\<lparr>recv_storage := drop offset (recv_storage c @ bs)\<rparr>)"
    using assms(6) by (simp add: take_output_def)
  from receive_iteration [OF assms(1-5) this] show ?thesis
    by (simp add: handle_some_def bindM_unit)
qed

text \<open>Nothing has come in.\<close>

lemma idle_read_iteration:
  assumes "client_ok (c, w)" and "active (connection_status c)" and "one_read (reads w) = (Ok [], rs)"
    and "recv_storage c = []"
  shows "event_loop E K (c, w) =
    (case take_output c of (out, c2) \<Rightarrow> handle_some E K OUTPUT out (c2, w\<lparr>reads := rs\<rparr>))"
proof -
  have c: "stream c \<noteq> None" "input_events c = []" using assms(1,2) by (auto simp: client_ok_def)
  have same: "c\<lparr>recv_storage := []\<rparr> = c" using assms(4) by simp
  have "read_bytes_from_socket E (c, w) = (Ok NO_DATA, (c\<lparr>recv_storage := []\<rparr>, w\<lparr>reads := rs\<rparr>))"
    using assms(3,4) by (simp add: read_bytes_eq [OF c(1)] look_def)
  then show ?thesis
    unfolding event_loop_active [OF assms(2) c] same
    by (simp add: handle_some_def split: prod.split)
qed

lemma quiet_iteration:
  assumes "client_ok (c, w)" and "active (connection_status c)" and "reads w = []" and "recv_storage c = []"
  shows "event_loop E K (c, w) =
    (case take_output c of (out, c2) \<Rightarrow> handle_some E K OUTPUT out (c2, w))"
proof -
  have "one_read (reads w) = (Ok [], [])" and "w\<lparr>reads := []\<rparr> = w" using assms(3) by (simp_all add: one_read_def)
  then show ?thesis using idle_read_iteration [OF assms(1,2) _ assms(4)] by simp
qed

section \<open>Pings\<close>

text \<open>
  The next read completes an unmasked frame; for a control frame, one of the form that the parser
  is made for, with at least two bytes of payload.
\<close>

definition server_sends :: "'t WSClient \<Rightarrow> World \<Rightarrow> rfc_frame \<Rightarrow> u8 list \<Rightarrow> bool" where
  "server_sends c w f rest \<longleftrightarrow>
     (\<exists>bs rs. one_read (reads w) = (Ok bs, rs) \<and>
        rfc_decode (recv_storage c @ bs) = Some (f, rest) \<and> \<not> rfc_masked f \<and>
        length (recv_storage c @ bs) < 2 ^ 63 \<and>
        (rfc_opcode f \<ge> 8 \<longrightarrow> short_form (recv_storage c @ bs) \<and> 2 \<le> length (rfc_payload f)))"

definition control_frame_of :: "rfc_frame \<Rightarrow> Frame" where
  "control_frame_of f =
     ControlFrame (Header_new (wire_flags f) (OPCODE (rfc_opcode f)) None (of_nat (length (rfc_payload f))))
       (rfc_payload f) (Some (u16_from_be_bytes (take 2 (rfc_payload f))))"

lemma control_parses:
  assumes "bitflags_ok E" and "server_sends c w f rest" and "known_frame {8, 9, 10} f"
  obtains bs rs offset where "one_read (reads w) = (Ok bs, rs)"
    and "bytes_to_frame E (recv_storage c @ bs) = Ok (Some (control_frame_of f, offset))"
    and "offset \<le> length (recv_storage c @ bs)" and "drop offset (recv_storage c @ bs) = rest"
    and "2 \<le> length (rfc_payload f)" and "received_ok (control_frame_of f)"
proof -
  have "rfc_opcode f \<ge> 8" using assms(3) by (auto simp: known_frame_def word_le_nat_alt)
  with assms(2) obtain bs rs where rd: "one_read (reads w) = (Ok bs, rs)"
    and dec: "rfc_decode (recv_storage c @ bs) = Some (f, rest)" and nm: "\<not> rfc_masked f"
    and len: "length (recv_storage c @ bs) < 2 ^ 63"
    and sf: "short_form (recv_storage c @ bs)" and two: "2 \<le> length (rfc_payload f)"
    by (auto simp: server_sends_def)
  note parse = parse_control_frame [OF assms(1) len dec nm assms(3) sf two]
  have p: "bytes_to_frame E (recv_storage c @ bs) = Ok (Some (control_frame_of f, 2 + length (rfc_payload f)))"
    using parse by (simp add: control_frame_of_def)
  have "parse_spec (recv_storage c @ bs) = Ok (Some (control_frame_of f, 2 + length (rfc_payload f)))"
    using p by (simp add: bytes_to_frame_parse [OF assms(1) len])
  then have off: "2 + length (rfc_payload f) \<le> length (recv_storage c @ bs)"
    by (rule parse_spec_offset [THEN conjunct2])
  show thesis
    using that [OF rd p off _ two bytes_to_frame_received [OF p]] parse by simp
qed

lemma receive_control:
  assumes "client_ok (c, w)" and "connection_status c \<in> {OPEN, CLIENT_WANTS_TO_CLOSE, SERVER_WANTS_TO_CLOSE}"
    and "bitflags_ok E" and "server_sends c w f rest" and "known_frame {8, 9, 10} f" and "output_events c = []"
  shows "\<exists>rs. event_loop E K (c, w) =
      handle_recv_frame E K (control_frame_of f) (c\<lparr>recv_storage := rest\<rparr>, w\<lparr>reads := rs\<rparr>)"
    and "2 \<le> length (rfc_payload f)"
    and "received_ok (control_frame_of f)"
  using control_parses [OF assms(3-5)] receive_only_iteration [OF assms(1,2) _ _ _ assms(6)] by metis+

text \<open>What the received frame is to the handlers.\<close>

lemma control_frame_of_fields [simp]:
  "get_data (control_frame_of f) = rfc_payload f"
  "code (get_header (control_frame_of f)) = OPCODE (rfc_opcode f)"
  "get_status_code (control_frame_of f) = Some (u16_from_be_bytes (take 2 (rfc_payload f)))"
  "as_control_frame (control_frame_of f) = Some (control_frame_of f)"
  by (simp_all add: control_frame_of_def)

lemma kind_control_frame_of: "known_frame {8, 9, 10} f \<Longrightarrow> kind (control_frame_of f) = Control"
  by (auto simp: kind_def known_frame_def opcode_defs)

text \<open>A frame of a server and a client that is waiting for it, at which the witnesses evaluate.\<close>

definition listening_client :: "unit WSClient" where
  "listening_client = open_client\<lparr>callback := Some 0\<rparr>"

definition reading_world :: "u8 list \<Rightarrow> World" where
  "reading_world bs = idle_world\<lparr>reads := [ReadBytes bs]\<rparr>"

lemma open_client_fields [simp]:
  "connection_status open_client = OPEN" "output_events open_client = []" "input_events open_client = []"
  "recv_storage open_client = []" "recv_data open_client = []" "callback open_client = None"
  "stream open_client = Some (TcpStream (ascii ''h'') 80)"
  by (simp_all add: open_client_def WSClient_new_def)

lemma listening_client_fields [simp]:
  "connection_status listening_client = OPEN" "output_events listening_client = []"
  "input_events listening_client = []" "recv_storage listening_client = []"
  "recv_data listening_client = []" "callback listening_client = Some 0" "stream listening_client \<noteq> None"
  by (simp_all add: listening_client_def)

lemma sample_clients_ok [simp]: "client_ok (open_client, w)" "client_ok (listening_client, w)"
  by (simp_all add: client_ok_def)

lemma sample_frames:
  "rfc_decode [0x89, 2, 72, 105] = Some (wire_frame FLAG_FIN OPCODE_PING False [72, 105], [])"
  "rfc_decode [0x88, 3, 3, 0xE9, 66] = Some (wire_frame FLAG_FIN OPCODE_CLOSE False [3, 0xE9, 66], [])"
  "rfc_decode [0x81, 2, 72, 105] = Some (wire_frame FLAG_FIN OPCODE_TEXT False [72, 105], [])"
  "rfc_decode [0x01, 2, 72, 105] = Some (wire_frame FLAG_NOFLAG OPCODE_TEXT False [72, 105], [])"
  by (simp_all add: rfc_length_def wire_frame_def flag_defs opcode_defs bit_simps)

lemma server_sends_sample:
  assumes "rfc_decode bs = Some (wire_frame fl opc False dat, [])" and "recv_storage c = []"
    and "length bs \<le> 1024" and "short_form bs" and "2 \<le> length dat"
  shows "server_sends c (reading_world bs) (wire_frame fl opc False dat) []"
proof -
  have "bs \<noteq> []" using assms(1) by auto
  then show ?thesis using assms
    by (auto simp: server_sends_def reading_world_def one_read_def wire_frame_def)
qed

lemma sample_short_forms:
  "short_form [0x89, 2, 72, 105]" "short_form [0x88, 3, 3, 0xE9, 66]"
  "short_form [0x81, 2, 72, 105]" "short_form [0x01, 2, 72, 105]"
  by (simp_all add: short_form_def)

lemma sample_known:
  "known_frame {9} (wire_frame FLAG_FIN OPCODE_PING False [72, 105])"
  "known_frame {8} (wire_frame FLAG_FIN OPCODE_CLOSE False [3, 0xE9, 66])"
  "known_frame {1} (wire_frame FLAG_FIN OPCODE_TEXT False [72, 105])"
  "known_frame {1} (wire_frame FLAG_NOFLAG OPCODE_TEXT False [72, 105])"
  by (simp_all add: wire_frame_def known_frame_def flag_defs opcode_defs)



section \<open>The server closes\<close>

lemma reply_code_eq:
  "bitflags_ok E \<Longrightarrow> reply_code E st = (if st \<in> {1000, 1001, 1004} then st else 1002)"
  by (auto simp: reply_code_def WSStatus_from_bits_eq evaulate_status_code_def status_defs
      word_le_nat_alt split: option.split if_splits)

text \<open>
  C16: An open client with nothing to send answers a close frame: after the iteration that
  reads it, the queue holds one frame, which a peer decodes as a final, masked close frame with
  the server's reason and with the server's status code if that is 1000, 1001 or 1004 and 1002
  otherwise; and the client waits for the answer to be sent.
\<close>

theorem server_close_is_answered:
  assumes "client_ok (c, w)" and "connection_status c = OPEN" and "output_events c = []"
    and "bitflags_ok E" and "server_sends c w f rest" and "known_frame {8} f"
  shows "\<exists>fr s'. event_loop E K (c, w) = (Ok (), s') \<and>
    connection_status (fst s') = SERVER_WANTS_TO_CLOSE \<and>
    output_events (fst s') = [WEBSOCKET_DATA fr] \<and>
    (let st = u16_from_be_bytes (take 2 (rfc_payload f));
         st' = (if st \<in> {1000, 1001, 1004} then st else 1002) in
     rfc_decode (serialize fr) =
       Some (wire_frame FLAG_FIN OPCODE_CLOSE True (u16_to_be_bytes st' @ drop 2 (rfc_payload f)), []))"
proof -
  have known: "known_frame {8, 9, 10} f" using assms(6) by (simp add: known_frame_def)
  have st: "connection_status c \<in> {OPEN, CLIENT_WANTS_TO_CLOSE, SERVER_WANTS_TO_CLOSE}" using assms(2) by simp
  let ?fr = "control_frame_of f"
  note rc = receive_control [OF assms(1) st assms(4,5) known assms(3)]
  from rc(1) [of K] obtain rs where loop: "event_loop E K (c, w) =
      handle_recv_frame E K ?fr (c\<lparr>recv_storage := rest\<rparr>, w\<lparr>reads := rs\<rparr>)" ..
  have code: "code (get_header ?fr) = OPCODE_CLOSE" and d: "2 \<le> length (get_data ?fr)"
    using assms(6) rc(2) by (simp_all add: control_frame_of_def known_frame_def opcode_defs)
  then have k: "kind ?fr = Control" "as_control_frame ?fr = Some ?fr"
    by (simp_all add: kind_def)
  have len: "length (control_payload (Some x) (drop 2 (rfc_payload f))) \<le> 125" for x
    using rc(2,3) by (simp add: received_ok_def control_frame_of_def length_control_payload)
  let ?st = "u16_from_be_bytes (take 2 (rfc_payload f))"
  let ?reply = "close_reply E (rfc_payload f) (rng_calls w)"
  have dec: "rfc_decode (serialize ?reply) = Some (wire_frame FLAG_FIN OPCODE_CLOSE True
      (u16_to_be_bytes (reply_code E ?st) @ drop 2 (rfc_payload f)), [])"
    using control_frame_wire [OF _ len [of "reply_code E ?st"], of FLAG_FIN OPCODE_CLOSE E True None "rng_calls w" "[]"]
    by (simp add: close_reply_def control_payload_def)
  have data: "get_data ?fr = rfc_payload f" by (simp add: control_frame_of_def)
  have op: "connection_status (c\<lparr>recv_storage := rest\<rparr>) = OPEN" using assms(2) by simp
  show ?thesis
    unfolding loop handle_control_received [OF k] handle_close_open [OF code d op] data
    using dec [unfolded reply_code_eq [OF assms(4)]] by (intro exI [of _ ?reply]) simp
qed

theorem server_close_is_answered_witness:
  "\<exists>fr s'. event_loop sample_env no_handler (open_client, reading_world [0x88, 3, 3, 0xE9, 66]) = (Ok (), s') \<and>
    connection_status (fst s') = SERVER_WANTS_TO_CLOSE \<and>
    rfc_decode (serialize fr) = Some (wire_frame FLAG_FIN OPCODE_CLOSE True [3, 0xE9, 66], [])"
proof -
  have "server_sends open_client (reading_world [0x88, 3, 3, 0xE9, 66])
      (wire_frame FLAG_FIN OPCODE_CLOSE False [3, 0xE9, 66]) []"
    using sample_frames(2) by (rule server_sends_sample) (simp_all add: sample_short_forms)
  moreover have st: "u16_from_be_bytes [3, 0xE9] = 1001" by (simp add: u16_from_be_bytes_def be_nat_def)
  moreover have "u16_to_be_bytes 1001 = [3, 0xE9]"
    using st by (intro u16.enc_dec) (simp add: bytes_to_u16_def)
  ultimately show ?thesis
    using server_close_is_answered [OF _ _ _ sample_env_bitflags _ sample_known(2), of open_client _ "[]" no_handler]
    by (fastforce simp: wire_frame_def Let_def)
qed

text \<open>
  C17: When the answer to the server's close frame is the next thing to send and the socket
  takes it, one iteration ends the connection: the answer is written, the socket shut down and
  given up, and the callback told the status code of the answer, in this order; every later
  iteration reports that the connection is closed and changes nothing.
\<close>

theorem server_close_completes:
  assumes "callback_api K" and "client_ok (c, w)" and "connection_status c = SERVER_WANTS_TO_CLOSE"
    and "output_events c = [WEBSOCKET_DATA fr]" and "kind fr = Control" and "get_status_code fr = Some st"
    and "reads w = []" and "recv_storage c = []"
    and "write_all (serialize fr) (writes w) = (Ok (), sent, ws)" and "fst (next_answer True (shutdowns w))"
  shows "\<exists>s'. snd (event_loop E K (c, w)) = s' \<and>
    connection_status (fst s') = CLOSE \<and> stream (fst s') = None \<and>
    trace (snd s') = trace w @ [Sent (serialize fr), ShutdownBoth] @
      (case callback c of None \<Rightarrow> [] | Some f \<Rightarrow> [Called (ON_CLOSE (SERVER_CLOSE st))]) \<and>
    event_loop E K s' = (Err ConnectionClose, s')"
proof -
  have act: "active (connection_status c)" using assms(3) by simp
  have stream: "stream c \<noteq> None" using assms(2) act by (simp add: client_ok_def)
  have sendable: "sendable fr" using assms(2,4) by (simp add: client_ok_def)
  have cf: "kind fr = Control \<longrightarrow> as_control_frame fr \<noteq> None" using sendable by (simp add: sendable_def)
  have sent: "sent = serialize fr" using assms(9) by (rule write_all_Ok)
  let ?c = "c\<lparr>output_events := []\<rparr>"
  have "event_loop E K (c, w) = handle_send_frame E K fr (?c, w)"
    using assms(3,4)
    by (simp add: quiet_iteration [OF assms(2) act assms(7,8)] take_output_def handle_some_def handle_event_def)
  also have "\<dots> = finish_close K (Some st) (?c, after_write w (serialize fr))"
    using stream cf assms(3,5,6,9) by (simp add: handle_send_frame_eq)
  finally have loop: "event_loop E K (c, w) = finish_close K (Some st) (?c, after_write w (serialize fr))" .
  let ?s = "snd (event_loop E K (c, w))"
  have s: "connection_status (fst ?s) = CLOSE \<and> stream (fst ?s) = None \<and>
    trace (snd ?s) = trace w @ [Sent (serialize fr), ShutdownBoth] @
      (case callback c of None \<Rightarrow> [] | Some f \<Rightarrow> [Called (ON_CLOSE (SERVER_CLOSE st))])"
    unfolding loop using assms(9,10) sent
    by (simp add: finish_close_def after_write_def Let_def callback_api.call_back_status [OF assms(1)]
        split: option.split)
  then show ?thesis using event_loop_idle(3) [of ?s E K] by blast
qed

theorem server_close_completes_witness:
  "\<exists>fr s'. snd (event_loop sample_env no_handler
       (open_client\<lparr>connection_status := SERVER_WANTS_TO_CLOSE, output_events := [WEBSOCKET_DATA fr]\<rparr>,
        idle_world\<lparr>writes := [Wrote 64]\<rparr>)) = s' \<and>
     connection_status (fst s') = CLOSE \<and> trace (snd s') = [Sent (serialize fr), ShutdownBoth]"
proof -
  let ?fr = "close_reply sample_env [3, 0xE9] 0"
  let ?c = "open_client\<lparr>connection_status := SERVER_WANTS_TO_CLOSE, output_events := [WEBSOCKET_DATA ?fr]\<rparr>"
  let ?w = "idle_world\<lparr>writes := [Wrote 64]\<rparr>"
  have "sendable ?fr" unfolding close_reply_def by (rule sendable_control) (simp_all add: length_control_payload)
  then have ok: "client_ok (?c, ?w)" by (simp add: client_ok_def)
  have fr: "kind ?fr = Control" "get_status_code ?fr = Some (reply_code sample_env (u16_from_be_bytes [3, 0xE9]))"
    by (simp_all add: close_reply_def ControlFrame_new_def kind_def)
  obtain b bs where s: "serialize ?fr = b # bs" "length bs < 64"
    by (simp add: serialize_def close_reply_def ControlFrame_new_def Header_serialize_def u16.length_enc)
  have wr: "write_all (serialize ?fr) [Wrote 64] = (Ok (), serialize ?fr, [])"
    using s by (simp add: Let_def)
  show ?thesis
    using server_close_completes [OF silent.callback_api_axioms ok _ _ fr, of "serialize ?fr" "[]"] wr
    by (intro exI [of _ ?fr]) (simp add: idle_world_def)
qed

section \<open>A pong on its way\<close>

text \<open>
  C30: A pong that is due when the server closes ends the connection in place of the answer: the
  iteration that reads the server's close frame queues the answer and then sends the pong it had
  already taken from the queue, as the first control frame to go out once the server wants to
  close; so the socket is shut down behind the pong, the answer is never sent, and the callback
  is told status code 0.
\<close>

theorem pong_ends_the_connection:
  assumes "callback_api K" and "client_ok (c, w)" and "connection_status c = OPEN"
    and "output_events c = WEBSOCKET_DATA pong # evs" and "code (get_header pong) = OPCODE_PONG"
    and "get_status_code pong = None" and "bitflags_ok E" and "server_sends c w f rest" and "known_frame {8} f"
    and "write_all (serialize pong) (writes w) = (Ok (), sent, ws)" and "fst (next_answer True (shutdowns w))"
  shows "\<exists>s'. snd (event_loop E K (c, w)) = s' \<and> connection_status (fst s') = CLOSE \<and> stream (fst s') = None \<and>
    trace (snd s') = trace w @ [Sent (serialize pong), ShutdownBoth] @
      (case callback c of None \<Rightarrow> [] | Some g \<Rightarrow> [Called (ON_CLOSE (SERVER_CLOSE 0))])"
proof -
  have known: "known_frame {8, 9, 10} f" using assms(9) by (simp add: known_frame_def)
  have st: "connection_status c \<in> {OPEN, CLIENT_WANTS_TO_CLOSE, SERVER_WANTS_TO_CLOSE}" using assms(3) by simp
  obtain bs rs offset where rd: "one_read (reads w) = (Ok bs, rs)"
    and p: "bytes_to_frame E (recv_storage c @ bs) = Ok (Some (control_frame_of f, offset))"
    and off: "offset \<le> length (recv_storage c @ bs)" and len: "2 \<le> length (rfc_payload f)"
    using control_parses [OF assms(7,8) known] by metis
  let ?c = "c\<lparr>recv_storage := drop offset (recv_storage c @ bs), output_events := evs\<rparr>" and ?w = "w\<lparr>reads := rs\<rparr>"
  have "take_output (c\<lparr>recv_storage := drop offset (recv_storage c @ bs)\<rparr>) = (Some (WEBSOCKET_DATA pong), ?c)"
    using assms(3,4) by (simp add: take_output_def)
  note loop = receive_iteration [OF assms(2) st rd p off this, of K]
  let ?reply = "close_reply E (rfc_payload f) (rng_calls w)"
  let ?c2 = "?c\<lparr>output_events := [WEBSOCKET_DATA ?reply], input_events := [], connection_status := SERVER_WANTS_TO_CLOSE\<rparr>"
  let ?w2 = "?w\<lparr>rng_calls := rng_calls w + 1\<rparr>"
  have code: "code (get_header (control_frame_of f)) = OPCODE_CLOSE"
    using assms(9) by (simp add: known_frame_def opcode_defs)
  have "handle_recv_frame E K (control_frame_of f) (?c, ?w) = (Ok (), (?c2, ?w2))"
    using assms(3) len
    by (simp add: handle_control_received kind_control_frame_of [OF known] handle_close_open [OF code])
  then have "event_loop E K (c, w) = handle_send_frame E K pong (?c2, ?w2)"
    by (simp add: loop bindM_eval handle_some_def handle_event_def)
  moreover have "kind pong = Control" "as_control_frame pong \<noteq> None" "stream c \<noteq> None"
    using assms(2-5) by (auto simp: client_ok_def sendable_def kind_def)
  ultimately have "event_loop E K (c, w) = finish_close K None (?c2, after_write ?w2 (serialize pong))"
    using assms(6,10) by (simp add: handle_send_frame_eq)
  moreover have "sent = serialize pong" using assms(10) by (rule write_all_Ok)
  ultimately show ?thesis
    using assms(10,11)
    by (simp add: finish_close_def after_write_def Let_def callback_api.call_back_status [OF assms(1)]
        split: option.split)
qed

theorem pong_ends_the_connection_witness:
  "\<exists>pong. trace (snd (snd (event_loop sample_env no_handler
       (open_client\<lparr>output_events := [WEBSOCKET_DATA pong]\<rparr>,
        (reading_world [0x88, 3, 3, 0xE9, 66])\<lparr>writes := [Wrote 64]\<rparr>)))) =
     [Sent (serialize pong), ShutdownBoth]"
proof -
  let ?pong = "pong_for sample_env (DataFrame (Header_new FLAG_FIN OPCODE_PING None 2) [72, 105]) 0"
  let ?c = "open_client\<lparr>output_events := [WEBSOCKET_DATA ?pong]\<rparr>"
  let ?w = "(reading_world [0x88, 3, 3, 0xE9, 66])\<lparr>writes := [Wrote 64]\<rparr>"
  let ?f = "wire_frame FLAG_FIN OPCODE_CLOSE False [3, 0xE9, 66]"
  have pong: "code (get_header ?pong) = OPCODE_PONG" "get_status_code ?pong = None"
    by (simp_all add: pong_for_def ControlFrame_new_def)
  have "sendable ?pong" unfolding pong_for_def by (rule sendable_control) (simp_all add: control_payload_def)
  then have ok: "client_ok (?c, ?w)" by (simp add: client_ok_def)
  have "server_sends open_client (reading_world [0x88, 3, 3, 0xE9, 66]) ?f []"
    using sample_frames(2) by (rule server_sends_sample) (simp_all add: sample_short_forms)
  then have sends: "server_sends ?c ?w ?f []" by (simp add: server_sends_def)
  obtain b bs where s: "serialize ?pong = b # bs" "length bs < 64"
    by (simp add: serialize_def pong_for_def ControlFrame_new_def Header_serialize_def)
  have wr: "write_all (serialize ?pong) (writes ?w) = (Ok (), serialize ?pong, [])"
    using s by (simp add: Let_def)
  show ?thesis
    using pong_ends_the_connection [OF silent.callback_api_axioms ok _ _ pong sample_env_bitflags sends
        sample_known(2) wr]
    by (intro exI [of _ ?pong]) (simp add: reading_world_def idle_world_def)
qed

section \<open>Text messages\<close>

lemma receive_data:
  assumes "client_ok (c, w)" and "connection_status c \<in> {OPEN, CLIENT_WANTS_TO_CLOSE, SERVER_WANTS_TO_CLOSE}"
    and "bitflags_ok E" and "server_sends c w f rest" and "known_frame {0, 1, 2} f" and "output_events c = []"
  obtains rs fr where "event_loop E K (c, w) =
      handle_recv_frame E K fr (c\<lparr>recv_storage := rest\<rparr>, w\<lparr>reads := rs\<rparr>)"
    and "kind fr = Data" and "get_data fr = rfc_payload f" and "get_flag (get_header fr) = wire_flags f"
proof -
  from assms(4) obtain bs rs where rd: "one_read (reads w) = (Ok bs, rs)"
    and dec: "rfc_decode (recv_storage c @ bs) = Some (f, rest)" and nm: "\<not> rfc_masked f"
    and len: "length (recv_storage c @ bs) < 2 ^ 63"
    by (auto simp: server_sends_def)
  let ?b = "recv_storage c @ bs"
  from parse_data_frame [OF dec len assms(5)] nm obtain k where
    k: "k + length (rfc_payload f) \<le> length ?b" "rest = drop (k + length (rfc_payload f)) ?b"
      "rfc_payload f = take (length (rfc_payload f)) (drop k ?b)"
      "parse_spec ?b = Ok (Some (DataFrame
        (Header_new (wire_flags f) (OPCODE (rfc_opcode f)) None (of_nat (length (rfc_payload f))))
        (take (length (rfc_payload f)) (drop k ?b)), k + length (rfc_payload f)))"
    by auto
  let ?fr = "DataFrame (Header_new (wire_flags f) (OPCODE (rfc_opcode f)) None (of_nat (length (rfc_payload f))))
        (rfc_payload f)"
  have "bytes_to_frame E ?b = Ok (Some (?fr, k + length (rfc_payload f)))"
    using k(3,4) by (simp add: bytes_to_frame_parse [OF assms(3) len])
  from receive_only_iteration [OF assms(1,2) rd this k(1) assms(6), of K] k(2)
  have "event_loop E K (c, w) = handle_recv_frame E K ?fr (c\<lparr>recv_storage := rest\<rparr>, w\<lparr>reads := rs\<rparr>)"
    by simp
  moreover have "kind ?fr = Data"
    using assms(5) by (auto simp: kind_def known_frame_def opcode_defs)
  ultimately show thesis by (rule that) simp_all
qed

lemma wire_flags_fin:
  "rfc_rsv f = 0 \<Longrightarrow> wire_flags f = FLAG_FIN \<longleftrightarrow> rfc_fin f"
  by (simp add: wire_flags_def flag_defs)

text \<open>
  C19: A text message in one final frame reaches the callback exactly once, with its payload:
  in an open client with no fragment collected and nothing to send, the iteration that reads
  the frame calls back once, with the payload, and does nothing else to the outside; the bytes
  behind the frame stay in the storage.
\<close>

theorem text_message_reaches_the_callback:
  assumes "callback_api K" and "client_ok (c, w)" and "connection_status c = OPEN"
    and "output_events c = []" and "recv_data c = []" and "callback c = Some g" and "bitflags_ok E"
    and "server_sends c w f rest" and "known_frame {1} f" and "rfc_fin f" and "rfc_rsv f = 0"
    and "utf8_valid (rfc_payload f)"
  shows "\<exists>s'. snd (event_loop E K (c, w)) = s' \<and>
    trace (snd s') = trace w @ [Called (ON_TEXT (rfc_payload f))] \<and>
    recv_storage (fst s') = rest \<and> connection_status (fst s') = OPEN"
proof -
  have known: "known_frame {0, 1, 2} f" using assms(9) by (simp add: known_frame_def)
  have st: "connection_status c \<in> {OPEN, CLIENT_WANTS_TO_CLOSE, SERVER_WANTS_TO_CLOSE}" using assms(3) by simp
  obtain rs fr where loop: "event_loop E K (c, w) =
      handle_recv_frame E K fr (c\<lparr>recv_storage := rest\<rparr>, w\<lparr>reads := rs\<rparr>)"
    and fr: "kind fr = Data" "get_data fr = rfc_payload f" "get_flag (get_header fr) = wire_flags f"
    by (rule receive_data [OF assms(2) st assms(7,8) known assms(4)])
  let ?s = "(c\<lparr>recv_storage := rest\<rparr>, w\<lparr>reads := rs\<rparr>)"
  have coll: "collected (fst ?s) fr = []"
    using assms(5,10,11) fr(3) by (simp add: collected_def wire_flags_fin)
  have same: "(fst ?s)\<lparr>recv_data := []\<rparr> = fst ?s" using assms(5) by simp
  have "handle_recv_frame E K fr ?s = call_back K g (ON_TEXT (rfc_payload f)) ?s"
    using assms(6,12) coll same fr(2) by (simp add: handle_data_frame [OF fr(1)])
  then show ?thesis
    unfolding loop using assms(3)
      api_effect_fields(5) [OF callback_api.call_back_effect [OF assms(1),
        of "c\<lparr>recv_storage := rest\<rparr>" "w\<lparr>reads := rs\<rparr>" "ON_TEXT (rfc_payload f)" g]]
    by (simp add: callback_api.call_back_status [OF assms(1)])
qed

theorem text_message_reaches_the_callback_witness:
  "trace (snd (snd (event_loop sample_env no_handler (listening_client, reading_world [0x81, 2, 72, 105])))) =
    [Called (ON_TEXT [72, 105])]"
proof -
  let ?f = "wire_frame FLAG_FIN OPCODE_TEXT False [72, 105]"
  have s: "server_sends listening_client (reading_world [0x81, 2, 72, 105]) ?f []"
    using sample_frames(3) by (rule server_sends_sample) (simp_all add: sample_short_forms)
  have f: "rfc_fin ?f" "rfc_rsv ?f = 0" "utf8_valid (rfc_payload ?f)"
    by (simp_all add: wire_frame_def flag_defs bit_simps)
  show ?thesis
    using text_message_reaches_the_callback [OF silent.callback_api_axioms _ _ _ _ _ sample_env_bitflags s
        sample_known(3) f]
    by (simp add: wire_frame_def reading_world_def idle_world_def)
qed

text \<open>
  C29: A fragmented message is not put together. The iteration that reads a non-final frame
  with payload \<open>d\<close> already calls back, with \<open>d\<close> twice over, and then forgets \<open>d\<close>, so that the
  next fragment is delivered as if it were a message of its own.
\<close>

theorem fragment_delivered_twice:
  assumes "callback_api K" and "never_panics K" and "client_ok (c, w)" and "connection_status c = OPEN"
    and "output_events c = []" and "recv_data c = []" and "callback c = Some g" and "bitflags_ok E"
    and "server_sends c w f rest" and "known_frame {1} f" and "\<not> rfc_fin f" and "rfc_rsv f = 0"
    and "utf8_valid (rfc_payload f)" and "rfc_payload f \<noteq> []"
  shows "\<exists>s'. event_loop E K (c, w) = (Ok (), s') \<and>
    trace (snd s') = trace w @ [Called (ON_TEXT (rfc_payload f @ rfc_payload f))] \<and>
    recv_data (fst s') = []"
proof -
  have known: "known_frame {0, 1, 2} f" using assms(10) by (simp add: known_frame_def)
  have st: "connection_status c \<in> {OPEN, CLIENT_WANTS_TO_CLOSE, SERVER_WANTS_TO_CLOSE}" using assms(4) by simp
  obtain rs fr where loop: "event_loop E K (c, w) =
      handle_recv_frame E K fr (c\<lparr>recv_storage := rest\<rparr>, w\<lparr>reads := rs\<rparr>)"
    and fr: "kind fr = Data" "get_data fr = rfc_payload f" "get_flag (get_header fr) = wire_flags f"
    by (rule receive_data [OF assms(3) st assms(8,9) known assms(5)])
  let ?c = "c\<lparr>recv_storage := rest\<rparr>" and ?w = "w\<lparr>reads := rs\<rparr>"
  have coll: "collected ?c fr = rfc_payload f"
    using assms(6,11,12) fr(2,3) by (simp add: collected_def wire_flags_fin)
  let ?s = "(?c\<lparr>recv_data := rfc_payload f\<rparr>, ?w)" and ?ev = "ON_TEXT (rfc_payload f @ rfc_payload f)"
  obtain r c2 w2 where cb: "call_back K g ?ev ?s = (r, (c2, w2))" by (metis prod.collapse)
  then have "r = Ok ()" and "trace w2 = trace w @ [Called ?ev]"
    using call_back_returns [OF assms(2), of g ?ev ?s] callback_api.call_back_status(3) [OF assms(1), of g ?ev ?s]
    by simp_all
  then show ?thesis
    unfolding loop using assms(7,13,14) coll cb fr(2) by (simp add: handle_data_frame [OF fr(1)] Let_def)
qed

theorem fragment_delivered_twice_witness:
  "trace (snd (snd (event_loop sample_env no_handler (listening_client, reading_world [0x01, 2, 72, 105])))) =
    [Called (ON_TEXT [72, 105, 72, 105])]"
proof -
  let ?f = "wire_frame FLAG_NOFLAG OPCODE_TEXT False [72, 105]"
  have s: "server_sends listening_client (reading_world [0x01, 2, 72, 105]) ?f []"
    using sample_frames(4) by (rule server_sends_sample) (simp_all add: sample_short_forms)
  have f: "\<not> rfc_fin ?f" "rfc_rsv ?f = 0" "utf8_valid (rfc_payload ?f)" "rfc_payload ?f \<noteq> []"
    by (simp_all add: wire_frame_def flag_defs bit_simps)
  obtain s' where "event_loop sample_env no_handler (listening_client, reading_world [0x01, 2, 72, 105]) = (Ok (), s')"
    and "trace (snd s') = [Called (ON_TEXT [72, 105, 72, 105])]"
    using fragment_delivered_twice [OF silent.callback_api_axioms no_handler_never_panics _ _ _ _ _
        sample_env_bitflags s sample_known(4) f]
    by (auto simp: wire_frame_def reading_world_def idle_world_def)
  then show ?thesis by simp
qed

end
