(* ===== verification/Client_Delivery.thy ===== *)
theory Client_Delivery
  imports Client_Scenarios
begin

text \<open>
  The output queue over several iterations of the event loop: what is queued reaches the
  socket, in order, one frame per iteration; and what happens when the socket takes only a part
  of a frame.
\<close>

section \<open>Several iterations\<close>

text \<open>What a program does with a client: call the event loop until it reports an error.\<close>

primrec iterate :: "env \<Rightarrow> 't cbk \<Rightarrow> nat \<Rightarrow> ('t, unit) cm" where
  "iterate E K 0 = retM ()"
| "iterate E K (Suc n) = thenM (event_loop E K) (iterate E K n)"

text \<open>The script of the writes takes the frames one after the other; what is left of it then.\<close>

fun takes_all :: "write_answer list \<Rightarrow> Frame list \<Rightarrow> write_answer list option" where
  "takes_all ws [] = Some ws"
| "takes_all ws (f # fs) =
     (case write_all (serialize f) ws of
        (Ok _, _, ws') \<Rightarrow> takes_all ws' fs
      | (Err _, _, _) \<Rightarrow> None
      | (Panic, _, _) \<Rightarrow> None)"

lemma takes_all_Cons:
  assumes "takes_all ws (f # fs) = Some ws'"
  obtains ws1 where "write_all (serialize f) ws = (Ok (), serialize f, ws1)" and "takes_all ws1 fs = Some ws'"
  using assms write_all_Ok by (fastforce split: prod.splits outcome.splits)

text \<open>A socket with room for \<open>n\<close> bytes takes a shorter frame in one go.\<close>

lemma write_all_room:
  "bs \<noteq> [] \<Longrightarrow> length bs \<le> n \<Longrightarrow> write_all bs (Wrote n # ws) = (Ok (), bs, ws)"
  by (cases bs) (simp_all add: Let_def min_def)

lemma serialize_not_Nil [simp]: "serialize f \<noteq> []"
  by (simp add: serialize_def Header_serialize_def Let_def)

section \<open>One iteration on a quiet socket\<close>

lemma quiet_send:
  assumes "client_ok (c, w)" and "active (connection_status c)" and "connection_status c \<noteq> HANDSHAKE"
    and "reads w = []" and "recv_storage c = []" and "output_events c = WEBSOCKET_DATA fr # evs"
  shows "event_loop E K (c, w) = handle_send_frame E K fr (c\<lparr>output_events := evs\<rparr>, w)"
  using assms(3,6)
  by (simp add: quiet_iteration [OF assms(1,2,4,5)] take_output_def handle_some_def handle_event_def)

lemma quiet_send_ok:
  assumes "client_ok (c, w)" and "connection_status c = OPEN" and "reads w = []" and "recv_storage c = []"
    and "output_events c = WEBSOCKET_DATA fr # evs"
    and "write_all (serialize fr) (writes w) = (Ok (), serialize fr, ws)"
  shows "event_loop E K (c, w) =
    (Ok (), (c\<lparr>output_events := evs\<rparr>, w\<lparr>writes := ws, trace := trace w @ [Sent (serialize fr)]\<rparr>))"
proof -
  have "stream c \<noteq> None" and "sendable fr" using assms(1,2,5) by (simp_all add: client_ok_def)
  then show ?thesis
    using assms
    by (simp add: quiet_send [OF assms(1) _ _ assms(3-5)] handle_send_frame_eq after_write_def sendable_def)
qed

text \<open>A socket that takes only a part of the frame: the client is as before, the frame still queued.\<close>

lemma quiet_send_partial:
  assumes "client_ok (c, w)" and "connection_status c = OPEN" and "reads w = []" and "recv_storage c = []"
    and "output_events c = WEBSOCKET_DATA fr # evs"
    and "write_all (serialize fr) (writes w) = (Err WouldBlock, p, ws)"
  shows "event_loop E K (c, w) = (Ok (), (c, w\<lparr>writes := ws, trace := trace w @ [Sent p]\<rparr>))"
proof -
  have "stream c \<noteq> None" and "sendable fr" using assms(1,2,5) by (simp_all add: client_ok_def)
  moreover have "c\<lparr>output_events := WEBSOCKET_DATA fr # evs\<rparr> = c" using assms(5) by simp
  ultimately show ?thesis
    using assms
    by (simp add: quiet_send [OF assms(1) _ _ assms(3-5)] handle_send_frame_eq after_write_def sendable_def)
qed

section \<open>The queue is drained in order\<close>

lemma drain_queue:
  assumes "client_ok (c, w)" and "connection_status c = OPEN" and "reads w = []" and "recv_storage c = []"
    and "output_events c = map WEBSOCKET_DATA fs @ evs" and "takes_all (writes w) fs = Some ws"
  shows "iterate E K (length fs) (c, w) =
    (Ok (), (c\<lparr>output_events := evs\<rparr>, w\<lparr>writes := ws, trace := trace w @ map (\<lambda>f. Sent (serialize f)) fs\<rparr>))"
  using assms
proof (induction fs arbitrary: c w)
  case Nil
  then have "c\<lparr>output_events := evs\<rparr> = c" "w\<lparr>writes := ws, trace := trace w\<rparr> = w" by simp_all
  then show ?case by (simp add: rm_eval)
next
  case (Cons f fs)
  obtain ws1 where wr: "write_all (serialize f) (writes w) = (Ok (), serialize f, ws1)"
    and rest: "takes_all ws1 fs = Some ws"
    using Cons.prems(6) by (rule takes_all_Cons)
  let ?c = "c\<lparr>output_events := map WEBSOCKET_DATA fs @ evs\<rparr>"
  let ?w = "w\<lparr>writes := ws1, trace := trace w @ [Sent (serialize f)]\<rparr>"
  have one: "event_loop E K (c, w) = (Ok (), (?c, ?w))"
    using Cons.prems wr by (intro quiet_send_ok) simp_all
  have "client_ok (?c, ?w)" using Cons.prems(1,5) by (simp add: client_ok_def)
  then have "iterate E K (length fs) (?c, ?w) =
      (Ok (), (?c\<lparr>output_events := evs\<rparr>,
        ?w\<lparr>writes := ws, trace := trace ?w @ map (\<lambda>f. Sent (serialize f)) fs\<rparr>))"
    using Cons.prems rest by (intro Cons.IH) simp_all
  then show ?case by (simp add: rm_eval one)
qed

text \<open>
  C1: A message that \<open>send\<close> has queued is delivered: on an open connection with nothing queued
  before it and nothing coming in, as many iterations as there are frames leave the queue empty,
  provided the socket takes the frames; they put on the wire, in order and nothing else, bytes
  that a conforming peer reassembles to one text message, the payload.
\<close>

theorem message_reaches_the_peer:
  assumes "client_ok (c, w)" and "connection_status c = OPEN" and "reads w = []" and "recv_storage c = []"
    and "output_events c = []" and "length payload < 2 ^ 63" and "payload \<noteq> []"
    and "send E payload (c, w) = Some (Ok (), s1)"
    and "output_events (fst s1) = map WEBSOCKET_DATA fs" and "takes_all (writes w) fs \<noteq> None"
  shows "\<exists>s2. iterate E K (length fs) s1 = (Ok (), s2) \<and> output_events (fst s2) = [] \<and>
    (\<exists>sent. trace (snd s2) = trace w @ map Sent sent \<and>
       (\<exists>ds. rfc_frames (concat sent) = (ds, []) \<and> assemble None ds = Some [(1, payload)]))"
proof -
  let ?n = "unat (message_size c)"
  let ?fs = "message_frames E ?n True (rng_calls w) payload"
  have n: "0 < ?n" and s1: "s1 = queued ?fs (c, w)"
    using send_Ok [OF assms(8) _ assms(6,7)] assms(2) by simp_all
  then have fs: "fs = ?fs"
    using assms(5,9) by (auto simp: queued_def inj_on_def dest!: map_injective)
  have ok: "\<forall>f\<in>set ?fs. frame_ok f" using message_frames_ok [OF assms(6)] by blast
  have "client_ok s1"
    using api_effect_ok [OF send_effect [OF assms(8,6)] assms(1)] .
  then obtain c1 w1 ws where s1': "s1 = (c1, w1)" and c1: "client_ok (c1, w1)" "connection_status c1 = OPEN"
      "reads w1 = []" "recv_storage c1 = []" "output_events c1 = map WEBSOCKET_DATA fs @ []" "trace w1 = trace w"
      "takes_all (writes w1) fs = Some ws"
    using assms(2-5,10) fs by (cases s1) (auto simp: s1 queued_def)
  from drain_queue [OF c1(1-5,7), of E K]
  have run: "iterate E K (length fs) s1 = (Ok (), (c1\<lparr>output_events := []\<rparr>,
      w1\<lparr>writes := ws, trace := trace w1 @ map (\<lambda>f. Sent (serialize f)) fs\<rparr>))"
    by (simp add: s1')
  have "rfc_frames (concat (map serialize fs)) = (map rfc_view fs, [])"
    using ok by (simp add: fs rfc_frames_concat)
  moreover have "assemble None (map rfc_view fs) = Some [(1, payload)]"
    using message_frames_assemble [OF n assms(7), of True] by (simp add: fs)
  ultimately have "\<exists>sent. map (\<lambda>f. Sent (serialize f)) fs = map Sent sent \<and>
      (\<exists>ds. rfc_frames (concat sent) = (ds, []) \<and> assemble None ds = Some [(1, payload)])"
    by (intro exI [of _ "map serialize fs"]) simp
  with run c1(6) show ?thesis by simp
qed

theorem message_reaches_the_peer_witness:
  "\<exists>(fs :: Frame list) s1 s2 sent ds. send sample_env [72, 105] (open_client, idle_world\<lparr>writes := [Wrote 64]\<rparr>) = Some (Ok (), s1) \<and>
    iterate sample_env no_handler (length fs) s1 = (Ok (), s2) \<and> trace (snd s2) = map Sent sent \<and>
    rfc_frames (concat sent) = (ds, []) \<and> assemble None ds = Some [(1, [72, 105])]"
proof -
  let ?w = "idle_world\<lparr>writes := [Wrote 64]\<rparr>"
  let ?fs = "message_frames sample_env 1024 True 0 [72, 105]"
  have n: "unat (message_size (fst (open_client, ?w))) = 1024" "rng_calls (snd (open_client, ?w)) = 0"
    by (simp_all add: open_client_def WSClient_new_def DEFAULT_MESSAGE_SIZE_def idle_world_def)
  have cut: "cuts_ok 1024 0 [72, 105]" by (auto simp: cuts_ok_def is_char_boundary_def)
  have at: "at_cut 1024 0 [72, 105]" by (simp add: at_cut_def)
  have sent: "send sample_env [72, 105] (open_client, ?w) = Some (Ok (), queued ?fs (open_client, ?w))"
    using send_loop_ok [OF _ at cut n(1) [symmetric], of sample_env] n by (simp add: send_def)
  have "\<exists>f. ?fs = [f] \<and> length (serialize f) \<le> 64"
    by (subst message_frames.simps)
       (simp add: DataFrame_new_def serialize_def Header_serialize_def Let_def)
  then obtain f where fs: "?fs = [f]" "length (serialize f) \<le> 64" by blast
  have "takes_all (writes ?w) ?fs \<noteq> None" using fs by (simp add: write_all_room)
  moreover have "output_events (fst (queued ?fs (open_client, ?w))) = map WEBSOCKET_DATA ?fs"
    by (simp add: queued_def)
  ultimately obtain s2 sent ds where "iterate sample_env no_handler (length ?fs) (queued ?fs (open_client, ?w)) = (Ok (), s2)"
    and "trace (snd s2) = trace ?w @ map Sent sent"
    and "rfc_frames (concat sent) = (ds, [])" "assemble None ds = Some [(1, [72, 105])]"
    using sent message_reaches_the_peer [of open_client ?w "[72, 105]" sample_env "queued ?fs (open_client, ?w)"
        ?fs no_handler] by (auto simp: idle_world_def)
  moreover from this(2) have "trace (snd s2) = map Sent sent" by (simp add: idle_world_def)
  ultimately show ?thesis using sent by blast
qed

text \<open>
  C31: A frame that the socket takes only in part is sent again from its beginning: when the
  socket takes the bytes \<open>p\<close> and then has no room, the iteration succeeds and the whole frame
  stays at the front of the queue; so the next iteration whose write succeeds puts the whole
  frame on the wire behind \<open>p\<close>.
\<close>

theorem partial_write_resends:
  assumes "client_ok (c, w)" and "connection_status c = OPEN" and "reads w = []" and "recv_storage c = []"
    and "output_events c = WEBSOCKET_DATA fr # evs"
    and "write_all (serialize fr) (writes w) = (Err WouldBlock, p, ws)"
    and "write_all (serialize fr) ws = (Ok (), serialize fr, ws')"
  shows "event_loop E K (c, w) = (Ok (), (c, w\<lparr>writes := ws, trace := trace w @ [Sent p]\<rparr>)) \<and>
    iterate E K 2 (c, w) =
      (Ok (), (c\<lparr>output_events := evs\<rparr>,
        w\<lparr>writes := ws', trace := trace w @ [Sent p, Sent (serialize fr)]\<rparr>))"
proof -
  let ?w = "w\<lparr>writes := ws, trace := trace w @ [Sent p]\<rparr>"
  have first: "event_loop E K (c, w) = (Ok (), (c, ?w))"
    using assms(1-6) by (rule quiet_send_partial)
  have "event_loop E K (c, ?w) = (Ok (), (c\<lparr>output_events := evs\<rparr>,
      ?w\<lparr>writes := ws', trace := trace ?w @ [Sent (serialize fr)]\<rparr>))"
    using assms by (intro quiet_send_ok) simp_all
  with first show ?thesis by (simp add: numeral_2_eq_2 rm_eval)
qed

theorem partial_write_resends_witness:
  "\<exists>fr. iterate sample_env no_handler 2
       (open_client\<lparr>output_events := [WEBSOCKET_DATA fr]\<rparr>,
        idle_world\<lparr>writes := [Wrote 1, WriteError WouldBlock, Wrote 64]\<rparr>) =
     (Ok (), (open_client, idle_world\<lparr>trace := [Sent (take 1 (serialize fr)), Sent (serialize fr)]\<rparr>))"
proof -
  let ?fr = "pong_for sample_env (DataFrame (Header_new FLAG_FIN OPCODE_PING None 2) [72, 105]) 0"
  let ?c = "open_client\<lparr>output_events := [WEBSOCKET_DATA ?fr]\<rparr>"
  let ?w = "idle_world\<lparr>writes := [Wrote 1, WriteError WouldBlock, Wrote 64]\<rparr>"
  have "sendable ?fr" unfolding pong_for_def by (rule sendable_control) (simp_all add: control_payload_def)
  then have ok: "client_ok (?c, ?w)" by (simp add: client_ok_def)
  have len: "length (serialize ?fr) = 8"
    by (simp add: serialize_def pong_for_def ControlFrame_new_def Header_serialize_def Let_def)
  then obtain b b' bs where s: "serialize ?fr = b # b' # bs"
    by (cases "serialize ?fr" rule: remdups_adj.cases) auto
  have "write_all (serialize ?fr) (writes ?w) = (Err WouldBlock, take 1 (serialize ?fr), [Wrote 64])"
    using s by simp
  moreover have "write_all (serialize ?fr) [Wrote 64] = (Ok (), serialize ?fr, [])"
    using len by (intro write_all_room) simp_all
  ultimately have "iterate sample_env no_handler 2 (?c, ?w) =
      (Ok (), (?c\<lparr>output_events := []\<rparr>,
        ?w\<lparr>writes := [], trace := trace ?w @ [Sent (take 1 (serialize ?fr)), Sent (serialize ?fr)]\<rparr>))"
    using partial_write_resends [OF ok] by (simp add: idle_world_def)
  moreover have "?c\<lparr>output_events := []\<rparr> = open_client" by (simp add: open_client_def WSClient_new_def)
  moreover have "?w\<lparr>writes := [], trace := trace ?w @ tr\<rparr> = idle_world\<lparr>trace := tr\<rparr>" for tr
    by (simp add: idle_world_def)
  ultimately show ?thesis by (intro exI [of _ ?fr]) simp
qed

end
