(* ===== verification/Client_User.thy ===== *)
theory Client_User
  imports Client_Fsm
begin

text \<open>
  What the event loop leaves to the user: the timeout, the message size, the user's data and the
  calls of the callback. Every property of these alone that the callback keeps is kept by the
  event loop; the locale \<open>user_inv\<close> states the two laws, and its theorem follows the structure
  of the handlers with the rules of \<open>preserves_intros\<close>.
\<close>

section \<open>The user's part of the state\<close>

fun called :: "io_event list \<Rightarrow> WSEvent list" where
  "called [] = []"
| "called (Called ev # xs) = ev # called xs"
| "called (Connected h p # xs) = called xs"
| "called (Sent bs # xs) = called xs"
| "called (ShutdownBoth # xs) = called xs"

lemma called_append [simp]: "called (xs @ ys) = called xs @ called ys"
  by (induction xs rule: called.induct) simp_all

definition same_user :: "'t st \<Rightarrow> 't st \<Rightarrow> bool" where
  "same_user s s' \<longleftrightarrow>
     timeout (fst s') = timeout (fst s) \<and> message_size (fst s') = message_size (fst s) \<and>
     cb_data (fst s') = cb_data (fst s) \<and> callback (fst s') = callback (fst s) \<and>
     called (trace (snd s')) = called (trace (snd s))"

text \<open>One rule per \<open>match\<close> of the handlers.\<close>

lemma preserves_match_status:
  "\<lbrakk>preserves I m1; preserves I m2; preserves I m3; preserves I m4; preserves I m5; preserves I m6;
    preserves I m7\<rbrakk> \<Longrightarrow>
   preserves I (case st of NOT_INIT \<Rightarrow> m1 | START_INIT \<Rightarrow> m2 | HANDSHAKE \<Rightarrow> m3 | OPEN \<Rightarrow> m4
     | CLIENT_WANTS_TO_CLOSE \<Rightarrow> m5 | SERVER_WANTS_TO_CLOSE \<Rightarrow> m6 | CLOSE \<Rightarrow> m7)"
  by (cases st) simp_all

lemma preserves_match_event:
  "\<lbrakk>\<And>f. preserves I (g1 f); \<And>r. preserves I (g2 r); \<And>q. preserves I (g3 q); preserves I g4\<rbrakk> \<Longrightarrow>
   preserves I (case ev of WEBSOCKET_DATA f \<Rightarrow> g1 f | HTTP_RESPONSE r \<Rightarrow> g2 r
     | HTTP_REQUEST q \<Rightarrow> g3 q | NO_DATA \<Rightarrow> g4)"
  by (cases ev) simp_all

lemma preserves_match_io:
  "\<lbrakk>preserves I h1; preserves I h2\<rbrakk> \<Longrightarrow> preserves I (case io of INPUT \<Rightarrow> h1 | OUTPUT \<Rightarrow> h2)"
  by (cases io) simp_all

lemma preserves_match_kind:
  "\<lbrakk>preserves I k1; preserves I k2; preserves I k3\<rbrakk> \<Longrightarrow>
   preserves I (case knd of Data \<Rightarrow> k1 | Control \<Rightarrow> k2 | NotDefine \<Rightarrow> k3)"
  by (cases knd) simp_all

lemma preserves_match_outcome:
  "\<lbrakk>\<And>a. preserves I (o1 a); \<And>e. preserves I (o2 e); preserves I o3\<rbrakk> \<Longrightarrow>
   preserves I (case r of Ok a \<Rightarrow> o1 a | Err e \<Rightarrow> o2 e | Panic \<Rightarrow> o3)"
  by (cases r) simp_all

lemma preserves_match_pair:
  "(\<And>a b. preserves I (p1 a b)) \<Longrightarrow> preserves I (case x of (a, b) \<Rightarrow> p1 a b)"
  by (cases x) simp

lemmas preserves_match = preserves_match_status preserves_match_event preserves_match_io
  preserves_match_kind preserves_match_outcome preserves_match_pair

section \<open>What the callback keeps, the event loop keeps\<close>

locale user_inv =
  fixes K :: "'t cbk" and I :: "'t st \<Rightarrow> bool"
  assumes frame: "same_user s s' \<Longrightarrow> I s \<Longrightarrow> I s'"
    and call: "I s \<Longrightarrow> I (snd (call_back K f ev s))"
begin

lemma preserves_same:
  assumes "\<And>c w. same_user (c, w) (snd (m (c, w)))"
  shows "preserves I m"
  unfolding preserves_def using frame [OF assms] by (metis prod.collapse)

lemma preserves_modC_same: "(\<And>c w. same_user (c, w) (g c, w)) \<Longrightarrow> preserves I (modC g)"
  using frame by (intro preserves_modC) blast

lemma preserves_calls:
  "preserves I tcp_connect" "preserves I set_nonblocking" "preserves I (draw_key E)"
  "preserves I stream_shutdown" "preserves I (try_write bytes)" "preserves I (new_control E opc st dat)"
  "preserves I (push_front_output e)" "preserves I pop_front_input" "preserves I pop_output_event"
  by (rule preserves_same; auto simp: same_user_def tcp_connect_def set_nonblocking_def draw_key_def
       stream_shutdown_def try_write_def new_control_eval push_front_output_def pop_front_input_def
       pop_output_event_def client_prim_eval split: prod.split option.split list.split)+

lemma preserves_call: "preserves I (call_back K f ev)"
  using call by (simp add: preserves_def)

lemma preserves_read_call:
  "preserves I (\<lambda>(c, w). case f (reads w) of (res, rest, buffer) \<Rightarrow> (g res buffer, (c, w\<lparr>reads := rest\<rparr>)))"
  by (rule preserves_same) (simp add: same_user_def split: prod.split)

lemmas user_rules =
  preserves_base preserves_bind preserves_if preserves_option preserves_getC preserves_match
  preserves_calls preserves_call preserves_modC_same preserves_read_call

lemma preserves_read: "preserves I (read_bytes_from_socket E)"
  unfolding read_bytes_from_socket_def handle_recv_bytes_frame_def handle_recv_bytes_http_response_def
  by (intro user_rules) (simp_all add: same_user_def)

lemma preserves_insert: "preserves I (insert_input_event ev)"
  unfolding insert_input_event_def by (intro user_rules) (simp_all add: same_user_def)

lemma preserves_recv_frame: "preserves I (handle_recv_frame E K fr)"
  unfolding handle_recv_frame_def handle_control_frame_def utf8_msg_def Let_def
  by (intro user_rules) (simp_all add: same_user_def)

lemma preserves_response: "preserves I (handle_recv_http_response E K r)"
  unfolding handle_recv_http_response_def Let_def
  by (intro user_rules) (simp_all add: same_user_def)

lemma preserves_send_frame: "preserves I (handle_send_frame E K fr)"
  unfolding handle_send_frame_def Let_def
  by (intro user_rules) (simp_all add: same_user_def)

lemma preserves_send_request: "preserves I (handle_send_http_request E r)"
  unfolding handle_send_http_request_def
  by (intro user_rules)

lemma preserves_start_init: "preserves I (start_init E)"
  unfolding start_init_def Let_def
  by (intro user_rules; simp add: same_user_def)

lemma preserves_handle: "preserves I (handle_some E K io ev)"
  unfolding handle_some_def handle_event_def
  by (intro user_rules preserves_recv_frame preserves_response preserves_send_frame preserves_send_request)

theorem preserves_event_loop: "preserves I (event_loop E K)"
  unfolding event_loop_def
  by (intro user_rules preserves_start_init preserves_read preserves_insert preserves_handle)

end

end
