(* ===== verification/Client_Drop.thy ===== *)
theory Client_Drop
  imports Client_Delivery Client_User
begin

text \<open>
  The destructor: that it returns, that it panics only when an iteration does, and the closing
  handshake it carries out with a server that answers.
\<close>

section \<open>A callback that leaves the timeout alone\<close>

locale callback_steady = callback_api +
  assumes keeps_timeout: "timeout (fst (snd (K f ev d s))) = timeout (fst s)"

sublocale callback_steady \<subseteq> timed: user_inv K "\<lambda>s. timeout (fst s) = t" for t
proof unfold_locales
  show "timeout (fst s') = t" if "same_user s s'" and "timeout (fst s) = t" for s s' :: "'a st"
    using that by (simp add: same_user_def)
  show "timeout (fst (snd (call_back K f ev s))) = t" if "timeout (fst s) = t" for f ev s
    using that keeps_timeout [of f ev "cb_data (fst s)" "(fst s, (snd s)\<lparr>trace := trace (snd s) @ [Called ev]\<rparr>)"]
    by (cases s) (simp add: call_back_def case_prod_beta)
qed

lemma on_connect_timeout: "timeout (fst (snd (on_connect E s))) = timeout (fst s)"
proof (cases "send E (ascii ''Hello world'') s")
  case (Some rs)
  then show ?thesis
    using send_queued [of E "ascii ''Hello world''" s "fst rs" "snd rs"]
    by (cases rs; cases "fst rs") (auto simp: on_connect_def queued_def simp del: ascii_simps(1-3))
qed (simp add: on_connect_def)

interpretation steady_example: callback_steady "websocket_handler E" for E
  by unfold_locales
     (auto simp: websocket_handler_def on_connect_timeout on_message_def split: WSEvent.split option.split outcome.split)

interpretation steady_silent: callback_steady no_handler
  by unfold_locales (simp add: no_handler_def)

section \<open>What the destructor sends\<close>

abbreviation goodbye :: "env \<Rightarrow> nat \<Rightarrow> Frame" where
  "goodbye E k \<equiv> fst (ControlFrame_new E FLAG_FIN OPCODE_CLOSE (Some 1000) (ascii ''Done'') True None k)"

lemma goodbye_wire:
  "rfc_decode (serialize (goodbye E k)) =
     Some (wire_frame FLAG_FIN OPCODE_CLOSE True (u16_to_be_bytes 1000 @ ascii ''Done''), [])"
  using control_frame_wire [of FLAG_FIN OPCODE_CLOSE "Some 1000" "ascii ''Done''" E True None k "[]"]
  by (simp add: length_control_payload control_payload_def u16.length_enc)

lemma goodbye_kind: "kind (goodbye E k) = Control" "as_control_frame (goodbye E k) \<noteq> None"
  by (simp_all add: ControlFrame_new_def kind_def)

lemma goodbye_sendable: "sendable (goodbye E k)"
  by (rule sendable_control) (simp_all add: length_control_payload)

text \<open>The client when the destructor enters its loop.\<close>

definition closing_client :: "env \<Rightarrow> 't st \<Rightarrow> 't st" where
  "closing_client E s =
     ((fst s)\<lparr>output_events := [WEBSOCKET_DATA (goodbye E (rng_calls (snd s)))],
        input_events := [], connection_status := CLIENT_WANTS_TO_CLOSE\<rparr>,
      (snd s)\<lparr>rng_calls := rng_calls (snd s) + 1\<rparr>)"

section \<open>While the destructor waits\<close>

definition waiting :: "'t st \<Rightarrow> bool" where
  "waiting s \<longleftrightarrow> client_ok s \<and> stat s \<in> {CLIENT_WANTS_TO_CLOSE, CLOSE} \<and> stream (fst s) \<noteq> None"

context callback_api begin

lemma keeps_stream [preserves_intros]:
  "preserves (\<lambda>s. stream (fst s) = x) (new_control E opc st dat)"
  "preserves (\<lambda>s. stream (fst s) = x) stream_shutdown"
  "preserves (\<lambda>s. stream (fst s) = x) (push_front_output ev)"
  "preserves (\<lambda>s. stream (fst s) = x) (call_back K f cev)"
  by (auto simp: preserves_def new_control_eval stream_shutdown_def push_front_output_def client_prim_eval
      call_back_status split: option.split prod.split)

lemma recv_frame_stream: "preserves (\<lambda>s. stream (fst s) = x) (handle_recv_frame E K fr)"
  unfolding handle_recv_frame_def handle_control_frame_def utf8_msg_def Let_def
  by (intro preserves_intros preserves_match; simp)

lemma input_stream:
  assumes "stat s \<noteq> HANDSHAKE"
  shows "stream (fst (snd (handle_some E K INPUT ev s))) = stream (fst s)"
proof (cases ev)
  case (Some e)
  then show ?thesis
    using assms recv_frame_stream [of "stream (fst s)" E, unfolded preserves_def, rule_format, of s]
    by (cases e) (simp_all add: handle_some_def handle_event_def rm_eval handle_response_late)
qed (simp add: handle_some_def rm_eval)

lemma output_stream:
  assumes "\<forall>e. out = Some e \<longrightarrow> out_ok e" and "stat s \<noteq> SERVER_WANTS_TO_CLOSE"
  shows "stream (fst (snd (handle_some E K OUTPUT out s))) = stream (fst s)"
proof (cases out)
  case (Some e)
  obtain c w where s: "s = (c, w)" by (cases s)
  have "stream (fst (snd (handle_send_frame E K fr (c, w)))) = stream c" if "sendable fr" for fr
    using assms(2) that
    by (cases "stream c") (auto simp: s send_without_stream handle_send_frame_eq sendable_def Let_def
        split: outcome.split)
  moreover have "stream (fst (snd (handle_send_http_request E r (c, w)))) = stream c" for r
    by (cases "stream c") (auto simp: send_without_stream handle_send_request_eq Let_def split: outcome.split)
  ultimately show ?thesis
    using Some assms(1) by (cases e) (auto simp: s handle_some_def handle_event_def rm_eval)
qed (simp add: handle_some_def rm_eval)

text \<open>The iterations of the destructor keep the stream, which it unwraps at its end.\<close>

lemma event_loop_waiting:
  assumes "waiting s"
  shows "waiting (snd (event_loop E K s))"
proof (cases "stat s = CLOSE")
  case True
  then show ?thesis using assms by (simp add: event_loop_idle)
next
  case False
  obtain c w where s: "s = (c, w)" by (cases s)
  have st: "connection_status c = CLIENT_WANTS_TO_CLOSE" and ok: "client_ok (c, w)"
    using assms False by (auto simp: waiting_def s)
  then have act: "active (connection_status c)" by simp
  have "conn_step st' (stat (snd (event_loop E K s))) \<Longrightarrow> st' \<in> {CLIENT_WANTS_TO_CLOSE, CLOSE} \<Longrightarrow>
      stat (snd (event_loop E K s)) \<in> {CLIENT_WANTS_TO_CLOSE, CLOSE}" for st'
    by (auto simp: conn_step_simps)
  moreover obtain mid where "conn_step CLIENT_WANTS_TO_CLOSE mid" "conn_step mid (stat (snd (event_loop E K s)))"
    using event_loop_steps [OF ok, of E] st by (auto simp: s)
  ultimately have status: "stat (snd (event_loop E K s)) \<in> {CLIENT_WANTS_TO_CLOSE, CLOSE}"
    by (auto simp: conn_step_simps)
  have "stream (fst (snd (event_loop E K (c, w)))) = stream c"
    using ok act
  proof (cases rule: iteration [where E = E])
    case (read_failed r s1)
    then show ?thesis by (simp add: only_read_simps)
  next
    case (handled ev c1 w1 out c2)
    have c2: "connection_status c2 = CLIENT_WANTS_TO_CLOSE" "stream c2 = stream c"
      using take_output_fields(1,2) [OF handled(5)] only_read_simps(1,2) [OF handled(2)] st by simp_all
    obtain r3 s3 where in': "handle_some E K INPUT (incoming ev) (c2, w1) = (r3, s3)" by (metis prod.collapse)
    have "stat s3 \<noteq> SERVER_WANTS_TO_CLOSE"
      using input_step [OF handled(6,3), of E] in' c2 by (auto simp: conn_step_simps)
    then have "stream (fst (snd (handle_some E K OUTPUT out s3))) = stream (fst s3)"
      using handled(7) by (intro output_stream)
    moreover have "stream (fst s3) = stream c"
      using input_stream [of "(c2, w1)" E "incoming ev"] in' c2 by simp
    ultimately show ?thesis by (cases r3) (simp_all add: handled(8) rm_eval in')
  qed
  with status ok assms event_loop_ok [OF ok, of E] show ?thesis by (simp add: waiting_def s)
qed

end

section \<open>The destructor returns\<close>

context callback_steady begin

lemma event_loop_timeout: "timeout (fst (snd (event_loop E K s))) = timeout (fst s)"
  using timed.preserves_event_loop [where t = "timeout (fst s)" and E = E, unfolded preserves_def, rule_format, of s]
  by simp

text \<open>
  The number of turns left is bounded by the distance to the first look at the clock that finds
  the timeout passed.
\<close>

lemma drop_loop_returns:
  assumes "waiting s" and "as_secs (timeout (fst s)) \<le> elapsed n" and "k \<le> n"
  shows "\<exists>r s'. drop_loop E K elapsed k s = Some (r, s') \<and> waiting s' \<and>
    (r = Ok () \<or> r = Panic \<and> (\<exists>s1. waiting s1 \<and> event_loop E K s1 = (Panic, s')))"
  using assms
proof (induction "n - k" arbitrary: k s)
  case 0
  then have "as_secs (timeout (fst s)) \<le> elapsed k" by simp
  then show ?case using "0.prems" by (cases s) (simp add: drop_loop.simps [of E K elapsed k])
next
  case (Suc d)
  show ?case
  proof (cases "stat s = CLOSE \<or> as_secs (timeout (fst s)) \<le> elapsed k")
    case True
    then show ?thesis using Suc.prems by (cases s) (auto simp: drop_loop.simps [of E K elapsed k])
  next
    case False
    obtain r s1 where loop: "event_loop E K s = (r, s1)" by (metis prod.collapse)
    have w: "waiting s1" "timeout (fst s1) = timeout (fst s)"
      using event_loop_waiting [OF Suc.prems(1), of E] event_loop_timeout [of E s] loop by simp_all
    show ?thesis
    proof (cases r)
      case (Ok u)
      have "\<exists>r s'. drop_loop E K elapsed (Suc k) s1 = Some (r, s') \<and> waiting s' \<and>
          (r = Ok () \<or> r = Panic \<and> (\<exists>s1. waiting s1 \<and> event_loop E K s1 = (Panic, s')))"
        using Suc.hyps(2) Suc.prems w by (intro Suc.hyps(1)) simp_all
      then show ?thesis using False loop Ok by (simp add: drop_loop.simps [of E K elapsed k])
    next
      case (Err e)
      then show ?thesis using False loop w by (simp add: drop_loop.simps [of E K elapsed k])
    next
      case Panic
      then show ?thesis using False loop w Suc.prems(1)
        by (cases s) (auto simp: drop_loop.simps [of E K elapsed k])
    qed
  qed
qed

end

text \<open>The clients for which the destructor does anything at all.\<close>

definition drops :: "'t st \<Rightarrow> bool" where
  "drops s \<longleftrightarrow> stat s \<notin> {NOT_INIT, HANDSHAKE, CLOSE} \<and> stream (fst s) \<noteq> None"

lemma drop_client_eq:
  "drop_client E K elapsed s =
    (if \<not> drops s then Some (Ok (), s)
     else
       (case drop_loop E K elapsed 0 (closing_client E s) of
          None \<Rightarrow> None
        | Some (Ok _, s2) \<Rightarrow>
            Some (case stream_shutdown s2 of (Panic, s3) \<Rightarrow> (Panic, s3) | (_, s3) \<Rightarrow> (Ok (), s3))
        | Some (r, s2) \<Rightarrow> Some (r, s2)))"
proof -
  obtain c w where s: "s = (c, w)" by (cases s)
  have "bindM (new_control E OPCODE_CLOSE (Some 1000) (ascii ''Done'')) (\<lambda>close_frame.
      modC (\<lambda>c. c\<lparr>output_events := [WEBSOCKET_DATA close_frame], input_events := [],
        connection_status := CLIENT_WANTS_TO_CLOSE\<rparr>)) s = (Ok (), closing_client E s)"
    by (simp add: s rm_eval new_control_eval closing_client_def)
  then show ?thesis by (auto simp: drop_client_def drops_def Let_def simp del: not_None_eq)
qed

context callback_steady begin

lemma drop_client_returns:
  assumes "client_ok s" and "as_secs (timeout (fst s)) \<le> elapsed n"
  shows "\<exists>r s'. drop_client E K elapsed s = Some (r, s') \<and>
    (r = Ok () \<or> r = Panic \<and> (\<exists>s1. client_ok s1 \<and> event_loop E K s1 = (Panic, s')))"
proof (cases "drops s")
  case True
  have "waiting (closing_client E s)"
    using True assms(1) goodbye_sendable
    by (simp add: waiting_def closing_client_def drops_def client_ok_def)
  moreover have "as_secs (timeout (fst (closing_client E s))) \<le> elapsed n"
    using assms(2) by (simp add: closing_client_def)
  ultimately obtain r s' where loop: "drop_loop E K elapsed 0 (closing_client E s) = Some (r, s')"
    and w: "waiting s'"
    and r: "r = Ok () \<or> r = Panic \<and> (\<exists>s1. waiting s1 \<and> event_loop E K s1 = (Panic, s'))"
    using drop_loop_returns [of _ elapsed n 0 E] by blast
  have "fst (stream_shutdown s') \<noteq> Panic"
    using w by (cases s') (auto simp: waiting_def stream_shutdown_def WebSocketError_from_def split: prod.split)
  moreover have "\<exists>s1. client_ok s1 \<and> event_loop E K s1 = (Panic, s')" if "r = Panic"
    using r that by (auto simp: waiting_def)
  ultimately show ?thesis
    using r True by (cases "stream_shutdown s'"; cases r; cases "fst (stream_shutdown s')")
      (simp_all add: drop_client_eq loop)
qed (simp add: drop_client_eq)

end

text \<open>
  C10: The destructor returns: with a callback that keeps to the client's interface and leaves
  the timeout alone, and a clock that at some point shows that the timeout has passed, dropping
  a client ends, whatever the server does; and if it panics then one of its iterations of the
  event loop does, not the \<open>unwrap\<close> at its end.
\<close>

theorem drop_returns:
  assumes "callback_steady K" and "client_ok s" and "as_secs (timeout (fst s)) \<le> elapsed n"
  shows "\<exists>r s'. drop_client E K elapsed s = Some (r, s') \<and>
    (r = Ok () \<or> r = Panic \<and> (\<exists>s1. client_ok s1 \<and> event_loop E K s1 = (Panic, s')))"
  using assms by (rule callback_steady.drop_client_returns)

theorem drop_returns_witness:
  "\<exists>r s'. drop_client sample_env no_handler (\<lambda>k. k) (open_client, idle_world) = Some (r, s')"
proof -
  have "as_secs (timeout (fst (open_client, idle_world))) \<le> 30"
    by (simp add: open_client_def WSClient_new_def DEFAULT_TIMEOUT_def as_secs_def from_secs_def)
  then show ?thesis
    using drop_returns [OF steady_silent.callback_steady_axioms, where s = "(open_client, idle_world)"
        and n = 30 and elapsed = "\<lambda>k. k" and E = sample_env] by auto
qed

section \<open>The closing handshake\<close>

text \<open>The first iteration of the destructor: nothing to read, and the socket takes the close frame.\<close>

lemma goodbye_iteration:
  assumes "client_ok (c, w)" and "drops (c, w)" and "recv_storage c = []"
    and "one_read (reads w) = (Ok [], rs)"
    and "write_all (serialize (goodbye E (rng_calls w))) (writes w) = (Ok (), sent, ws)"
  shows "event_loop E K (closing_client E (c, w)) =
    (Ok (), (c\<lparr>output_events := [], input_events := [], connection_status := CLIENT_WANTS_TO_CLOSE\<rparr>,
      w\<lparr>rng_calls := rng_calls w + 1, reads := rs, writes := ws,
        trace := trace w @ [Sent (serialize (goodbye E (rng_calls w)))]\<rparr>))"
proof -
  obtain c1 w1 where s: "closing_client E (c, w) = (c1, w1)" by (metis prod.collapse)
  then have c1: "connection_status c1 = CLIENT_WANTS_TO_CLOSE" "stream c1 \<noteq> None" "recv_storage c1 = []"
      "output_events c1 = [WEBSOCKET_DATA (goodbye E (rng_calls w))]" "one_read (reads w1) = (Ok [], rs)"
    using assms(2-4) by (auto simp: closing_client_def drops_def)
  have "client_ok (c1, w1)"
    using s assms(2) goodbye_sendable
    by (auto simp: closing_client_def drops_def client_ok_def)
  from idle_read_iteration [OF this _ c1(5,3), of E K] s assms(5) write_all_Ok [OF assms(5)] c1(1,2) goodbye_kind
  show ?thesis
    by (auto simp: take_output_def handle_some_def handle_event_def handle_send_frame_eq closing_client_def
        after_write_def Let_def)
qed

text \<open>
  C5: The closing handshake that the destructor starts completes with a server that answers: if
  the socket takes the close frame and then the server's close frame comes in, before the timeout,
  the destructor returns after two iterations; the close frame is on the wire, which a peer
  decodes as a masked close frame with status 1000 and reason \<open>Done\<close>; the socket is shut down; the
  callback is told the server's status code; and the client is closed.
\<close>

theorem closing_handshake_completes:
  assumes "callback_api K" and "never_panics K" and "client_ok (c, w)" and "drops (c, w)"
    and "recv_storage c = []" and "bitflags_ok E" and "one_read (reads w) = (Ok [], rs)"
    and "write_all (serialize (goodbye E (rng_calls w))) (writes w) = (Ok (), sent, ws)"
    and "server_sends c (w\<lparr>reads := rs\<rparr>) f rest" and "known_frame {8} f"
    and "fst (next_answer True (shutdowns w))"
    and "elapsed 0 < as_secs (timeout c)" and "elapsed 1 < as_secs (timeout c)"
  shows "\<exists>s'. drop_client E K elapsed (c, w) = Some (Ok (), s') \<and> connection_status (fst s') = CLOSE \<and>
    rfc_decode sent = Some (wire_frame FLAG_FIN OPCODE_CLOSE True (u16_to_be_bytes 1000 @ ascii ''Done''), []) \<and>
    trace (snd s') = trace w @ [Sent sent, ShutdownBoth] @
      (case callback c of
         None \<Rightarrow> []
       | Some g \<Rightarrow> [Called (ON_CLOSE (CLIENT_CLOSE (u16_from_be_bytes (take 2 (rfc_payload f)))))]) @
      [ShutdownBoth]"
proof -
  let ?c1 = "c\<lparr>output_events := [], input_events := [], connection_status := CLIENT_WANTS_TO_CLOSE\<rparr>"
  let ?w1 = "w\<lparr>rng_calls := rng_calls w + 1, reads := rs, writes := ws, trace := trace w @ [Sent sent]\<rparr>"
  let ?st = "u16_from_be_bytes (take 2 (rfc_payload f))" and ?fr = "control_frame_of f"
  have sent: "sent = serialize (goodbye E (rng_calls w))" using assms(8) by (rule write_all_Ok)
  have one: "event_loop E K (closing_client E (c, w)) = (Ok (), (?c1, ?w1))"
    using goodbye_iteration [OF assms(3,4,5,7,8)] sent by simp
  have stream: "stream c \<noteq> None" using assms(4) by (simp add: drops_def)
  then have ok1: "client_ok (?c1, ?w1)" by (simp add: client_ok_def)
  have reads: "server_sends ?c1 ?w1 f rest" using assms(9) by (simp add: server_sends_def)
  have known: "known_frame {8, 9, 10} f" using assms(10) by (simp add: known_frame_def)
  note rc = receive_control [OF ok1 _ assms(6) reads known]
  have len: "2 \<le> length (rfc_payload f)" by (rule rc(2)) simp_all
  have "\<exists>rs. event_loop E K (?c1, ?w1) =
      handle_recv_frame E K ?fr (?c1\<lparr>recv_storage := rest\<rparr>, ?w1\<lparr>reads := rs\<rparr>)"
    by (rule rc(1)) simp_all
  then obtain rs2 where two: "event_loop E K (?c1, ?w1) =
      handle_recv_frame E K ?fr (?c1\<lparr>recv_storage := rest\<rparr>, ?w1\<lparr>reads := rs2\<rparr>)" ..
  have code: "code (get_header ?fr) = OPCODE_CLOSE" and d: "2 \<le> length (get_data ?fr)"
      and st: "get_status_code ?fr = Some ?st"
    using assms(10) len by (simp_all add: control_frame_of_def known_frame_def opcode_defs)
  then have k: "kind ?fr = Control" "as_control_frame ?fr = Some ?fr"
    by (simp_all add: kind_def)
  let ?s = "(?c1\<lparr>recv_storage := rest, connection_status := CLOSE\<rparr>,
    ?w1\<lparr>reads := rs2, shutdowns := snd (next_answer True (shutdowns w)),
      trace := trace w @ [Sent sent, ShutdownBoth]\<rparr>)"
  let ?ev = "ON_CLOSE (CLIENT_CLOSE ?st)"
  have two: "event_loop E K (?c1, ?w1) = (case callback c of None \<Rightarrow> (Ok (), ?s) | Some g \<Rightarrow> call_back K g ?ev ?s)"
    using stream assms(11) unfolding two handle_control_received [OF k]
    by (cases "callback c") (simp_all add: handle_close_ack [OF code d _ _ st] Let_def)
  have "\<exists>s2. event_loop E K (?c1, ?w1) = (Ok (), s2) \<and> stat s2 = CLOSE \<and> stream (fst s2) \<noteq> None \<and>
    trace (snd s2) = trace w @ [Sent sent, ShutdownBoth] @
      (case callback c of None \<Rightarrow> [] | Some g \<Rightarrow> [Called ?ev])"
  proof (cases "callback c")
    case (Some g)
    obtain s2 where cb: "call_back K g ?ev ?s = (Ok (), s2)"
      using call_back_returns [OF assms(2), of g ?ev ?s] by (metis prod.collapse)
    then show ?thesis
      using two Some stream callback_api.call_back_status(1-3) [OF assms(1), of g ?ev ?s] by simp
  qed (use two stream in simp)
  then obtain s2 where r: "event_loop E K (?c1, ?w1) = (Ok (), s2)"
    and s2: "stat s2 = CLOSE" "stream (fst s2) \<noteq> None"
      "trace (snd s2) = trace w @ [Sent sent, ShutdownBoth] @
        (case callback c of None \<Rightarrow> [] | Some g \<Rightarrow> [Called ?ev])" by blast
  have "drop_loop E K elapsed 0 (closing_client E (c, w)) = Some (Ok (), s2)"
    using one r s2(1) assms(12,13)
    by (cases s2) (simp add: drop_loop.simps [of E K elapsed 0] drop_loop.simps [of E K elapsed "Suc 0"]
        drop_loop.simps [of E K elapsed "Suc (Suc 0)"], simp add: closing_client_def)
  then show ?thesis
    using s2 assms(4) goodbye_wire [of E "rng_calls w"] sent
    by (cases s2) (auto simp: drop_client_eq stream_shutdown_def WebSocketError_from_def split: prod.split)
qed

theorem closing_handshake_completes_witness:
  "\<exists>s' sent. drop_client sample_env no_handler (\<lambda>k. k)
      (open_client, idle_world\<lparr>reads := [ReadError WouldBlock, ReadBytes [0x88, 3, 3, 0xE9, 66]], writes := [Wrote 64]\<rparr>) =
     Some (Ok (), s') \<and> connection_status (fst s') = CLOSE \<and>
     trace (snd s') = [Sent sent, ShutdownBoth, ShutdownBoth]"
proof -
  let ?bs = "[0x88, 3, 3, 0xE9, 66] :: u8 list"
  let ?w = "idle_world\<lparr>reads := [ReadError WouldBlock, ReadBytes ?bs], writes := [Wrote 64]\<rparr>"
  let ?f = "wire_frame FLAG_FIN OPCODE_CLOSE False [3, 0xE9, 66]" and ?g = "goodbye sample_env (rng_calls ?w)"
  have "server_sends open_client (reading_world ?bs) ?f []"
    using sample_frames(2) by (rule server_sends_sample) (simp_all add: sample_short_forms)
  then have sends: "server_sends open_client (?w\<lparr>reads := [ReadBytes ?bs]\<rparr>) ?f []"
    by (simp add: server_sends_def reading_world_def)
  have "length (serialize ?g) \<le> 64"
    by (simp add: serialize_def ControlFrame_new_def Header_serialize_def Let_def u16.length_enc)
  then have wr: "write_all (serialize ?g) (writes ?w) = (Ok (), serialize ?g, [])"
    by (simp add: write_all_room)
  have rd: "one_read (reads ?w) = (Ok [], [ReadBytes ?bs])" by (simp add: one_read_def)
  have "0 < as_secs (timeout open_client)" "1 < as_secs (timeout open_client)"
    by (simp_all add: open_client_def WSClient_new_def DEFAULT_TIMEOUT_def as_secs_def from_secs_def)
  then show ?thesis
    using closing_handshake_completes [OF silent.callback_api_axioms no_handler_never_panics _ _ _
        sample_env_bitflags rd wr sends sample_known(2), of "\<lambda>k. k"]
    by (auto simp: drops_def idle_world_def)
qed

end
