(* ===== verification/Client_Connect.thy ===== *)
theory Client_Connect
  imports Client_Scenarios
begin

text \<open>
  The opening handshake: the request the client queues when it has connected, and the response
  that opens the connection.
\<close>

section \<open>The request\<close>

text \<open>The protocols with a comma between any two of them.\<close>

fun comma_join :: "str list \<Rightarrow> str" where
  "comma_join [] = []"
| "comma_join [p] = p"
| "comma_join (p # ps) = p @ ascii '', '' @ comma_join ps"

lemma protocols_loop_join: "ps \<noteq> [] \<Longrightarrow> protocols_loop ps = comma_join ps @ ascii '', ''"
  by (induction ps rule: comma_join.induct) simp_all

lemma protocols_header_join: "ps \<noteq> [] \<Longrightarrow> protocols_header E ps = Ok (comma_join ps)"
  by (simp add: protocols_header_def protocols_loop_join usize_sub_def str_slice_def
      is_char_boundary_def is_continuation_def nth_append)

text \<open>The headers of the request, as section 4.1 of RFC 6455 names them.\<close>

definition opening_headers :: "str \<Rightarrow> str list option \<Rightarrow> (str \<times> str) list" where
  "opening_headers key protocols =
     [(ascii ''Upgrade'', ascii ''websocket''), (ascii ''Connection'', ascii ''Upgrade''),
      (ascii ''Sec-WebSocket-Key'', key), (ascii ''Sec-WebSocket-Version'', ascii ''13''),
      (ascii ''User-agent'', ascii ''rust-websocket-std'')] @
     (case protocols of None \<Rightarrow> [] | Some ps \<Rightarrow> [(ascii ''Sec-WebSocket-Protocol'', comma_join ps)])"

lemma request_headers_ok:
  "protocols \<noteq> Some [] \<Longrightarrow> request_headers E key protocols = Ok (opening_headers key protocols)"
  by (cases protocols)
     (simp_all add: request_headers_def opening_headers_def protocols_header_join handshake_headers_def
       hashmap_from_def)

lemma connect_iteration:
  assumes "connection_status c = START_INIT" and "acceptable_protocols c \<noteq> Some []"
    and "fst (next_answer False (connects w))" and "fst (next_answer True (nonblocks w))"
  shows "event_loop E K (c, w) =
    (Ok (), (c\<lparr>output_events :=
          HTTP_REQUEST (Request_new GET (path c) (ascii ''HTTP/1.1'')
            (Some (opening_headers (gen_key E (rng_calls w)) (acceptable_protocols c)))) # output_events c,
        websocket_key := gen_key E (rng_calls w), stream := Some (TcpStream (host c) (port c)),
        connection_status := HANDSHAKE\<rparr>,
      w\<lparr>connects := snd (next_answer False (connects w)), rng_calls := rng_calls w + 1,
        trace := trace w @ [Connected (host c) (port c)], nonblocks := snd (next_answer True (nonblocks w))\<rparr>))"
  using assms by (simp add: event_loop_idle start_init_eq request_headers_ok Let_def)

text \<open>
  C12: Connecting queues the request of the opening handshake in front of everything else: the
  client remembers the key it has drawn and waits for the response; and the request, whatever the
  order in which the map of its headers is iterated, is on the wire a \<open>GET\<close> line with the path, the
  header lines of the handshake with this key and the user's protocols in some order, and an empty
  line. (A line break cannot come from the base64 text of the key.)
\<close>

theorem connecting_queues_the_request:
  assumes "connection_status c = START_INIT" and "acceptable_protocols c \<noteq> Some []" and "hashmap_ok E"
    and "fst (next_answer False (connects w))" and "fst (next_answer True (nonblocks w))"
    and "0x0D \<notin> set (path c)" and "0x0D \<notin> set (gen_key E (rng_calls w))"
    and "0x0D \<notin> set (comma_join (case acceptable_protocols c of None \<Rightarrow> [] | Some ps \<Rightarrow> ps))"
  shows "\<exists>r s'. event_loop E K (c, w) = (Ok (), s') \<and> connection_status (fst s') = HANDSHAKE \<and>
    websocket_key (fst s') = gen_key E (rng_calls w) \<and>
    output_events (fst s') = HTTP_REQUEST r # output_events c \<and>
    trace (snd s') = trace w @ [Connected (host c) (port c)] \<and>
    (\<exists>ls. str_split END_LINE (Request_serialize E r) =
       (ascii ''GET '' @ path c @ ascii '' HTTP/1.1'') # ls @ [[], []] \<and>
       mset ls = mset (map header_line (opening_headers (gen_key E (rng_calls w)) (acceptable_protocols c))))"
proof -
  let ?hs = "opening_headers (gen_key E (rng_calls w)) (acceptable_protocols c)"
  let ?r = "Request_new GET (path c) (ascii ''HTTP/1.1'') (Some ?hs)"
  have "\<forall>(k, v)\<in>set ?hs. 0x0D \<notin> set k \<and> 0x0D \<notin> set v"
    using assms(7,8) by (auto simp: opening_headers_def split: option.splits)
  then have "\<exists>ls. str_split END_LINE (Request_serialize E ?r) =
       (ascii ''GET '' @ path c @ ascii '' HTTP/1.1'') # ls @ [[], []] \<and> mset ls = mset (map header_line ?hs)"
    using Request_serialize_lines [OF assms(3), of ?r] assms(6) by (simp add: Request_new_def)
  with connect_iteration [OF assms(1,2,4,5), of E K] show ?thesis by (intro exI [of _ ?r]) simp
qed

theorem connecting_queues_the_request_witness:
  "\<exists>r s'. event_loop sample_env no_handler
      (open_client\<lparr>connection_status := START_INIT, acceptable_protocols := Some [ascii ''chat'']\<rparr>,
       idle_world\<lparr>connects := [True]\<rparr>) = (Ok (), s') \<and> connection_status (fst s') = HANDSHAKE \<and>
    output_events (fst s') = [HTTP_REQUEST r]"
proof -
  let ?c = "open_client\<lparr>connection_status := START_INIT, acceptable_protocols := Some [ascii ''chat'']\<rparr>"
  let ?w = "idle_world\<lparr>connects := [True]\<rparr>"
  have "0x0D \<notin> set (gen_key sample_env (rng_calls ?w))"
    by (simp add: gen_key_def sample_env_def idle_world_def upt_rec)
  then show ?thesis
    using connecting_queues_the_request [of ?c sample_env ?w no_handler] sample_env_hashmap
    by (fastforce simp: open_client_def WSClient_new_def idle_world_def)
qed

section \<open>The response\<close>

text \<open>
  C11: A server that accepts the handshake opens the connection: when, while the client waits and
  has no request to send, one read brings a response with status 101 in which a header named
  \<^verbatim>\<open>Sec-WebSocket-Accept\<close>, in any capitalisation, answers the client's key, the iteration leaves
  the connection open, calls back once with the body, and sends nothing.
\<close>

theorem handshake_opens_the_connection:
  assumes "callback_api K" and "client_ok (c, w)" and "connection_status c = HANDSHAKE"
    and "recv_storage c = []" and "output_events c = map WEBSOCKET_DATA fs"
    and "reads w = ReadBytes (response_text version (ascii ''101'') (word @ tail) hs b) # rs"
    and "length (response_text version (ascii ''101'') (word @ tail) hs b) \<le> 1024"
    and "word_ok version" and "word_ok word" and "tail = [] \<or> hd tail = 0x20"
    and "list_all (\<lambda>b. b < 0x80 \<and> b \<noteq> 0x0D) tail" and "\<forall>kv\<in>set hs. header_ok kv"
    and "list_all (\<lambda>b. b < 0x80) b" and "distinct (map (map ascii_lower \<circ> fst) hs)"
    and "(k, rfc_accept E (websocket_key c)) \<in> set hs"
    and "map ascii_lower k = ascii ''sec-websocket-accept''"
  shows "\<exists>s'. snd (event_loop E K (c, w)) = s' \<and> connection_status (fst s') = OPEN \<and>
    trace (snd s') = trace w @
      (case callback c of None \<Rightarrow> [] | Some g \<Rightarrow> [Called (ON_CONNECT (if b = [] then None else Some b))])"
proof -
  let ?bs = "response_text version (ascii ''101'') (word @ tail) hs b"
  let ?r = "\<lparr>rsp_version = version, rsp_status_code = 101, rsp_status_text = word,
        rsp_headers = Some (hashmap_from (map lower_key hs)), rsp_body = (if b = [] then None else Some b)\<rparr>"
  have "parse_u16 (ascii ''101'') = Some 101" by (simp add: parse_u16_def Let_def)
  moreover have "word_ok (ascii ''101'')" by (simp add: word_ok_def is_visible_def)
  moreover have "hs \<noteq> []" using assms(15) by auto
  ultimately have parse: "Response_parse E ?bs = Ok ?r"
    using Response_parse_text [OF assms(8) _ _ assms(9-13), of "ascii ''101''" 101 E] by simp
  have "map ascii_lower (ascii ''Sec-WebSocket-Accept'') = ascii ''sec-websocket-accept''"
    and "is_ascii (ascii ''Sec-WebSocket-Accept'')"
    by (simp_all add: ascii_lower_def is_ascii_def)
  then have "header E ?r (ascii ''Sec-WebSocket-Accept'') = Some (rfc_accept E (websocket_key c))"
    using assms(16) by (intro header_lookup [OF assms(14,15)]) simp_all
  then have acc: "accepted E c ?r" by (simp add: accepted_def SWITCHING_PROTOCOLS_def verify_key_iff)
  have c: "stream c \<noteq> None" "input_events c = []" using assms(2,3) by (auto simp: client_ok_def)
  have ne: "?bs \<noteq> []" by (simp add: response_text_def END_LINE_def)
  let ?w = "w\<lparr>reads := rs\<rparr>"
  have same: "c\<lparr>recv_storage := []\<rparr> = c" using assms(4) by simp
  have "read_bytes_from_socket E (c, w) = (Ok (HTTP_RESPONSE ?r), (c\<lparr>recv_storage := []\<rparr>, ?w))"
    using ne assms(3,4,6,7) parse by (simp add: read_bytes_eq [OF c(1)] one_read_def look_def)
  moreover have "take_output c = (None, c)"
    using assms(3,5) by (cases fs) (simp_all add: take_output_def)
  ultimately have "event_loop E K (c, w) = handle_recv_http_response E K ?r (c, ?w)"
    using event_loop_active [OF _ c, of E K w] assms(3)
    by (simp add: same handle_some_def handle_event_def bindM_unit)
  then show ?thesis
    using acc
    by (simp add: handle_response [OF assms(3)] Let_def body_def callback_api.call_back_status [OF assms(1)]
        split: option.split)
qed

theorem handshake_opens_the_connection_witness:
  "connection_status (fst (snd (event_loop sample_env (websocket_handler sample_env)
     (shaking_client, idle_world\<lparr>reads := [ReadBytes sample_response_bytes]\<rparr>)))) = OPEN"
proof -
  let ?hs = "[(ascii ''Sec-WebSocket-Accept'', rfc_accept sample_env [])]"
  let ?bs = "response_text (ascii ''HTTP/1.1'') (ascii ''101'') (ascii ''OK'' @ []) ?hs []"
  let ?w = "idle_world\<lparr>reads := [ReadBytes sample_response_bytes]\<rparr>"
  have c: "client_ok (shaking_client, ?w)" "connection_status shaking_client = HANDSHAKE"
      "recv_storage shaking_client = []" "output_events shaking_client = map WEBSOCKET_DATA []"
      "websocket_key shaking_client = []"
    by (simp_all add: client_ok_def shaking_client_def WSClient_new_def)
  have bs: "sample_response_bytes = ?bs" by (simp add: sample_response_bytes_def)
  have words: "word_ok (ascii ''HTTP/1.1'')" "word_ok (ascii ''OK'')"
    by (simp_all add: word_ok_def is_visible_def)
  have hs: "\<forall>kv\<in>set ?hs. header_ok kv"
    by (simp add: header_ok_def word_ok_def text_ok_def is_visible_def rfc_accept_def sample_env_def GUID_def)
  have lower: "map ascii_lower (ascii ''Sec-WebSocket-Accept'') = ascii ''sec-websocket-accept''"
    by (simp add: ascii_lower_def)
  have rd: "reads ?w = ReadBytes ?bs # []" using bs by simp
  have len: "length ?bs \<le> 1024" using sample_response_length(2) bs by simp
  show ?thesis
    using handshake_opens_the_connection [OF example.callback_api_axioms c(1-4) rd len words _ _ hs _ _ _ lower,
        of sample_env sample_env] c(5)
    by (simp del: ascii_simps)
qed

end
