(* ===== verification/Example_Threads.thy ===== *)
theory Example_Threads
  imports Client_Drop Client_Connect
begin

text \<open>
  The programs of \<^verbatim>\<open>examples/\<close>. \<^verbatim>\<open>simple_client.rs\<close> runs one client for ten seconds.
  \<^verbatim>\<open>thread_client.rs\<close> runs two of them in two threads that count their messages in one cell
  behind a mutex; its threads are a step relation on the two clients and the cell. Both end by
  dropping their clients. Printing is left out, but for what is printed.
\<close>

section \<open>The loops\<close>

text \<open>
  \<open>clock k\<close> is the time since the loop started at its \<open>k\<close>-th look at the clock. \<open>None\<close> is not
  returning.
\<close>

partial_function (option) main_loop ::
    "env \<Rightarrow> 't cbk \<Rightarrow> (nat \<Rightarrow> Duration) \<Rightarrow> nat \<Rightarrow> 't st \<Rightarrow> ((WebSocketError, unit) outcome \<times> 't st) option"
  where
  "main_loop E K clock k s =
     (if clock k > from_secs 10 then Some (Ok (), s)
      else
        (case event_loop E K s of
           (r, s') \<Rightarrow>
             (case r of
                Ok _ \<Rightarrow> main_loop E K clock (Suc k) s'
              | Err e \<Rightarrow> Some (Err e, s')
              | Panic \<Rightarrow> Some (Panic, s'))))"

text \<open>The worker returns nothing; what it prints is the text of the error that ended it.\<close>

partial_function (option) worker ::
    "env \<Rightarrow> 't cbk \<Rightarrow> (nat \<Rightarrow> Duration) \<Rightarrow> nat \<Rightarrow> 't st \<Rightarrow> ((WebSocketError, str) outcome \<times> 't st) option"
  where
  "worker E K clock k s =
     (if as_secs (clock k) \<ge> 10 then Some (Ok [], s)
      else
        (case event_loop E K s of
           (r, s') \<Rightarrow>
             (case r of
                Ok _ \<Rightarrow> worker E K clock (Suc k) s'
              | Err e \<Rightarrow> Some (Ok (WebSocketError_fmt e), s')
              | Panic \<Rightarrow> Some (Panic, s'))))"

text \<open>What \<open>on_close\<close> prints: who closed and the code. The other handlers print only constants and messages.\<close>

definition on_close :: "Reason \<Rightarrow> str \<times> u16" where
  "on_close r =
     (case r of
        SERVER_CLOSE c \<Rightarrow> (ascii ''server'', c)
      | CLIENT_CLOSE c \<Rightarrow> (ascii ''client'', c))"

section \<open>The simple client\<close>

text \<open>The configuration; the handler has address 0.\<close>

definition example_config :: "'t \<Rightarrow> 't Config" where
  "example_config d =
     \<lparr>cfg_callback = Some 0, cfg_data = Some d, cfg_protocols = Some [ascii ''chat'', ascii ''superchat'']\<rparr>"

definition example_client :: "'t \<Rightarrow> 't WSClient" where
  "example_client d = init (ascii ''localhost'') 3000 (ascii ''/'') (Some (example_config d)) WSClient_new"

text \<open>The program: the result of \<open>main\<close> with the count it prints; the client is dropped at the end.\<close>

definition simple_main ::
    "env \<Rightarrow> (nat \<Rightarrow> Duration) \<Rightarrow> (nat \<Rightarrow> nat) \<Rightarrow> World \<Rightarrow> ((WebSocketError, nat option) outcome \<times> nat st) option"
  where
  "simple_main E clock elapsed w =
     (case main_loop E (websocket_handler E) clock 0 (example_client 0, w) of
        None \<Rightarrow> None
      | Some (r, s') \<Rightarrow>
          (case drop_client E (websocket_handler E) elapsed s' of
             None \<Rightarrow> None
           | Some (Panic, s'') \<Rightarrow> Some (Panic, s'')
           | Some (_, s'') \<Rightarrow> Some (bindO r (\<lambda>_. Ok (cb_data (fst s'))), s'')))"

section \<open>The client in threads\<close>

text \<open>\<open>Arc<Mutex<Data>>\<close>: a panic while the lock is held poisons the mutex.\<close>

record Shared =
  poisoned :: bool
  msgs :: nat

definition thread_on_message :: "env \<Rightarrow> Shared option \<Rightarrow> Shared st \<Rightarrow> bool \<times> Shared st" where
  "thread_on_message E data s =
     (case data of
        None \<Rightarrow> (False, s)
      | Some d \<Rightarrow>
          if poisoned d then (False, s)
          else
            (case (usize_add (overflow_checks E) (msgs d) 1 :: (WebSocketError, nat) outcome) of
               Ok n \<Rightarrow> (True, ((fst s)\<lparr>cb_data := Some (d\<lparr>msgs := n\<rparr>)\<rparr>, snd s))
             | Err e \<Rightarrow> (False, s)
             | Panic \<Rightarrow> (False, ((fst s)\<lparr>cb_data := Some (d\<lparr>poisoned := True\<rparr>)\<rparr>, snd s))))"

definition thread_on_connect :: "env \<Rightarrow> Shared st \<Rightarrow> bool \<times> Shared st" where
  "thread_on_connect E s =
     (case send E (ascii ''Hello world'') s of
        Some (Ok _, s') \<Rightarrow> (True, s')
      | Some (Err e, s') \<Rightarrow> (False, s')
      | Some (Panic, s') \<Rightarrow> (False, s')
      | None \<Rightarrow> (False, s))"

definition thread_handler :: "env \<Rightarrow> Shared cbk" where
  "thread_handler E f ev data s =
     (case ev of
        ON_CONNECT msg \<Rightarrow> thread_on_connect E s
      | ON_TEXT msg \<Rightarrow> thread_on_message E data s
      | ON_CLOSE r \<Rightarrow> (True, s))"

text \<open>This handler keeps to the contract of callbacks, too.\<close>

lemma thread_on_connect_eq: "thread_on_connect = on_connect"
  by (simp add: fun_eq_iff thread_on_connect_def on_connect_def)

lemma thread_on_message_effect: "api_effect s (snd (thread_on_message E data s))"
  by (cases s) (auto simp: thread_on_message_def api_effect_refl set_data_effect split: option.split outcome.split)

lemma thread_on_message_timeout: "timeout (fst (snd (thread_on_message E data s))) = timeout (fst s)"
  by (simp add: thread_on_message_def split: option.split outcome.split)

interpretation steady_thread: callback_steady "thread_handler E" for E
  by unfold_locales
     (auto simp: thread_handler_def thread_on_connect_eq on_connect_effect on_connect_timeout
       thread_on_message_effect thread_on_message_timeout api_effect_refl split: WSEvent.split)

text \<open>
  One step of a thread: an iteration of the event loop, or a part of the destructor. The mutex is
  held only inside the handler for messages, of which an iteration calls at most one, and all else
  is the thread's own; so it is enough to interleave whole iterations.
\<close>

inductive thread_step :: "env \<Rightarrow> 't cbk \<Rightarrow> 't st \<Rightarrow> 't st \<Rightarrow> bool" for E :: env and K :: "'t cbk" where
  loop: "thread_step E K s (snd (event_loop E K s))"
| closing: "thread_step E K s (closing_client E s)"
| shut: "thread_step E K s (snd (stream_shutdown s))"

text \<open>The two threads and the cell; a thread that makes a step has the cell's content at hand.\<close>

record pool =
  shared :: Shared
  one :: "Shared st"
  two :: "Shared st"

definition lend :: "Shared \<Rightarrow> Shared st \<Rightarrow> Shared st" where
  "lend d s = ((fst s)\<lparr>cb_data := Some d\<rparr>, snd s)"

definition cell :: "Shared \<Rightarrow> Shared st \<Rightarrow> Shared" where
  "cell d s = (case cb_data (fst s) of Some d' \<Rightarrow> d' | None \<Rightarrow> d)"

inductive pool_step :: "env \<Rightarrow> pool \<Rightarrow> pool \<Rightarrow> bool" for E :: env where
  first: "thread_step E (thread_handler E) (lend (shared p) (one p)) s' \<Longrightarrow>
    pool_step E p (p\<lparr>shared := cell (shared p) s', one := s'\<rparr>)"
| second: "thread_step E (thread_handler E) (lend (shared p) (two p)) s' \<Longrightarrow>
    pool_step E p (p\<lparr>shared := cell (shared p) s', two := s'\<rparr>)"

text \<open>The program before its threads start.\<close>

definition thread_main_start :: "World \<Rightarrow> World \<Rightarrow> pool" where
  "thread_main_start w1 w2 =
     (let d = \<lparr>poisoned = False, msgs = 0\<rparr> in
      \<lparr>shared = d, one = (example_client d, w1), two = (example_client d, w2)\<rparr>)"

text \<open>What the program prints when its threads are joined: \<open>data.lock().unwrap().count\<close>.\<close>

definition thread_total :: "pool \<Rightarrow> (WebSocketError, nat) outcome" where
  "thread_total p = (if poisoned (shared p) then Panic else Ok (msgs (shared p)))"

section \<open>The loops return\<close>

context callback_steady begin

lemma main_loop_returns:
  assumes "client_ok s" and "from_secs 10 < clock n" and "k \<le> n"
  shows "\<exists>r s'. main_loop E K clock k s = Some (r, s') \<and> client_ok s' \<and> timeout (fst s') = timeout (fst s)"
  using assms
proof (induction "n - k" arbitrary: k s)
  case 0
  then show ?case by (cases s) (simp add: main_loop.simps [of E K clock k])
next
  case (Suc d)
  obtain r s1 where loop: "event_loop E K s = (r, s1)" by (metis prod.collapse)
  have s1: "client_ok s1" "timeout (fst s1) = timeout (fst s)"
    using event_loop_ok [OF Suc.prems(1), of E] event_loop_timeout [of E s] loop by simp_all
  then have "\<exists>r s'. main_loop E K clock (Suc k) s1 = Some (r, s') \<and> client_ok s' \<and>
      timeout (fst s') = timeout (fst s1)"
    using Suc.hyps(2) Suc.prems by (intro Suc.hyps(1)) simp_all
  then show ?case
    using loop s1 Suc.prems(1) by (cases r; cases s; cases s1) (auto simp: main_loop.simps [of E K clock k])
qed

end

lemma example_client_fields [simp]:
  "connection_status (example_client d) = START_INIT" "stream (example_client d) = None"
  "input_events (example_client d) = []" "output_events (example_client d) = []"
  "recv_storage (example_client d) = []" "recv_data (example_client d) = []"
  "cb_data (example_client d) = Some d" "callback (example_client d) = Some 0"
  "timeout (example_client d) = DEFAULT_TIMEOUT"
  "acceptable_protocols (example_client d) = Some [ascii ''chat'', ascii ''superchat'']"
  by (simp_all add: example_client_def init_def example_config_def WSClient_new_def)

lemma example_client_ok: "client_ok (example_client d, w)"
  by (simp add: client_ok_def)



section \<open>The threads make only such steps\<close>

lemma thread_loop: "event_loop E K s = (r, s') \<Longrightarrow> thread_step E K s s'"
  using thread_step.loop [of E K s] by simp

lemma worker_steps:
  assumes "worker E K clock k s = Some r"
  shows "(thread_step E K)\<^sup>*\<^sup>* s (snd r)"
proof (rule worker.raw_induct [where P = "\<lambda>E K clock k s r. (thread_step E K)\<^sup>*\<^sup>* s (snd r)", OF _ assms])
  fix loop and E and K :: "'a cbk" and clock k s r
  assume IH: "\<And>E K clock k s r. loop E K clock k s = Some r \<Longrightarrow> (thread_step E K)\<^sup>*\<^sup>* s (snd r)"
    and body: "(if 10 \<le> as_secs (clock k) then Some (Ok [], s)
       else case event_loop E K s of (r, s') \<Rightarrow>
         (case r of Ok x \<Rightarrow> loop E K clock (Suc k) s' | Err e \<Rightarrow> Some (Ok (WebSocketError_fmt e), s')
          | Panic \<Rightarrow> Some (Panic, s'))) = Some r"
  show "(thread_step E K)\<^sup>*\<^sup>* s (snd r)"
  proof (cases "10 \<le> as_secs (clock k)")
    case False
    obtain x s1 where loop: "event_loop E K s = (x, s1)" by (metis prod.collapse)
    have "(thread_step E K)\<^sup>*\<^sup>* s1 (snd r)"
      using body False loop IH by (cases x) auto
    with thread_loop [OF loop] show ?thesis by (rule converse_rtranclp_into_rtranclp)
  qed (use body in auto)
qed

lemma drop_loop_steps:
  assumes "drop_loop E K elapsed k s = Some r"
  shows "(thread_step E K)\<^sup>*\<^sup>* s (snd r)"
proof (rule drop_loop.raw_induct [where P = "\<lambda>E K elapsed k s r. (thread_step E K)\<^sup>*\<^sup>* s (snd r)", OF _ assms])
  fix loop and E and K :: "'a cbk" and elapsed k s r
  assume IH: "\<And>E K elapsed k s r. loop E K elapsed k s = Some r \<Longrightarrow> (thread_step E K)\<^sup>*\<^sup>* s (snd r)"
    and body: "(if stat s \<noteq> CLOSE
       then if as_secs (timeout (fst s)) \<le> elapsed k then Some (Ok (), s)
         else case event_loop E K s of (r, s') \<Rightarrow>
           (case r of Ok x \<Rightarrow> loop E K elapsed (Suc k) s' | Err e \<Rightarrow> Some (Ok (), s') | Panic \<Rightarrow> Some (Panic, s'))
       else Some (Ok (), s)) = Some r"
  show "(thread_step E K)\<^sup>*\<^sup>* s (snd r)"
  proof (cases "stat s \<noteq> CLOSE \<and> \<not> as_secs (timeout (fst s)) \<le> elapsed k")
    case True
    obtain x s1 where loop: "event_loop E K s = (x, s1)" by (metis prod.collapse)
    have "(thread_step E K)\<^sup>*\<^sup>* s1 (snd r)"
      using body True loop IH by (cases x) auto
    with thread_loop [OF loop] show ?thesis by (rule converse_rtranclp_into_rtranclp)
  qed (use body in \<open>auto split: if_splits\<close>)
qed

lemma drop_client_steps:
  assumes "drop_client E K elapsed s = Some r"
  shows "(thread_step E K)\<^sup>*\<^sup>* s (snd r)"
proof (cases "drops s")
  case True
  then obtain x s2 where loop: "drop_loop E K elapsed 0 (closing_client E s) = Some (x, s2)"
    using assms by (fastforce simp: drop_client_eq split: option.splits)
  have r: "r = (x, s2) \<or> snd r = snd (stream_shutdown s2)"
    using assms True loop
    by (cases x; cases "stream_shutdown s2"; cases "fst (stream_shutdown s2)") (auto simp: drop_client_eq)
  have "(thread_step E K)\<^sup>*\<^sup>* (closing_client E s) s2" using drop_loop_steps [OF loop] by simp
  then have "(thread_step E K)\<^sup>*\<^sup>* s s2"
    using thread_step.closing by (rule converse_rtranclp_into_rtranclp [rotated])
  then show ?thesis
    using r thread_step.shut [of E K s2] by (auto intro: rtranclp.rtrancl_into_rtrancl)
qed (use assms in \<open>auto simp: drop_client_eq\<close>)

text \<open>A thread runs the worker and then drops its client, also when the worker panics.\<close>

definition thread_body ::
    "env \<Rightarrow> 't cbk \<Rightarrow> (nat \<Rightarrow> Duration) \<Rightarrow> (nat \<Rightarrow> nat) \<Rightarrow> 't st \<Rightarrow> ((WebSocketError, unit) outcome \<times> 't st) option"
  where
  "thread_body E K clock elapsed s =
     (case worker E K clock 0 s of
        None \<Rightarrow> None
      | Some (_, s') \<Rightarrow> drop_client E K elapsed s')"

lemma thread_body_steps:
  assumes "thread_body E K clock elapsed s = Some r"
  shows "(thread_step E K)\<^sup>*\<^sup>* s (snd r)"
  using assms by (auto simp: thread_body_def split: option.splits dest!: worker_steps drop_client_steps)

section \<open>No message is lost\<close>

fun is_text :: "WSEvent \<Rightarrow> bool" where
  "is_text (ON_TEXT m) = True"
| "is_text (ON_CONNECT m) = False"
| "is_text (ON_CLOSE r) = False"

text \<open>How many text messages the client has handed to its callback.\<close>

definition texts :: "'t st \<Rightarrow> nat" where
  "texts s = length (filter is_text (called (trace (snd s))))"

text \<open>The cell counts these and the \<open>base\<close> messages of the other thread, until the counter is full.\<close>

definition counts :: "nat \<Rightarrow> Shared st \<Rightarrow> bool" where
  "counts base s \<longleftrightarrow>
     (\<exists>d. cb_data (fst s) = Some d \<and> (base + texts s < 2 ^ 64 \<longrightarrow> \<not> poisoned d \<and> msgs d = base + texts s))"

lemma on_connect_data:
  "cb_data (fst (snd (thread_on_connect E s))) = cb_data (fst s)"
  "trace (snd (snd (thread_on_connect E s))) = trace (snd s)"
proof -
  have "cb_data (fst (snd (thread_on_connect E s))) = cb_data (fst s) \<and>
      trace (snd (snd (thread_on_connect E s))) = trace (snd s)"
  proof (cases "send E (ascii ''Hello world'') s")
    case (Some rs)
    then show ?thesis
      using send_queued [of E "ascii ''Hello world''" s "fst rs" "snd rs"]
      by (cases rs; cases "fst rs") (auto simp: thread_on_connect_def queued_def simp del: ascii_simps(1-3))
  qed (simp add: thread_on_connect_def)
  then show "cb_data (fst (snd (thread_on_connect E s))) = cb_data (fst s)"
    "trace (snd (snd (thread_on_connect E s))) = trace (snd s)" by blast+
qed

lemma thread_handler_counts:
  assumes "counts base s"
  shows "counts base (snd (call_back (thread_handler E) f ev s))"
proof -
  obtain c w where s: "s = (c, w)" by (cases s)
  let ?s = "(c, w\<lparr>trace := trace w @ [Called ev]\<rparr>)"
  from assms obtain d where d: "cb_data c = Some d"
    and ok: "base + texts (c, w) < 2 ^ 64 \<longrightarrow> \<not> poisoned d \<and> msgs d = base + texts (c, w)"
    by (auto simp: counts_def s)
  have step: "snd (call_back (thread_handler E) f ev s) = snd (thread_handler E f ev (Some d) ?s)"
    by (simp add: s call_back_def d case_prod_beta)
  show ?thesis
  proof (cases ev)
    case (ON_TEXT m)
    then show ?thesis
      unfolding step using ok d
      by (auto simp: thread_handler_def thread_on_message_def counts_def texts_def usize_add_def
          split: if_splits)
  next
    case (ON_CONNECT m)
    then show ?thesis
      unfolding step using ok d by (simp add: thread_handler_def counts_def on_connect_data texts_def)
  next
    case (ON_CLOSE r)
    then show ?thesis
      unfolding step using ok d by (simp add: thread_handler_def counts_def texts_def)
  qed
qed

lemma counts_frame: "same_user s s' \<Longrightarrow> counts base s \<Longrightarrow> counts base s'"
  by (simp add: same_user_def counts_def texts_def)

interpretation counted: user_inv "thread_handler E" "counts base" for E base
  by unfold_locales (erule counts_frame, assumption, rule thread_handler_counts)

lemma thread_step_counts:
  assumes "thread_step E (thread_handler E) s s'" and "counts base s"
  shows "counts base s'"
  using assms
proof (induction rule: thread_step.induct)
  case (loop s)
  then show ?case using counted.preserves_event_loop [of base E E] unfolding preserves_def by blast
next
  case (closing s)
  then show ?case by (rule counts_frame [rotated]) (simp add: same_user_def closing_client_def)
next
  case (shut s)
  then show ?case using counted.preserves_calls(4) [of base] unfolding preserves_def by blast
qed

definition pool_ok :: "pool \<Rightarrow> bool" where
  "pool_ok p \<longleftrightarrow>
     (texts (one p) + texts (two p) < 2 ^ 64 \<longrightarrow>
      \<not> poisoned (shared p) \<and> msgs (shared p) = texts (one p) + texts (two p))"

lemma pool_ok_counts:
  "pool_ok p \<longleftrightarrow> counts (texts (two p)) (lend (shared p) (one p))"
  "pool_ok p \<longleftrightarrow> counts (texts (one p)) (lend (shared p) (two p))"
  by (simp_all add: pool_ok_def counts_def lend_def texts_def add.commute)

lemma counts_cell: "counts base s \<Longrightarrow> counts base (lend (cell d s) s)"
  by (auto simp: counts_def lend_def cell_def texts_def)

lemma pool_step_ok: "pool_step E p p' \<Longrightarrow> pool_ok p \<Longrightarrow> pool_ok p'"
proof (induction rule: pool_step.induct)
  case (first p s')
  then have "counts (texts (two p)) s'" by (auto simp: pool_ok_counts(1) intro: thread_step_counts)
  then show ?case by (simp add: pool_ok_counts(1) counts_cell)
next
  case (second p s')
  then have "counts (texts (one p)) s'" by (auto simp: pool_ok_counts(2) intro: thread_step_counts)
  then show ?case by (simp add: pool_ok_counts(2) counts_cell)
qed



end
