(* ===== verification/Ffi.thy ===== *)
theory Ffi
  imports Client_Ops
begin

text \<open>
  \<^verbatim>\<open>websocket/src/ffi/common.rs\<close> and \<^verbatim>\<open>websocket/src/ffi/sync/client.rs\<close>: the C interface. A
  pointer to a C string is the bytes from its address on, of which the string is what comes
  before the first zero byte; a pointer that the library hands out is the value it points to.
\<close>

section \<open>Events and errors for C\<close>

datatype C_WSEvent = C_ON_CONNECT | C_ON_TEXT | C_ON_CLOSE

datatype WSReason = SERVER_CLOSED | CLIENT_CLOSED

record WSReason_t =
  reason :: WSReason
  status :: u16

datatype c_value = NullPtr | CStringPtr "u8 list" | ReasonPtr WSReason_t

record WSEvent_t =
  event :: C_WSEvent
  c_val :: c_value

datatype C_WSStatus =
    C_OK
  | C_UnreachableHost
  | C_HandShake
  | C_InvalidFrame
  | C_ConnectionClose
  | C_DecodingFromUTF8
  | C_IOError

fun rust_error_to_c_error :: "WebSocketError \<Rightarrow> C_WSStatus" where
  "rust_error_to_c_error UnreachableHost = C_UnreachableHost"
| "rust_error_to_c_error HandShake = C_HandShake"
| "rust_error_to_c_error InvalidFrame = C_InvalidFrame"
| "rust_error_to_c_error ConnectionClose = C_ConnectionClose"
| "rust_error_to_c_error DecodingFromUTF8 = C_DecodingFromUTF8"
| "rust_error_to_c_error IOError = C_IOError"

text \<open>\<open>CString::new\<close> refuses bytes with a zero among them; both uses unwrap its result.\<close>

datatype NulError = NulError

definition CString_new :: "u8 list \<Rightarrow> (NulError, u8 list) outcome" where
  "CString_new bs = (if 0 \<in> set bs then Err NulError else Ok bs)"

fun from_rust_event :: "WSEvent \<Rightarrow> (WebSocketError, WSEvent_t) outcome" where
  "from_rust_event (ON_CONNECT msg) =
     (case msg of
        None \<Rightarrow> Ok \<lparr>event = C_ON_CONNECT, c_val = NullPtr\<rparr>
      | Some m \<Rightarrow>
          bindO (unwrapO (CString_new (trim (str_replace [0] [] m)))) (\<lambda>c_str.
          Ok \<lparr>event = C_ON_CONNECT, c_val = CStringPtr c_str\<rparr>))"
| "from_rust_event (ON_TEXT msg) =
     bindO (unwrapO (CString_new msg)) (\<lambda>c_str.
     Ok \<lparr>event = C_ON_TEXT, c_val = CStringPtr c_str\<rparr>)"
| "from_rust_event (ON_CLOSE r) =
     (case (case r of
              SERVER_CLOSE st \<Rightarrow> (SERVER_CLOSED, st)
            | CLIENT_CLOSE st \<Rightarrow> (CLIENT_CLOSED, st)) of
        (rs, st) \<Rightarrow> Ok \<lparr>event = C_ON_CLOSE, c_val = ReasonPtr \<lparr>reason = rs, status = st\<rparr>\<rparr>)"

section \<open>The client's functions\<close>

text \<open>
  \<open>layout_ok\<close>: whether the size and the alignment of the client make a valid layout;
  \<open>memory\<close>: whether the allocator has memory. Its result is not looked at: copying a client to a
  null pointer is undefined behaviour.
\<close>

datatype 'a defined = Defined 'a | Undefined

definition wssclient_new :: "bool \<Rightarrow> bool \<Rightarrow> 't WSClient option defined" where
  "wssclient_new layout_ok memory =
     (if \<not> layout_ok then Defined None
      else
        (let client = WSClient_new in
         if memory then Defined (Some client) else Undefined))"

definition cstr_bytes :: "u8 list \<Rightarrow> u8 list" where
  "cstr_bytes mem = takeWhile (\<lambda>b. b \<noteq> 0) mem"

text \<open>\<open>str::from_utf8(CStr::from_ptr(p).to_bytes()).unwrap()\<close>\<close>

definition cstr_to_str :: "u8 list \<Rightarrow> (WebSocketError, str) outcome" where
  "cstr_to_str mem = unwrapO (from_utf8 (cstr_bytes mem))"

definition wssclient_init ::
    "u8 list \<Rightarrow> u16 \<Rightarrow> u8 list \<Rightarrow> fn_ptr \<Rightarrow> 't WSClient \<Rightarrow> (WebSocketError, 't WSClient) outcome"
  where
  "wssclient_init host_mem p path_mem cb c =
     bindO (cstr_to_str host_mem) (\<lambda>h.
     bindO (cstr_to_str path_mem) (\<lambda>pth.
     let config = \<lparr>cfg_callback = Some cb, cfg_data = None, cfg_protocols = None\<rparr> in
     Ok (init h p pth (Some config) c)))"

definition wssclient_loop ::
    "env \<Rightarrow> 't cbk \<Rightarrow> 't st \<Rightarrow> (WebSocketError, C_WSStatus) outcome \<times> 't st" where
  "wssclient_loop E K s =
     (case event_loop E K s of
        (Ok _, s') \<Rightarrow> (Ok C_OK, s')
      | (Err e, s') \<Rightarrow> (Ok (rust_error_to_c_error e), s')
      | (Panic, s') \<Rightarrow> (Panic, s'))"

definition wssclient_send ::
    "env \<Rightarrow> u8 list \<Rightarrow> 't st \<Rightarrow> ((WebSocketError, unit) outcome \<times> 't st) option" where
  "wssclient_send E message_mem s =
     (case cstr_to_str message_mem of
        Ok msg \<Rightarrow> send E msg s
      | Err e \<Rightarrow> Some (Err e, s)
      | Panic \<Rightarrow> Some (Panic, s))"

definition wssclient_drop ::
    "env \<Rightarrow> 't cbk \<Rightarrow> (nat \<Rightarrow> nat) \<Rightarrow> 't st \<Rightarrow> ((WebSocketError, unit) outcome \<times> 't st) option" where
  "wssclient_drop E K elapsed s = drop_client E K elapsed s"

section \<open>Conversions\<close>

lemma rust_error_to_c_error_inject:
  "rust_error_to_c_error d = rust_error_to_c_error e \<longleftrightarrow> d = e"
  by (cases d; cases e) simp_all

lemma rust_error_to_c_error_not_OK: "rust_error_to_c_error e \<noteq> C_OK"
  by (cases e) simp_all

end
