(* ===== verification/Ffi_Props.thy ===== *)
theory Ffi_Props
  imports Ffi Client_Props
begin

text \<open>
  The properties of the C interface: which events it can hand over, what it returns, and on which
  strings it panics.
\<close>

section \<open>Helper lemmas\<close>

lemma str_replace_byte: "str_replace [x] [] s = filter (\<lambda>b. b \<noteq> x) s"
  by (induction s) simp_all

lemma set_drop_front: "set (trim_with ws s) \<subseteq> set s"
proof (induction ws s rule: trim_with.induct)
  case (1 ws s)
  then show ?case
    by (subst trim_with.simps) (auto dest: in_set_dropD)
qed

lemma set_trim: "set (trim s) \<subseteq> set s"
  using set_drop_front [of white_space s] set_drop_front [of "map rev white_space" "rev (trim_start s)"]
  by (auto simp: trim_def trim_start_def trim_end_def)

lemma cstr_bytes_whole: "0 \<notin> set bs \<Longrightarrow> cstr_bytes (bs @ 0 # rest) = bs"
  by (induction bs) (simp_all add: cstr_bytes_def)

section \<open>Events\<close>

text \<open>
  C35: An event is handed over to C unless it is a text with a zero byte, on which the conversion
  panics; the body of the response cannot make it panic, since its zero bytes are removed; and a
  text that is handed over is read back by C as it was.
\<close>

theorem events_for_c:
  "(from_rust_event ev = Panic \<longleftrightarrow> (\<exists>m. ev = ON_TEXT m \<and> 0 \<in> set m)) \<and>
   (\<forall>m. ev = ON_TEXT m \<longrightarrow> 0 \<notin> set m \<longrightarrow>
      from_rust_event ev = Ok \<lparr>event = C_ON_TEXT, c_val = CStringPtr m\<rparr> \<and> cstr_bytes (m @ 0 # rest) = m)"
proof -
  have "0 \<notin> set (trim (str_replace [0] [] m))" for m
    using set_trim [of "str_replace [0] [] m"] by (auto simp: str_replace_byte)
  then have body: "from_rust_event (ON_CONNECT b) \<noteq> Panic" for b
    by (cases b) (simp_all add: CString_new_def)
  show ?thesis
  proof (cases ev)
    case (ON_CONNECT b)
    then show ?thesis using body by simp
  next
    case (ON_TEXT m)
    then show ?thesis by (simp add: CString_new_def cstr_bytes_whole)
  next
    case (ON_CLOSE r)
    then show ?thesis by (cases r) simp_all
  qed
qed

theorem events_for_c_witness:
  "from_rust_event (ON_TEXT [72, 0]) = Panic \<and> cstr_bytes (ascii ''Hi'' @ 0 # [7]) = ascii ''Hi''"
  using events_for_c [of "ON_TEXT [72, 0]" "[]"] events_for_c [of "ON_TEXT (ascii ''Hi'')" "[7]"] by simp

section \<open>The client's functions\<close>

text \<open>
  The clients a C program can get: a pointer from \<open>wssclient_new\<close>, and what the calls through it
  make of the client, also after an error status or a panic.
\<close>

inductive c_reachable :: "env \<Rightarrow> 't cbk \<Rightarrow> 't st \<Rightarrow> bool" for E :: env and K :: "'t cbk" where
  c_new: "wssclient_new layout_ok memory = Defined (Some c) \<Longrightarrow> c_reachable E K (c, w)"
| c_init: "c_reachable E K (c, w) \<Longrightarrow> wssclient_init host_mem p path_mem cb c = Ok c' \<Longrightarrow> c_reachable E K (c', w)"
| c_loop: "c_reachable E K s \<Longrightarrow> wssclient_loop E K s = (r, s') \<Longrightarrow> c_reachable E K s'"
| c_send: "c_reachable E K s \<Longrightarrow> length (cstr_bytes mem) < 2 ^ 63 \<Longrightarrow>
    wssclient_send E mem s = Some (q, s') \<Longrightarrow> c_reachable E K s'"

lemma wssclient_loop_eq:
  "snd (wssclient_loop E K s) = snd (event_loop E K s)"
  "fst (wssclient_loop E K s) =
    (case fst (event_loop E K s) of Ok _ \<Rightarrow> Ok C_OK | Err e \<Rightarrow> Ok (rust_error_to_c_error e) | Panic \<Rightarrow> Panic)"
  by (cases "event_loop E K s"; cases "fst (event_loop E K s)"; simp add: wssclient_loop_def)+

lemma wssclient_send_cases:
  assumes "wssclient_send E mem s = Some (q, s')"
  obtains "utf8_valid (cstr_bytes mem)" and "send E (cstr_bytes mem) s = Some (q, s')"
  | "\<not> utf8_valid (cstr_bytes mem)" and "q = Panic" and "s' = s"
  using assms
  by (cases "utf8_valid (cstr_bytes mem)") (auto simp: wssclient_send_def cstr_to_str_def from_utf8_def)

lemma c_reachable_reachable: "c_reachable E K s \<Longrightarrow> reachable E K s"
proof (induction rule: c_reachable.induct)
  case (c_new layout_ok memory c w)
  then have "c = WSClient_new" by (auto simp: wssclient_new_def Let_def split: if_splits)
  then show ?case by (simp add: reachable.new)
next
  case (c_init c w host_mem p path_mem cb c')
  from c_init.hyps(2) obtain h pth cfg where "c' = init h p pth cfg c"
    by (auto simp: wssclient_init_def Let_def)
  with c_init.IH show ?case by (simp add: reachable.init)
next
  case (c_loop s r s')
  then have "event_loop E K s = (fst (event_loop E K s), s')" using wssclient_loop_eq(1) [of E K s] by simp
  with c_loop.IH show ?case by (rule reachable.event_loop)
next
  case (c_send s mem q s')
  from c_send.hyps(3) show ?case
    by (rule wssclient_send_cases) (use c_send reachable.send in blast)+
qed



end
